theory Spec2Isabelle
  imports Main
begin

section \<open>Cache budget (AppInitMain, step 7b, "cache size calculations")\<close>

text \<open>
  The limits come from txdb.h, which is not among the sources; they are parameters of the
  model. All of them are numbers of MiB, as in the source, where each use shifts them left
  by 20 bits.
\<close>

record CacheLimits =
  nMinDbCache :: int
  nMaxDbCache :: int
  nMaxBlockDBCache :: int
  nMaxTxIndexCache :: int
  max_filter_index_cache :: int
  nMaxCoinsDBCache :: int

record CacheBudget =
  nBlockTreeDBCache :: int
  nTxIndexCache :: int
  filter_index_cache :: int
  nCoinDBCache :: int
  nCoinCacheUsage :: int

text \<open>\<open>x << 20\<close> on an int64 that does not overflow.\<close>

definition shl20 :: "int \<Rightarrow> int" where
  "shl20 x = x * 2 ^ 20"

text \<open>
  The values are int64 in the source. The model computes on unbounded integers;
  \<open>fits_int64\<close> is the range in which both agree, and the theorem on the budget shows
  that every value computed lies inside it.
\<close>

definition fits_int64 :: "int \<Rightarrow> bool" where
  "fits_int64 x = (- (2 ^ 63) \<le> x \<and> x < 2 ^ 63)"

text \<open>Lines 1916 to 1918: the configured total, clamped to the documented range.\<close>

definition total_cache :: "CacheLimits \<Rightarrow> int \<Rightarrow> int" where
  "total_cache L dbcache =
     min (max (shl20 dbcache) (shl20 (nMinDbCache L))) (shl20 (nMaxDbCache L))"

text \<open>
  Lines 1919 to 1933. \<open>txindex\<close> is the value of -txindex, \<open>n_indexes\<close> the size of
  \<open>g_enabled_filter_types\<close>, \<open>nTotalCache\<close> the clamped total. Each \<open>let\<close> is one
  assignment of the source, in its order; \<open>t1\<close>, \<open>t2\<close>, \<open>t3\<close>, \<open>t4\<close> are the
  successive values of the variable nTotalCache.
\<close>

definition cache_budget :: "CacheLimits \<Rightarrow> bool \<Rightarrow> nat \<Rightarrow> int \<Rightarrow> CacheBudget" where
  "cache_budget L txindex n_indexes nTotalCache =
    (let blocktree = min (nTotalCache div 8) (shl20 (nMaxBlockDBCache L));
         t1 = nTotalCache - blocktree;
         tx = min (t1 div 8) (if txindex then shl20 (nMaxTxIndexCache L) else 0);
         t2 = t1 - tx;
         max_cache = min (t2 div 8) (shl20 (max_filter_index_cache L));
         filt = (if n_indexes = 0 then 0 else max_cache div int n_indexes);
         t3 = (if n_indexes = 0 then t2 else t2 - filt * int n_indexes);
         coindb0 = min (t3 div 2) (t3 div 4 + 2 ^ 23);
         coindb = min coindb0 (shl20 (nMaxCoinsDBCache L));
         t4 = t3 - coindb
     in \<lparr> nBlockTreeDBCache = blocktree, nTxIndexCache = tx, filter_index_cache = filt,
          nCoinDBCache = coindb, nCoinCacheUsage = t4 \<rparr>)"

text \<open>The limits are sizes: not negative, ordered, and small enough to be shifted.\<close>

definition limits_ok :: "CacheLimits \<Rightarrow> bool" where
  "limits_ok L =
     (0 \<le> nMinDbCache L \<and> nMinDbCache L \<le> nMaxDbCache L \<and> nMaxDbCache L < 2 ^ 43 \<and>
      0 \<le> nMaxBlockDBCache L \<and> nMaxBlockDBCache L < 2 ^ 43 \<and>
      0 \<le> nMaxTxIndexCache L \<and> nMaxTxIndexCache L < 2 ^ 43 \<and>
      0 \<le> max_filter_index_cache L \<and> max_filter_index_cache L < 2 ^ 43 \<and>
      0 \<le> nMaxCoinsDBCache L \<and> nMaxCoinsDBCache L < 2 ^ 43)"

text \<open>The values txdb.h gives the limits in this code base's upstream, used in examples.\<close>

definition txdb_limits :: CacheLimits where
  "txdb_limits = \<lparr> nMinDbCache = 4, nMaxDbCache = 16384, nMaxBlockDBCache = 2,
                    nMaxTxIndexCache = 1024, max_filter_index_cache = 1024,
                    nMaxCoinsDBCache = 8 \<rparr>"

section \<open>Parameter interaction (InitParameterInteraction)\<close>

subsection \<open>The argument store\<close>

text \<open>
  Modelled from the spec: the class ArgsManager (util/system) is not among the sources; only
  its calls are. The spec says that every option has a default and may be overridden by
  the command line or the configuration file, and that parameter interaction only
  overrides values that were not set explicitly. The store is a map from option names to
  the string given; an option is set if the map holds it. A soft set writes an option
  only if it is not set and reports whether it wrote; a forced set always writes.
\<close>

type_synonym ArgsManager = "string \<rightharpoonup> string"

definition IsArgSet :: "ArgsManager \<Rightarrow> string \<Rightarrow> bool" where
  "IsArgSet args name = (args name \<noteq> None)"

definition ForceSetArg :: "string \<Rightarrow> string \<Rightarrow> ArgsManager \<Rightarrow> ArgsManager" where
  "ForceSetArg name val args = args(name \<mapsto> val)"

definition SoftSetArg :: "string \<Rightarrow> string \<Rightarrow> ArgsManager \<Rightarrow> bool \<times> ArgsManager" where
  "SoftSetArg name val args =
     (if IsArgSet args name then (False, args) else (True, ForceSetArg name val args))"

definition SoftSetBoolArg :: "string \<Rightarrow> bool \<Rightarrow> ArgsManager \<Rightarrow> bool \<times> ArgsManager" where
  "SoftSetBoolArg name b args = SoftSetArg name (if b then ''1'' else ''0'') args"

text \<open>
  Numbers are read as C's atoi reads them: leading blanks, an optional sign, then the
  digits up to the first other character. (Overflow is left out: the values of interest
  are small.)
\<close>

definition digit_value :: "char \<Rightarrow> int option" where
  "digit_value c = map_of (zip ''0123456789'' [0, 1, 2, 3, 4, 5, 6, 7, 8, 9]) c"

fun atoi_digits :: "int \<Rightarrow> string \<Rightarrow> int" where
  "atoi_digits acc [] = acc"
| "atoi_digits acc (c # cs) =
     (case digit_value c of None \<Rightarrow> acc | Some d \<Rightarrow> atoi_digits (acc * 10 + d) cs)"

definition atoi64 :: "string \<Rightarrow> int" where
  "atoi64 s =
     (case dropWhile (\<lambda>c. c = CHR '' '') s of
        [] \<Rightarrow> 0
      | c # cs \<Rightarrow> if c = CHR ''-'' then - atoi_digits 0 cs
                 else if c = CHR ''+'' then atoi_digits 0 cs
                 else atoi_digits 0 (c # cs))"

definition InterpretBool :: "string \<Rightarrow> bool" where
  "InterpretBool s = (s = [] \<or> atoi64 s \<noteq> 0)"

definition GetBoolArg :: "ArgsManager \<Rightarrow> string \<Rightarrow> bool \<Rightarrow> bool" where
  "GetBoolArg args name dflt = (case args name of None \<Rightarrow> dflt | Some v \<Rightarrow> InterpretBool v)"

definition GetArg :: "ArgsManager \<Rightarrow> string \<Rightarrow> int \<Rightarrow> int" where
  "GetArg args name dflt = (case args name of None \<Rightarrow> dflt | Some v \<Rightarrow> atoi64 v)"

subsection \<open>The rules\<close>

text \<open>The defaults are constants of headers that are not among the sources: parameters.\<close>

record Defaults =
  DEFAULT_LISTEN :: bool
  DEFAULT_BLOCKSONLY :: bool
  DEFAULT_WHITELISTFORCERELAY :: bool
  DEFAULT_ADDRESSINDEX :: bool
  DEFAULT_SPENTINDEX :: bool
  DEFAULT_TIMESTAMPINDEX :: bool
  DEFAULT_CHECKLEVEL :: int

text \<open>
  A line of the log: the cause, the option and the value of
  "parameter interaction: <cause> -> setting <option>=<value>".
\<close>

datatype Interaction = Interaction string string string

record ParamState =
  args :: ArgsManager
  interactions :: "Interaction list"

text \<open>The idiom \<open>if (gArgs.SoftSetBoolArg(name, b)) LogPrintf(...)\<close>.\<close>

definition soft_set :: "string \<Rightarrow> string \<Rightarrow> bool \<Rightarrow> string \<Rightarrow> ParamState \<Rightarrow> ParamState" where
  "soft_set cause name b shown st =
     (case SoftSetBoolArg name b (args st) of
        (True, args') \<Rightarrow> \<lparr> args = args', interactions = interactions st @ [Interaction cause name shown] \<rparr>
      | (False, _) \<Rightarrow> st)"

definition guarded :: "bool \<Rightarrow> (ParamState \<Rightarrow> ParamState) \<Rightarrow> ParamState \<Rightarrow> ParamState" where
  "guarded c f st = (if c then f st else st)"

text \<open>Lines 1074 to 1081.\<close>

definition rule_bind :: "ParamState \<Rightarrow> ParamState" where
  "rule_bind st =
    (let st = guarded (IsArgSet (args st) ''-bind'')
                (soft_set ''-bind set'' ''-listen'' True ''1'') st;
         st = guarded (IsArgSet (args st) ''-whitebind'')
                (soft_set ''-whitebind set'' ''-listen'' True ''1'') st
     in st)"

text \<open>Lines 1083 to 1089.\<close>

definition rule_connect :: "ParamState \<Rightarrow> ParamState" where
  "rule_connect st =
     guarded (IsArgSet (args st) ''-connect'')
       (soft_set ''-connect set'' ''-listen'' False ''0''
        \<circ> soft_set ''-connect set'' ''-dnsseed'' False ''0'') st"

text \<open>Lines 1091 to 1104.\<close>

definition rule_proxy :: "ParamState \<Rightarrow> ParamState" where
  "rule_proxy st =
     guarded (IsArgSet (args st) ''-proxy'')
       (soft_set ''-proxy set'' ''-discover'' False ''0''
        \<circ> soft_set ''-proxy set'' ''-natpmp'' False ''0''
        \<circ> soft_set ''-proxy set'' ''-upnp'' False ''0''
        \<circ> soft_set ''-proxy set'' ''-listen'' False ''0'') st"

text \<open>Lines 1106 to 1116.\<close>

definition rule_nolisten :: "Defaults \<Rightarrow> ParamState \<Rightarrow> ParamState" where
  "rule_nolisten D st =
     guarded (\<not> GetBoolArg (args st) ''-listen'' (DEFAULT_LISTEN D))
       (soft_set ''-listen=0'' ''-listenonion'' False ''0''
        \<circ> soft_set ''-listen=0'' ''-discover'' False ''0''
        \<circ> soft_set ''-listen=0'' ''-natpmp'' False ''0''
        \<circ> soft_set ''-listen=0'' ''-upnp'' False ''0'') st"

text \<open>Lines 1118 to 1134.\<close>

definition rule_externalip :: "ParamState \<Rightarrow> ParamState" where
  "rule_externalip st =
     guarded (IsArgSet (args st) ''-externalip'')
       (soft_set ''-externalip set'' ''-discover'' False ''0'') st"

definition rule_relay :: "Defaults \<Rightarrow> ParamState \<Rightarrow> ParamState" where
  "rule_relay D st =
    (let st = guarded (GetBoolArg (args st) ''-blocksonly'' (DEFAULT_BLOCKSONLY D))
                (soft_set ''-blocksonly=1'' ''-whitelistrelay'' False ''0'') st;
         st = guarded (GetBoolArg (args st) ''-whitelistforcerelay'' (DEFAULT_WHITELISTFORCERELAY D))
                (soft_set ''-whitelistforcerelay=1'' ''-whitelistrelay'' True ''1'') st
     in st)"

text \<open>Lines 1136 to 1144.\<close>

definition rule_prune :: "ParamState \<Rightarrow> ParamState" where
  "rule_prune st =
     guarded (GetArg (args st) ''-prune'' 0 > 0)
       (soft_set ''-prune'' ''-txindex'' False ''false''
        \<circ> soft_set ''-prune'' ''-disablegovernance'' True ''true'') st"

text \<open>Lines 1146 to 1156: the one forced setting.\<close>

definition rule_checklevel :: "Defaults \<Rightarrow> ParamState \<Rightarrow> ParamState" where
  "rule_checklevel D st =
    (let fAdditionalIndexes =
           (GetBoolArg (args st) ''-addressindex'' (DEFAULT_ADDRESSINDEX D) \<or>
            GetBoolArg (args st) ''-spentindex'' (DEFAULT_SPENTINDEX D) \<or>
            GetBoolArg (args st) ''-timestampindex'' (DEFAULT_TIMESTAMPINDEX D))
     in if fAdditionalIndexes \<and> GetArg (args st) ''-checklevel'' (DEFAULT_CHECKLEVEL D) < 4
        then \<lparr> args = ForceSetArg ''-checklevel'' ''4'' (args st),
               interactions = interactions st @ [Interaction ''additional indexes'' ''-checklevel'' ''4''] \<rparr>
        else st)"

text \<open>Lines 1158 to 1160.\<close>

definition rule_masternode :: "ParamState \<Rightarrow> ParamState" where
  "rule_masternode st =
     guarded (IsArgSet (args st) ''-masternodeblsprivkey'')
       (soft_set ''-masternodeblsprivkey set'' ''-disablewallet'' True ''1'') st"

definition InitParameterInteraction :: "Defaults \<Rightarrow> ParamState \<Rightarrow> ParamState" where
  "InitParameterInteraction D =
     rule_masternode \<circ> rule_checklevel D \<circ> rule_prune \<circ> rule_relay D \<circ> rule_externalip
     \<circ> rule_nolisten D \<circ> rule_proxy \<circ> rule_connect \<circ> rule_bind"

text \<open>The configuration as the user gave it, before any interaction.\<close>

definition user_config :: "(string \<times> string) list \<Rightarrow> ParamState" where
  "user_config kvs = \<lparr> args = map_of kvs, interactions = [] \<rparr>"

definition upstream_defaults :: Defaults where
  "upstream_defaults = \<lparr> DEFAULT_LISTEN = True, DEFAULT_BLOCKSONLY = False,
     DEFAULT_WHITELISTFORCERELAY = True, DEFAULT_ADDRESSINDEX = False,
     DEFAULT_SPENTINDEX = False, DEFAULT_TIMESTAMPINDEX = False, DEFAULT_CHECKLEVEL = 3 \<rparr>"

section \<open>The block import pipeline (ThreadImport)\<close>

text \<open>
  What the file system answers for one source. For a block file blkNNNNN.dat:
  \<open>Missing\<close> when fs::exists is false, \<open>Unopenable\<close> when it exists and OpenBlockFile
  returns null, \<open>Readable\<close> otherwise. For bootstrap.dat: \<open>Missing\<close> when fs::exists is
  false, \<open>Unopenable\<close> when fopen returns null. For a -loadblock file only fopen is
  called: \<open>Missing\<close> and \<open>Unopenable\<close> both stand for a null result. The flag of
  \<open>Readable\<close> tells whether a shutdown request arrives while the file is replayed.
\<close>

datatype Openness = Missing | Unopenable | Readable (interrupted: bool)

datatype Source = BlkFile nat | Bootstrap | LoadBlock string

datatype LogLine =
    LogReindexingFile nat
  | LogShutdownExit
  | LogReindexingFinished
  | LogImportingBootstrap
  | WarnBootstrap
  | LogImportingFile string
  | WarnBlocksFile string
  | LogFailedConnect
  | LogStopAfterImport
  | LogFillingCoinCache
  | LogFillingCoinCacheDone

text \<open>
  The values of strLoadError in the chain state load of AppInitMain (step 7b);
  \<open>ErrNone\<close> is the empty string it starts with.
\<close>

datatype LoadError =
    ErrNone
  | ErrOpeningBlockDB
  | ErrLoadingBlockDB
  | ErrRebuildAddressIndex
  | ErrRebuildTimestampIndex
  | ErrRebuildSpentIndex
  | ErrRebuildUnpruned
  | ErrInitBlockDB
  | ErrUpgradingChainstate
  | ErrReplayBlocks
  | ErrCommitEvoDB
  | ErrUpgradingEvoDB
  | ErrBlockFromFuture
  | ErrCorruptedBlockDB

text \<open>
  The calls made and lines logged by ThreadImport and by the chain state load. The flag of
  a store that is opened is its wipe argument.
\<close>

datatype Event =
    LogPrintf LogLine
  | LoadExternalBlockFile Source
  | WriteReindexing bool
  | LoadGenesisBlock
  | RenameOver
  | ActivateBestChain
  | StartShutdown
  | InitializeCurrentBlockTip
  | GetListAtChainTip
  | ActiveMasternodeInit
  | AutoLockMasternodeCollaterals
  | LoadMempool
  | SetIsLoaded bool
  | MakeChainState
  | OpenBlockTreeDB bool
  | OpenEvoDB bool
  | InitLLMQSystem bool
  | CleanupBlockRevFiles
  | LoadBlockIndex
  | InitCoinsDB bool
  | VerifyDB
  | ThreadSafeQuestion LoadError
  | AbortShutdown

text \<open>What ThreadImport reads from outside: the files, and the answers of its callees.\<close>

record ImportEnv =
  blk_files :: "Openness list"
  bootstrap :: Openness
  rename_ok :: bool
  vImportFiles :: "(string \<times> Openness) list"
  activate_ok :: bool
  stopafterblockimport :: bool
  fMasternodeMode :: bool
  activeMasternodeManager :: bool
  persistmempool :: bool
  late_shutdown :: bool

text \<open>
  The globals that the import thread and the chain state load change.
  \<open>disk_reindexing\<close> is the reindexing marker of the block tree store, \<open>events\<close>
  the calls made and lines logged, in order.
\<close>

record Globals =
  fReindex :: bool
  disk_reindexing :: bool
  fRequestShutdown :: bool
  fImporting :: bool
  mempool_loaded :: bool
  events :: "Event list"

datatype Exit =
    ShutdownObserved
  | RenameFailed
  | ActivateFailed
  | StopAfterImport
  | AssertionFailed

definition emit :: "Event list \<Rightarrow> Globals \<Rightarrow> Globals" where
  "emit es st = st\<lparr> events := events st @ es \<rparr>"

text \<open>LoadExternalBlockFile on one source; a shutdown request may arrive meanwhile.\<close>

definition replay :: "Source \<Rightarrow> bool \<Rightarrow> Globals \<Rightarrow> Globals" where
  "replay src sig st =
     (emit [LoadExternalBlockFile src] st)\<lparr> fRequestShutdown := fRequestShutdown st \<or> sig \<rparr>"

text \<open>
  Lines 873 to 888, the loop \<open>while (true)\<close> over nFile. The list holds the files
  blk00000.dat, blk00001.dat, ... from nFile on; past its end every file is missing.
  The result is True when the function returns from inside the loop.
\<close>

fun reindex_loop :: "Openness list \<Rightarrow> nat \<Rightarrow> Globals \<Rightarrow> bool \<times> Globals" where
  "reindex_loop [] nFile st = (False, st)"
| "reindex_loop (Missing # fs) nFile st = (False, st)"
| "reindex_loop (Unopenable # fs) nFile st = (False, st)"
| "reindex_loop (Readable sig # fs) nFile st =
     (let st = emit [LogPrintf (LogReindexingFile nFile)] st;
          st = replay (BlkFile nFile) sig st
      in if fRequestShutdown st then (True, emit [LogPrintf LogShutdownExit] st)
         else reindex_loop fs (nFile + 1) st)"

text \<open>A phase either leaves the function (\<open>Some\<close> exit) or goes on (\<open>None\<close>).\<close>

type_synonym Phase = "Globals \<Rightarrow> Exit option \<times> Globals"

definition and_then :: "Phase \<Rightarrow> Phase \<Rightarrow> Phase" where
  "and_then f g st = (case f st of (Some x, st') \<Rightarrow> (Some x, st') | (None, st') \<Rightarrow> g st')"

text \<open>Lines 872 to 894.\<close>

definition phase_reindex :: "ImportEnv \<Rightarrow> Phase" where
  "phase_reindex env st =
     (if fReindex st then
        (case reindex_loop (blk_files env) 0 st of
           (True, st') \<Rightarrow> (Some ShutdownObserved, st')
         | (False, st') \<Rightarrow>
             (None, (emit [WriteReindexing False, LogPrintf LogReindexingFinished, LoadGenesisBlock] st')
                      \<lparr> disk_reindexing := False, fReindex := False \<rparr>))
      else (None, st))"

text \<open>Lines 896 to 910.\<close>

definition phase_bootstrap :: "ImportEnv \<Rightarrow> Phase" where
  "phase_bootstrap env st =
     (case bootstrap env of
        Missing \<Rightarrow> (None, st)
      | Unopenable \<Rightarrow> (None, emit [LogPrintf WarnBootstrap] st)
      | Readable sig \<Rightarrow>
          (let st = emit [LogPrintf LogImportingBootstrap] st;
               st = replay Bootstrap sig st;
               st = emit [RenameOver] st
           in if rename_ok env then (None, st) else (Some RenameFailed, st)))"

text \<open>Lines 912 to 925.\<close>

fun loadblock_loop :: "(string \<times> Openness) list \<Rightarrow> Phase" where
  "loadblock_loop [] st = (None, st)"
| "loadblock_loop ((path, Readable sig) # fs) st =
     (let st = emit [LogPrintf (LogImportingFile path)] st;
          st = replay (LoadBlock path) sig st
      in if fRequestShutdown st then (Some ShutdownObserved, emit [LogPrintf LogShutdownExit] st)
         else loadblock_loop fs st)"
| "loadblock_loop ((path, _) # fs) st =
     loadblock_loop fs (emit [LogPrintf (WarnBlocksFile path)] st)"

text \<open>Lines 927 to 939.\<close>

definition phase_activate :: "ImportEnv \<Rightarrow> Phase" where
  "phase_activate env st =
     (let st = emit [ActivateBestChain] st
      in if \<not> activate_ok env
         then (Some ActivateFailed,
               (emit [LogPrintf LogFailedConnect, StartShutdown] st)\<lparr> fRequestShutdown := True \<rparr>)
         else if stopafterblockimport env
         then (Some StopAfterImport,
               (emit [LogPrintf LogStopAfterImport, StartShutdown] st)\<lparr> fRequestShutdown := True \<rparr>)
         else (None, st))"

text \<open>Lines 940 to 977; the scope of CImportingNow ends before them.\<close>

definition phase_warmup :: "ImportEnv \<Rightarrow> Phase" where
  "phase_warmup env st =
     (let st = st\<lparr> fImporting := False \<rparr>;
          st = emit [InitializeCurrentBlockTip, LogPrintf LogFillingCoinCache, GetListAtChainTip,
                     LogPrintf LogFillingCoinCacheDone] st
      in if fMasternodeMode env \<and> \<not> activeMasternodeManager env then (Some AssertionFailed, st)
         else
          (let st = (if fMasternodeMode env then emit [ActiveMasternodeInit] st else st);
               st = emit [AutoLockMasternodeCollaterals] st;
               st = (if persistmempool env then emit [LoadMempool] st else st);
               down = (fRequestShutdown st \<or> late_shutdown env);
               st = (emit [SetIsLoaded (\<not> down)] st)
                       \<lparr> fRequestShutdown := down, mempool_loaded := \<not> down \<rparr>
           in (None, st)))"

text \<open>The three kinds of source, in the order of the source.\<close>

definition import_sources :: "ImportEnv \<Rightarrow> Phase" where
  "import_sources env =
     and_then (phase_reindex env)
       (and_then (phase_bootstrap env) (loadblock_loop (vImportFiles env)))"

text \<open>
  The whole function. CImportingNow sets fImporting and its destructor clears it on
  every way out of the scope.
\<close>

definition ThreadImport :: "ImportEnv \<Rightarrow> Phase" where
  "ThreadImport env st =
     (case and_then (import_sources env) (and_then (phase_activate env) (phase_warmup env))
             (st\<lparr> fImporting := True \<rparr>) of
        (x, st') \<Rightarrow> (x, st'\<lparr> fImporting := False \<rparr>))"

text \<open>The lines that warn of a source that could not be opened.\<close>

fun is_open_warning :: "Event \<Rightarrow> bool" where
  "is_open_warning (LogPrintf WarnBootstrap) = True"
| "is_open_warning (LogPrintf (WarnBlocksFile p)) = True"
| "is_open_warning e = False"

text \<open>The same environment with the sources that cannot be opened taken away.\<close>

definition without_unopenable :: "ImportEnv \<Rightarrow> ImportEnv" where
  "without_unopenable env =
     env\<lparr> bootstrap := (if bootstrap env = Unopenable then Missing else bootstrap env),
          vImportFiles := filter (\<lambda>pf. is_Readable (snd pf)) (vImportFiles env) \<rparr>"

definition hide_warnings :: "Globals \<Rightarrow> Globals" where
  "hide_warnings st = st\<lparr> events := filter (\<lambda>e. \<not> is_open_warning e) (events st) \<rparr>"

text \<open>The log line and the call for each of the block files n, ..., n + length fs - 1.\<close>

fun reindexed :: "nat \<Rightarrow> 'a list \<Rightarrow> Event list" where
  "reindexed n [] = []"
| "reindexed n (f # fs) =
     LogPrintf (LogReindexingFile n) # LoadExternalBlockFile (BlkFile n) # reindexed (n + 1) fs"

text \<open>A state to start from, and an environment for examples.\<close>

definition import_start :: "bool \<Rightarrow> Globals" where
  "import_start reindex =
     \<lparr> fReindex = reindex, disk_reindexing = reindex, fRequestShutdown = False,
       fImporting = False, mempool_loaded = False, events = [] \<rparr>"

definition quiet_env :: ImportEnv where
  "quiet_env = \<lparr> blk_files = [], bootstrap = Missing, rename_ok = True, vImportFiles = [],
     activate_ok = True, stopafterblockimport = False, fMasternodeMode = False,
     activeMasternodeManager = False, persistmempool = True, late_shutdown = False \<rparr>"

text \<open>
  Two phases agree when, from states that differ only in warnings, they leave the
  function the same way and reach states that differ only in warnings.
\<close>

definition agree :: "Phase \<Rightarrow> Phase \<Rightarrow> bool" where
  "agree f g =
     (\<forall>s t. hide_warnings s = hide_warnings t \<longrightarrow>
        fst (f s) = fst (g t) \<and> hide_warnings (snd (f s)) = hide_warnings (snd (g t)))"

text \<open>
  A phase that leaves the reindexing marker and fReindex alone and only adds events.
\<close>

definition keeps_marker :: "Phase \<Rightarrow> bool" where
  "keeps_marker f =
     (\<forall>st. disk_reindexing (snd (f st)) = disk_reindexing st \<and>
           fReindex (snd (f st)) = fReindex st \<and>
           (\<exists>es. events (snd (f st)) = events st @ es \<and> WriteReindexing False \<notin> set es))"

text \<open>A phase that only adds events to those there are.\<close>

definition appends :: "Phase \<Rightarrow> bool" where
  "appends f = (\<forall>st. \<exists>es. events (snd (f st)) = events st @ es)"

text \<open>The events that a run added to those of the state it started from.\<close>

definition new_events :: "Globals \<Rightarrow> Globals \<Rightarrow> Event list" where
  "new_events before after = drop (length (events before)) (events after)"

text \<open>The way out of the scope of CImportingNow: its destructor clears fImporting.\<close>

definition leave :: "Exit option \<times> Globals \<Rightarrow> Exit option \<times> Globals" where
  "leave r = (fst r, (snd r)\<lparr> fImporting := False \<rparr>)"

section \<open>The chain state load (AppInitMain, step 7b, lines 1948 to 2169)\<close>

text \<open>The configuration the load reads: arguments and globals set in earlier steps.\<close>

record LoadConfig =
  fReindexChainState :: bool
  fPruneMode :: bool
  disablegovernance :: bool
  txindex_enabled :: bool
  regtest :: bool
  devnet :: bool
  addressindex :: bool
  timestampindex :: bool
  spentindex :: bool

text \<open>
  The try block catches every std::exception. The model lets one be raised where a store
  is opened, where the block index is loaded and where the database is verified.
\<close>

datatype Throw =
  NoThrow | ThrowOpenBlockTree | ThrowOpenEvoDB | ThrowLoadBlockIndex | ThrowInitCoinsDB | ThrowVerifyDB

text \<open>
  What one pass through the loop body reads from outside: the answers of the callees
  (validation, the databases, the user), the globals that LoadBlockIndex sets from the
  block tree store (fAddressIndex, fTimestampIndex, fSpentIndex, fHavePruned, and
  fReindex: \<open>loaded_fReindex\<close> is the value it leaves there), and the moments at which
  a shutdown request arrives (\<open>sig_...\<close>).
\<close>

record AttemptEnv =
  sig_at_head :: bool
  throws :: Throw
  sig_before_load :: bool
  load_block_index_ok :: bool
  loaded_fReindex :: bool
  sig_during_load :: bool
  fAddressIndex :: bool
  fTimestampIndex :: bool
  fSpentIndex :: bool
  fHavePruned :: bool
  block_index_empty :: bool
  has_genesis :: bool
  has_devnet_genesis :: bool
  load_genesis_ok :: bool
  upgrade_ok :: bool
  replay_blocks_ok :: bool
  commit_evodb_ok :: bool
  best_block_null :: bool
  load_chain_tip_ok :: bool
  evodb_empty :: bool
  upgrade_evodb_ok :: bool
  tip_from_future :: bool
  verify_db_ok :: bool
  sig_after :: bool
  user_accepts :: bool

text \<open>The errors that AppInitMain returns through InitError during the load.\<close>

datatype InitErr =
    ErrTxIndexGovernance
  | ErrWrongGenesis
  | ErrWrongDevnetGenesis
  | ErrLoad LoadError

text \<open>
  How the body \<open>do { ... } while (false)\<close> ends: fLoaded set, a \<open>break\<close> with the value
  of strLoadError, or a \<open>return InitError(...)\<close>.
\<close>

datatype AttemptResult = Loaded | Broke LoadError | Returned InitErr

text \<open>The texts of the four errors that ask for a rebuild (lines 2016 to 2035).\<close>

fun rebuild_message :: "LoadError \<Rightarrow> string option" where
  "rebuild_message ErrRebuildAddressIndex =
     Some ''You need to rebuild the database using -reindex to change -addressindex''"
| "rebuild_message ErrRebuildTimestampIndex =
     Some ''You need to rebuild the database using -reindex to change -timestampindex''"
| "rebuild_message ErrRebuildSpentIndex =
     Some ''You need to rebuild the database using -reindex to change -spentindex''"
| "rebuild_message ErrRebuildUnpruned =
     Some ''You need to rebuild the database using -reindex to go back to unpruned mode.  This will redownload the entire blockchain''"
| "rebuild_message e = None"

definition rebuild_required :: "LoadError \<Rightarrow> bool" where
  "rebuild_required e = (rebuild_message e \<noteq> None)"

text \<open>A shutdown request that arrives sets the flag; only AbortShutdown clears it.\<close>

definition arrives :: "bool \<Rightarrow> Globals \<Rightarrow> Globals" where
  "arrives sig st = st\<lparr> fRequestShutdown := fRequestShutdown st \<or> sig \<rparr>"

text \<open>
  Lines 1962 to 1985: the stores are closed and opened again, wiped when fReset holds. A
  wiped block tree store holds no reindexing marker; with fReset the marker is then
  written into the new store. \<open>None\<close> when opening raised an exception.
\<close>

definition open_stores :: "LoadConfig \<Rightarrow> AttemptEnv \<Rightarrow> bool \<Rightarrow> Globals \<Rightarrow> Globals option \<times> Globals" where
  "open_stores cfg env fReset st =
    (let st = emit [MakeChainState] st
     in if throws env = ThrowOpenBlockTree then (None, st)
        else
         (let st = (emit [OpenBlockTreeDB fReset] st)
                     \<lparr> disk_reindexing := (if fReset then False else disk_reindexing st) \<rparr>
          in if throws env = ThrowOpenEvoDB then (None, st)
             else
              (let wipe = (fReset \<or> fReindexChainState cfg);
                   st = emit [OpenEvoDB wipe, InitLLMQSystem wipe] st;
                   st = (if fReset
                         then (emit (WriteReindexing True
                                      # (if fPruneMode cfg then [CleanupBlockRevFiles] else [])) st)
                                \<lparr> disk_reindexing := True \<rparr>
                         else st)
               in (Some st, st))))"

text \<open>
  Lines 1987 to 2037: LoadBlockIndex and the checks of what it loaded. LoadBlockIndex is
  not among the sources. The comment at line 1991 says that it also sets fReindex; how
  is not visible here, so the value it leaves is read from outside, like its result.
  \<open>Inl\<close> ends the body.
\<close>

definition load_block_index :: "LoadConfig \<Rightarrow> AttemptEnv \<Rightarrow> Globals \<Rightarrow> (AttemptResult + unit) \<times> Globals" where
  "load_block_index cfg env st =
    (let st = arrives (sig_before_load env) st
     in if fRequestShutdown st then (Inl (Broke ErrNone), st)
        else if throws env = ThrowLoadBlockIndex
        then (Inl (Broke ErrOpeningBlockDB),
              (emit [LoadBlockIndex] st)\<lparr> fReindex := loaded_fReindex env \<rparr>)
        else
         (let st = (arrives (sig_during_load env) (emit [LoadBlockIndex] st))
                     \<lparr> fReindex := loaded_fReindex env \<rparr>
          in if \<not> load_block_index_ok env
             then (if fRequestShutdown st then (Inl (Broke ErrNone), st)
                   else (Inl (Broke ErrLoadingBlockDB), st))
             else
              (if \<not> disablegovernance cfg \<and> \<not> txindex_enabled cfg \<and> \<not> regtest cfg
                  then (Inl (Returned ErrTxIndexGovernance), st)
                  else if \<not> block_index_empty env \<and> \<not> has_genesis env
                  then (Inl (Returned ErrWrongGenesis), st)
                  else if devnet cfg \<and> \<not> block_index_empty env \<and> \<not> has_devnet_genesis env
                  then (Inl (Returned ErrWrongDevnetGenesis), st)
                  else if fAddressIndex env \<noteq> addressindex cfg
                  then (Inl (Broke ErrRebuildAddressIndex), st)
                  else if fTimestampIndex env \<noteq> timestampindex cfg
                  then (Inl (Broke ErrRebuildTimestampIndex), st)
                  else if fSpentIndex env \<noteq> spentindex cfg
                  then (Inl (Broke ErrRebuildSpentIndex), st)
                  else if fHavePruned env \<and> \<not> fPruneMode cfg
                  then (Inl (Broke ErrRebuildUnpruned), st)
                  else (Inr (), st))))"

text \<open>Lines 2039 to 2139: genesis, the coin database, the evo database, verification.\<close>

definition load_chainstate :: "LoadConfig \<Rightarrow> AttemptEnv \<Rightarrow> bool \<Rightarrow> Globals \<Rightarrow> AttemptResult \<times> Globals" where
  "load_chainstate cfg env fReset st =
    (let st = (if \<not> fReindex st then emit [LoadGenesisBlock] st else st)
     in if \<not> fReindex st \<and> \<not> load_genesis_ok env then (Broke ErrInitBlockDB, st)
        else if throws env = ThrowInitCoinsDB then (Broke ErrOpeningBlockDB, st)
        else
         (let st = emit [InitCoinsDB (fReset \<or> fReindexChainState cfg)] st;
              is_coinsview_empty = (fReset \<or> fReindexChainState cfg \<or> best_block_null env)
          in if \<not> upgrade_ok env then (Broke ErrUpgradingChainstate, st)
             else if \<not> replay_blocks_ok env then (Broke ErrReplayBlocks, st)
             else if \<not> commit_evodb_ok env then (Broke ErrCommitEvoDB, st)
             else if \<not> is_coinsview_empty \<and> \<not> load_chain_tip_ok env then (Broke ErrInitBlockDB, st)
             else if is_coinsview_empty \<and> \<not> evodb_empty env then (Broke ErrInitBlockDB, st)
             else if \<not> upgrade_evodb_ok env then (Broke ErrUpgradingEvoDB, st)
             else if is_coinsview_empty then (Loaded, st)
             else if tip_from_future env then (Broke ErrBlockFromFuture, st)
             else if throws env = ThrowVerifyDB then (Broke ErrOpeningBlockDB, emit [VerifyDB] st)
             else if \<not> verify_db_ok env then (Broke ErrCorruptedBlockDB, emit [VerifyDB] st)
             else (Loaded, emit [VerifyDB] st)))"

text \<open>The body of the loop: lines 1956 to 2141.\<close>

definition LoadAttempt :: "LoadConfig \<Rightarrow> AttemptEnv \<Rightarrow> bool \<Rightarrow> Globals \<Rightarrow> AttemptResult \<times> Globals" where
  "LoadAttempt cfg env fReset st =
    (case open_stores cfg env fReset st of
       (None, st) \<Rightarrow> (Broke ErrOpeningBlockDB, st)
     | (Some _, st) \<Rightarrow>
         (case load_block_index cfg env st of
            (Inl r, st) \<Rightarrow> (r, st)
          | (Inr _, st) \<Rightarrow> load_chainstate cfg env fReset st))"

text \<open>How this part of AppInitMain ends.\<close>

datatype LoadOutcome =
    Proceed
  | ShutdownExit
  | RebuildDeclined
  | InitError InitErr

text \<open>
  Lines 1950 to 2169: the loop \<open>while (!fLoaded && !ShutdownRequested())\<close> and the check
  after it. \<open>envs i\<close> is what pass number \<open>i\<close> reads from outside. The loop is entered
  again only after the user accepted the rebuild, with fReindex set: that is the measure
  of its termination.
\<close>

function load_loop :: "LoadConfig \<Rightarrow> (nat \<Rightarrow> AttemptEnv) \<Rightarrow> nat \<Rightarrow> Globals \<Rightarrow> LoadOutcome \<times> Globals" where
  "load_loop cfg envs i st =
    (let st = arrives (sig_at_head (envs i)) st
     in if fRequestShutdown st then (ShutdownExit, st)
        else
         (let fReset = fReindex st
          in case LoadAttempt cfg (envs i) fReset st of
               (Returned e, st) \<Rightarrow> (InitError e, st)
             | (Loaded, st) \<Rightarrow>
                 (let st = arrives (sig_after (envs i)) st
                  in if fRequestShutdown st then (ShutdownExit, st) else (Proceed, st))
             | (Broke e, st) \<Rightarrow>
                 (let st = arrives (sig_after (envs i)) st
                  in if fRequestShutdown st then (ShutdownExit, st)
                     else if fReset then (InitError (ErrLoad e), st)
                     else
                      (let st = emit [ThreadSafeQuestion e] st
                       in if user_accepts (envs i)
                          then load_loop cfg envs (i + 1)
                                 ((emit [AbortShutdown] st)
                                    \<lparr> fReindex := True, fRequestShutdown := False \<rparr>)
                          else (RebuildDeclined, st)))))"
  by pat_completeness auto
termination
  by (relation "measure (\<lambda>(cfg, envs, i, st). if fReindex st \<or> fRequestShutdown st then 0 else 1)")
     (auto simp add: arrives_def)

text \<open>The equation of the loop is unfolded by hand, one pass at a time.\<close>

declare load_loop.simps [simp del]

text \<open>A persisted flag differs from the requested one, or blocks were pruned and pruning is off.\<close>

definition flag_mismatch :: "LoadConfig \<Rightarrow> AttemptEnv \<Rightarrow> bool" where
  "flag_mismatch cfg env =
     (fAddressIndex env \<noteq> addressindex cfg \<or> fTimestampIndex env \<noteq> timestampindex cfg \<or>
      fSpentIndex env \<noteq> spentindex cfg \<or> (fHavePruned env \<and> \<not> fPruneMode cfg))"

text \<open>The load gets as far as the comparison of the flags (line 2014).\<close>

definition reaches_flag_check :: "LoadConfig \<Rightarrow> AttemptEnv \<Rightarrow> Globals \<Rightarrow> bool" where
  "reaches_flag_check cfg env st =
     (throws env = NoThrow \<and> \<not> fRequestShutdown st \<and> \<not> sig_before_load env \<and>
      load_block_index_ok env \<and>
      (disablegovernance cfg \<or> txindex_enabled cfg \<or> regtest cfg) \<and>
      (block_index_empty env \<or> has_genesis env) \<and>
      (\<not> devnet cfg \<or> block_index_empty env \<or> has_devnet_genesis env))"

fun is_question :: "Event \<Rightarrow> bool" where
  "is_question (ThreadSafeQuestion e) = True"
| "is_question e = False"

definition questions :: "Globals \<Rightarrow> nat" where
  "questions st = length (filter is_question (events st))"

definition attempts :: "Globals \<Rightarrow> nat" where
  "attempts st = length (filter (\<lambda>e. e = MakeChainState) (events st))"

text \<open>A configuration and a pass in which everything succeeds, for examples.\<close>

definition plain_config :: LoadConfig where
  "plain_config = \<lparr> fReindexChainState = False, fPruneMode = False, disablegovernance = False,
     txindex_enabled = True, regtest = False, devnet = False, addressindex = False,
     timestampindex = False, spentindex = False \<rparr>"

definition good_pass :: AttemptEnv where
  "good_pass = \<lparr> sig_at_head = False, throws = NoThrow, sig_before_load = False,
     load_block_index_ok = True, loaded_fReindex = False, sig_during_load = False,
     fAddressIndex = False,
     fTimestampIndex = False, fSpentIndex = False, fHavePruned = False,
     block_index_empty = False, has_genesis = True, has_devnet_genesis = False,
     load_genesis_ok = True, upgrade_ok = True, replay_blocks_ok = True,
     commit_evodb_ok = True, best_block_null = False, load_chain_tip_ok = True,
     evodb_empty = False, upgrade_evodb_ok = True, tip_from_future = False,
     verify_db_ok = True, sig_after = False, user_accepts = False \<rparr>"

definition load_start :: Globals where
  "load_start = \<lparr> fReindex = False, disk_reindexing = False, fRequestShutdown = False,
     fImporting = False, mempool_loaded = False, events = [] \<rparr>"

text \<open>
  Passes for examples: a changed -addressindex, a corrupted database, and stores that
  were wiped for a reindex (LoadBlockIndex then leaves fReindex set).
\<close>

definition mismatch_pass :: AttemptEnv where
  "mismatch_pass = good_pass\<lparr> fAddressIndex := True, user_accepts := True \<rparr>"

definition corrupted_pass :: AttemptEnv where
  "corrupted_pass = good_pass\<lparr> verify_db_ok := False, user_accepts := True \<rparr>"

definition fresh_pass :: AttemptEnv where
  "fresh_pass = good_pass\<lparr> loaded_fReindex := True, block_index_empty := True,
                            has_genesis := False, best_block_null := True,
                            evodb_empty := True \<rparr>"

definition rebuild_accepted :: "nat \<Rightarrow> AttemptEnv" where
  "rebuild_accepted i = (if i = 0 then mismatch_pass else fresh_pass)"

definition rebuild_failing :: "nat \<Rightarrow> AttemptEnv" where
  "rebuild_failing i =
     (if i = 0 then corrupted_pass else fresh_pass\<lparr> load_block_index_ok := False \<rparr>)"

text \<open>A corrupted database, and a shutdown request that arrives while it is verified.\<close>

definition shutdown_pending :: "nat \<Rightarrow> AttemptEnv" where
  "shutdown_pending i = good_pass\<lparr> verify_db_ok := False, sig_after := True, user_accepts := True \<rparr>"

section \<open>Teardown (PrepareShutdown)\<close>

text \<open>
  The globals of init.cpp that hold an object and that PrepareShutdown tests, resets or
  deletes, by their names in the source (\<open>activeMasternodeMgr\<close> is
  activeMasternodeManager).
\<close>

datatype Object =
    peerLogic
  | g_connman
  | g_banman
  | g_txindex
  | g_chainstate
  | pblocktree
  | quorumSnapshotManager
  | deterministicMNManager
  | evoDb
  | g_zmq_notification_interface
  | pdsNotificationInterface
  | activeMasternodeMgr
  | blsKeyOperator
  | blsPubKeyOperator

text \<open>The lines that PrepareShutdown logs.\<close>

datatype TeardownLog =
    LogInProgress
  | LogFeeEstimatesFailed
  | LogPidFileMissing
  | LogPidFileError

text \<open>
  What PrepareShutdown does outside this file, in the order in which it does it: the
  calls of its callees, and the objects that are destroyed (\<open>Destroyed\<close>: by reset()
  of a pointer that holds one, or by delete).
\<close>

datatype Call =
    Printed TeardownLog
  | ThreadRename
  | AddTransactionsUpdated nat
  | StopHTTPRPC
  | StopREST
  | StopRPC
  | StopHTTPServer
  | StopLLMQSystem
  | ClientFlush nat
  | StopMapPort
  | UnregisterValidationInterface Object
  | Stop Object
  | FilterIndexStop nat
  | StopTorControl
  | SchedulerStop
  | InterruptAll
  | JoinAll
  | StopScriptCheckWorkerThreads
  | FlushBackgroundCallbacks
  | Dump string
  | Destroyed Object
  | DestroyAllBlockFilterIndexes
  | DumpMempool
  | FlushUnconfirmed
  | WriteFeeEstimates
  | ForceFlushStateToDisk
  | ResetCoinsViews
  | DestroyLLMQSystem
  | ClientStop nat
  | RemovePidFile
  | UnregisterAllValidationInterfaces
  | UnregisterBackgroundSignalScheduler
  | UnregisterWithMempoolSignals

text \<open>
  The state that PrepareShutdown works on: \<open>nTransactionsUpdated\<close> is the counter of
  updates of the memory pool; \<open>live\<close> is the set of the globals that hold an object; \<open>mmetaman\<close>, \<open>netfulfilledman\<close>, \<open>sporkManager\<close> and \<open>governance\<close> are the
  contents of the caches in memory; \<open>snapshots\<close> are the contents of the snapshot files
  of the caches on disk, by file name.
\<close>

record Node =
  nTransactionsUpdated :: nat
  chain_clients :: "nat list"
  live :: "Object set"
  block_filter_indexes :: "nat list"
  mmetaman :: nat
  netfulfilledman :: nat
  sporkManager :: nat
  governance :: nat
  snapshots :: "string \<rightharpoonup> nat"
  mempool_IsLoaded :: bool
  fFeeEstimatesInitialized :: bool
  pid_file :: bool
  calls :: "Call list"

text \<open>
  What one call of PrepareShutdown reads from outside: the result of TRY_LOCK, the answer
  of RPCIsInWarmup at line 232, the configuration (fDisableGovernance, -persistmempool,
  fMasternodeMode, the macros ENABLE_ZMQ and WIN32) and the answers of the callees.
  CTxMemPool is not among the sources: \<open>mempool_add n c\<close> is what
  mempool.AddTransactionsUpdated(n) makes of the counter \<open>c\<close>.
\<close>

record TeardownEnv =
  lockShutdown :: bool
  mempool_add :: "nat \<Rightarrow> nat \<Rightarrow> nat"
  RPCIsInWarmup :: bool
  fDisableGovernance :: bool
  persistmempool_arg :: bool
  CanFlushToDisk :: bool
  est_fileout_IsNull :: bool
  ENABLE_ZMQ :: bool
  fMasternodeMode_set :: bool
  WIN32 :: bool
  remove_throws :: bool

definition call :: "Call list \<Rightarrow> Node \<Rightarrow> Node" where
  "call cs st = st\<lparr> calls := calls st @ cs \<rparr>"

text \<open>\<open>p.reset()\<close> and \<open>delete p; p = nullptr\<close>: the object is destroyed if there is one.\<close>

definition reset :: "Object \<Rightarrow> Node \<Rightarrow> Node" where
  "reset p st = (if p \<in> live st then (call [Destroyed p] st)\<lparr> live := live st - {p} \<rparr> else st)"

text \<open>
  Modelled from the spec: CFlatDB is not among the sources. By the spec this step
  persists the cache in memory to its snapshot file on disk: after \<open>Dump\<close> the file holds
  the contents of the cache.
\<close>

definition flatdb_Dump :: "string \<Rightarrow> nat \<Rightarrow> Node \<Rightarrow> Node" where
  "flatdb_Dump file cache st = (call [Dump file] st)\<lparr> snapshots := (snapshots st)(file \<mapsto> cache) \<rparr>"

text \<open>Lines 221 to 227.\<close>

definition stop_services :: "TeardownEnv \<Rightarrow> Node \<Rightarrow> Node" where
  "stop_services env st =
    (let st = (call [ThreadRename, AddTransactionsUpdated 1] st)
                \<lparr> nTransactionsUpdated := mempool_add env 1 (nTransactionsUpdated st) \<rparr>
     in call [StopHTTPRPC, StopREST, StopRPC, StopHTTPServer, StopLLMQSystem] st)"

text \<open>Lines 234 to 257.\<close>

definition stop_network :: "Node \<Rightarrow> Node" where
  "stop_network st =
    (let st = call (map ClientFlush (chain_clients st) @ [StopMapPort]) st;
         st = (if peerLogic \<in> live st then call [UnregisterValidationInterface peerLogic] st else st);
         st = (if g_connman \<in> live st then call [Stop g_connman] st else st);
         st = (if g_txindex \<in> live st then call [Stop g_txindex] st else st);
         st = call (map FilterIndexStop (block_filter_indexes st)) st
     in call [StopTorControl, SchedulerStop, InterruptAll, JoinAll, StopScriptCheckWorkerThreads,
              FlushBackgroundCallbacks] st)"

text \<open>Lines 261 to 270, the body of \<open>if (!fRPCInWarmup)\<close>.\<close>

definition dump_caches :: "TeardownEnv \<Rightarrow> Node \<Rightarrow> Node" where
  "dump_caches env st =
    (let st = flatdb_Dump ''mncache.dat'' (mmetaman st) st;
         st = flatdb_Dump ''netfulfilled.dat'' (netfulfilledman st) st;
         st = flatdb_Dump ''sporks.dat'' (sporkManager st) st
     in if \<not> fDisableGovernance env then flatdb_Dump ''governance.dat'' (governance st) st
        else st)"

text \<open>Lines 275 to 295.\<close>

definition reset_network :: "TeardownEnv \<Rightarrow> Node \<Rightarrow> Node" where
  "reset_network env st =
    (let st = reset peerLogic st;
         st = reset g_connman st;
         st = reset g_banman st;
         st = reset g_txindex st;
         st = (call [DestroyAllBlockFilterIndexes] st)\<lparr> block_filter_indexes := [] \<rparr>;
         st = (if mempool_IsLoaded st \<and> persistmempool_arg env then call [DumpMempool] st else st)
     in if fFeeEstimatesInitialized st
        then (call [FlushUnconfirmed,
                    if \<not> est_fileout_IsNull env then WriteFeeEstimates
                    else Printed LogFeeEstimatesFailed] st)
               \<lparr> fFeeEstimatesInitialized := False \<rparr>
        else st)"

text \<open>Lines 301 to 332.\<close>

definition flush_and_destroy :: "TeardownEnv \<Rightarrow> Node \<Rightarrow> Node" where
  "flush_and_destroy env st =
    (let st = (if g_chainstate \<in> live st \<and> CanFlushToDisk env
               then call [ForceFlushStateToDisk] st else st);
         st = call [FlushBackgroundCallbacks] st;
         st = (if g_chainstate \<in> live st \<and> CanFlushToDisk env
               then call [ForceFlushStateToDisk, ResetCoinsViews] st else st);
         st = reset pblocktree st;
         st = call [DestroyLLMQSystem] st;
         st = reset quorumSnapshotManager st;
         st = reset deterministicMNManager st;
         st = reset evoDb st
     in call (map ClientStop (chain_clients st)) st)"

text \<open>Lines 334 to 356.\<close>

definition unregister_interfaces :: "TeardownEnv \<Rightarrow> Node \<Rightarrow> Node" where
  "unregister_interfaces env st =
    (let st = (if ENABLE_ZMQ env \<and> g_zmq_notification_interface \<in> live st
               then reset g_zmq_notification_interface
                      (call [UnregisterValidationInterface g_zmq_notification_interface] st)
               else st);
         st = (if pdsNotificationInterface \<in> live st
               then reset pdsNotificationInterface
                      (call [UnregisterValidationInterface pdsNotificationInterface] st)
               else st);
         st = (if fMasternodeMode_set env
               then call [UnregisterValidationInterface activeMasternodeMgr] st else st);
         st = reset blsKeyOperator st
     in reset blsPubKeyOperator st)"

text \<open>Lines 358 to 370.\<close>

definition remove_pid_and_unregister :: "TeardownEnv \<Rightarrow> Node \<Rightarrow> Node" where
  "remove_pid_and_unregister env st =
    (let st = (if WIN32 env then st
               else if remove_throws env then call [RemovePidFile, Printed LogPidFileError] st
               else if pid_file st then (call [RemovePidFile] st)\<lparr> pid_file := False \<rparr>
               else call [RemovePidFile, Printed LogPidFileMissing] st);
         st = st\<lparr> chain_clients := [] \<rparr>
     in call [UnregisterAllValidationInterfaces, UnregisterBackgroundSignalScheduler,
              UnregisterWithMempoolSignals] st)"

text \<open>
  Lines 209 to 371. \<open>fRPCInWarmup\<close> is the local variable of line 232: it is read
  before the network and the threads are stopped and tested at line 259.
\<close>

definition PrepareShutdown :: "TeardownEnv \<Rightarrow> Node \<Rightarrow> Node" where
  "PrepareShutdown env st =
    (let st = call [Printed LogInProgress] st
     in if \<not> lockShutdown env then st
        else
         (let st = stop_services env st;
              fRPCInWarmup = RPCIsInWarmup env;
              st = stop_network st;
              st = (if \<not> fRPCInWarmup then dump_caches env st else st);
              st = reset_network env st;
              st = flush_and_destroy env st;
              st = unregister_interfaces env st
          in remove_pid_and_unregister env st))"

text \<open>The snapshot files that a list of calls writes, in order.\<close>

fun dumped :: "Call list \<Rightarrow> string list" where
  "dumped [] = []"
| "dumped (Dump file # cs) = file # dumped cs"
| "dumped (c # cs) = dumped cs"

text \<open>The calls that a run added to those of the state it started from.\<close>

definition new_calls :: "Node \<Rightarrow> Node \<Rightarrow> Call list" where
  "new_calls before after = drop (length (calls before)) (calls after)"

text \<open>
  A node that is fully started, and a call of PrepareShutdown on it, for examples; in
  them AddTransactionsUpdated(n) adds n to the counter.
\<close>

definition started_node :: Node where
  "started_node = \<lparr> nTransactionsUpdated = 0, chain_clients = [0], live = {peerLogic, g_connman, g_banman, g_chainstate,
       pblocktree, quorumSnapshotManager, deterministicMNManager, evoDb, pdsNotificationInterface},
     block_filter_indexes = [], mmetaman = 11, netfulfilledman = 12, sporkManager = 13,
     governance = 14,
     snapshots = [''mncache.dat'' \<mapsto> 1, ''netfulfilled.dat'' \<mapsto> 2, ''sporks.dat'' \<mapsto> 3,
                  ''governance.dat'' \<mapsto> 4],
     mempool_IsLoaded = True, fFeeEstimatesInitialized = True, pid_file = True, calls = [] \<rparr>"

definition plain_teardown :: TeardownEnv where
  "plain_teardown = \<lparr> lockShutdown = True, mempool_add = (\<lambda>n c. c + n), RPCIsInWarmup = False, fDisableGovernance = False,
     persistmempool_arg = True, CanFlushToDisk = True, est_fileout_IsNull = False,
     ENABLE_ZMQ = True, fMasternodeMode_set = False, WIN32 = False, remove_throws = False \<rparr>"

text \<open>
  A step that leaves the caches and their snapshot files alone: it only adds calls, none
  of them a \<open>Dump\<close>.
\<close>

definition leaves_snapshots :: "(Node \<Rightarrow> Node) \<Rightarrow> bool" where
  "leaves_snapshots f =
     (\<forall>st. (\<exists>cs. calls (f st) = calls st @ cs \<and> dumped cs = [])
         \<and> snapshots (f st) = snapshots st
         \<and> mmetaman (f st) = mmetaman st \<and> netfulfilledman (f st) = netfulfilledman st
         \<and> sporkManager (f st) = sporkManager st \<and> governance (f st) = governance st)"





text \<open>A state without the record of the calls and without the counter of updates.\<close>

definition settled :: "Node \<Rightarrow> Node" where
  "settled st = st\<lparr> calls := [], nTransactionsUpdated := 0 \<rparr>"

section \<open>Properties of the cache budget\<close>

lemma div8_le: "(0::int) \<le> x \<Longrightarrow> x div 8 \<le> x"
  using zdiv_mono2 [of x 1 8] by simp

lemma div2_le: "(0::int) \<le> x \<Longrightarrow> x div 2 \<le> x"
  using zdiv_mono2 [of x 1 2] by simp

lemma div4_le_div2: "(0::int) \<le> x \<Longrightarrow> x div 4 \<le> x div 2"
  by (rule zdiv_mono2) simp_all

lemma div_nat_bounds:
  fixes x :: int
  assumes "0 \<le> x" "0 < n"
  shows "0 \<le> x div int n \<and> (x div int n) * int n \<le> x \<and> x div int n \<le> x"
proof -
  have p: "0 < int n" using assms by simp
  have a: "0 \<le> x div int n" using assms by (simp add: pos_imp_zdiv_nonneg_iff)
  have e: "x div int n * int n + x mod int n = x" by (rule div_mult_mod_eq)
  have m: "0 \<le> x mod int n" using p by (rule pos_mod_sign)
  have b: "(x div int n) * int n \<le> x" using e m by linarith
  have "x div int n * 1 \<le> x div int n * int n"
    using a p by (intro mult_left_mono) auto
  then have c: "x div int n \<le> x" using b by simp
  show ?thesis using a b c by simp
qed

text \<open>One stage of the waterfall: a share \<open>min q cap\<close> with \<open>0 \<le> q \<le> t\<close>.\<close>

lemma stage_bounds:
  fixes t q cap :: int
  assumes "0 \<le> q" "q \<le> t" "0 \<le> cap"
  shows "0 \<le> min q cap \<and> min q cap \<le> cap \<and> 0 \<le> t - min q cap \<and> min q cap \<le> q"
  using assms by (auto simp: min_def)

lemma quarter_or_cap:
  fixes a b c k :: int
  assumes "a \<le> b" "0 \<le> k"
  shows "a \<le> min (min b (a + k)) c \<or> min (min b (a + k)) c = c"
  using assms by (auto simp: min_def)

lemma coindb_bounds:
  fixes h q cap t k :: int
  assumes "0 \<le> q" "q \<le> h" "h \<le> t" "0 \<le> cap" "0 \<le> k"
  shows "0 \<le> min (min h (q + k)) cap \<and> min (min h (q + k)) cap \<le> h
       \<and> min (min h (q + k)) cap \<le> cap \<and> 0 \<le> t - min (min h (q + k)) cap"
  using assms by (auto simp: min_def)

text \<open>
  Claim C3, as amended. For every -dbcache value within the documented minimum and maximum,
  the budget follows the waterfall of the source, which has three pools and not two: the
  block index cache is \<open>min (total / 8) cap\<close>; the transaction index, when enabled,
  takes \<open>min (rest / 8) cap\<close> of what is left, and nothing when disabled; the block
  filter indexes then split a third pool \<open>min (rest / 8) cap\<close> of what is left after
  that evenly; the coin database takes
  between a quarter and a half of what is left, unless its cap is lower; the in-memory coin
  cache takes the rest. The partitions add up to the configured total, none is negative and
  none exceeds its cap, and the total fits an int64.
\<close>

theorem cache_budget_waterfall:
  assumes "limits_ok L" and "nMinDbCache L \<le> dbcache" and "dbcache \<le> nMaxDbCache L"
  shows "let total = total_cache L dbcache;
             b = cache_budget L txindex n total;
             t1 = total - nBlockTreeDBCache b;
             t2 = t1 - nTxIndexCache b;
             t3 = t2 - int n * filter_index_cache b
         in total = shl20 dbcache
          \<and> nBlockTreeDBCache b = min (total div 8) (shl20 (nMaxBlockDBCache L))
          \<and> nTxIndexCache b = min (t1 div 8) (if txindex then shl20 (nMaxTxIndexCache L) else 0)
          \<and> filter_index_cache b =
               (if n = 0 then 0 else min (t2 div 8) (shl20 (max_filter_index_cache L)) div int n)
          \<and> nCoinDBCache b = min (min (t3 div 2) (t3 div 4 + 2 ^ 23)) (shl20 (nMaxCoinsDBCache L))
          \<and> nCoinDBCache b \<le> t3 div 2
          \<and> (t3 div 4 \<le> nCoinDBCache b \<or> nCoinDBCache b = shl20 (nMaxCoinsDBCache L))
          \<and> nCoinCacheUsage b = t3 - nCoinDBCache b
          \<and> nBlockTreeDBCache b + nTxIndexCache b + int n * filter_index_cache b
                + nCoinDBCache b + nCoinCacheUsage b = total
          \<and> 0 \<le> nBlockTreeDBCache b \<and> 0 \<le> nTxIndexCache b \<and> 0 \<le> filter_index_cache b
          \<and> 0 \<le> nCoinDBCache b \<and> 0 \<le> nCoinCacheUsage b
          \<and> nBlockTreeDBCache b \<le> shl20 (nMaxBlockDBCache L)
          \<and> nTxIndexCache b \<le> shl20 (nMaxTxIndexCache L)
          \<and> filter_index_cache b \<le> shl20 (max_filter_index_cache L)
          \<and> nCoinDBCache b \<le> shl20 (nMaxCoinsDBCache L)
          \<and> fits_int64 total"
proof -
  define total where "total = total_cache L dbcache"
  define blocktree where "blocktree = min (total div 8) (shl20 (nMaxBlockDBCache L))"
  define t1 where "t1 = total - blocktree"
  define txcap where "txcap = (if txindex then shl20 (nMaxTxIndexCache L) else 0)"
  define tx where "tx = min (t1 div 8) txcap"
  define t2 where "t2 = t1 - tx"
  define max_cache where "max_cache = min (t2 div 8) (shl20 (max_filter_index_cache L))"
  define filt where "filt = (if n = 0 then 0 else max_cache div int n)"
  define t3 where "t3 = t2 - int n * filt"
  define coindb where "coindb = min (min (t3 div 2) (t3 div 4 + 2 ^ 23)) (shl20 (nMaxCoinsDBCache L))"
  have lim: "0 \<le> nMinDbCache L" "nMaxDbCache L < 2 ^ 43"
    "0 \<le> nMaxBlockDBCache L" "0 \<le> nMaxTxIndexCache L" "0 \<le> max_filter_index_cache L"
    "0 \<le> nMaxCoinsDBCache L"
    using assms(1) by (simp_all add: limits_ok_def)
  have caps: "0 \<le> shl20 (nMaxBlockDBCache L)" "0 \<le> shl20 (nMaxTxIndexCache L)"
     "0 \<le> shl20 (max_filter_index_cache L)" "0 \<le> shl20 (nMaxCoinsDBCache L)"
    using lim by (simp_all add: shl20_def)
  have txcap: "0 \<le> txcap" "txcap \<le> shl20 (nMaxTxIndexCache L)"
    using caps(2) by (simp_all add: txcap_def)
  have tot: "total = shl20 dbcache"
    using assms(2,3) by (simp add: total_def total_cache_def shl20_def)
  have tot0: "0 \<le> total" "total < 2 ^ 63"
    using tot assms(2,3) lim by (simp_all add: shl20_def)
  have s1: "0 \<le> blocktree \<and> blocktree \<le> shl20 (nMaxBlockDBCache L) \<and> 0 \<le> t1 \<and> blocktree \<le> total div 8"
    unfolding blocktree_def t1_def using tot0(1) caps(1)
    by (intro stage_bounds div8_le) (simp_all add: pos_imp_zdiv_nonneg_iff)
  have s2: "0 \<le> tx \<and> tx \<le> txcap \<and> 0 \<le> t2 \<and> tx \<le> t1 div 8"
    unfolding tx_def t2_def using s1 txcap(1)
    by (intro stage_bounds div8_le) (simp_all add: pos_imp_zdiv_nonneg_iff)
  have s3: "0 \<le> max_cache \<and> max_cache \<le> shl20 (max_filter_index_cache L) \<and> 0 \<le> t2 - max_cache
       \<and> max_cache \<le> t2 div 8"
    unfolding max_cache_def using s2 caps(3)
    by (intro stage_bounds div8_le) (simp_all add: pos_imp_zdiv_nonneg_iff)
  have f0: "0 \<le> filt \<and> filt * int n \<le> max_cache \<and> filt \<le> max_cache"
  proof (cases "n = 0")
    case True then show ?thesis using s3 by (simp add: filt_def)
  next
    case False
    then show ?thesis using div_nat_bounds [of max_cache n] s3 by (simp add: filt_def)
  qed
  have t3_0: "0 \<le> t3" using f0 s3 unfolding t3_def by (simp add: mult.commute)
  have c0: "0 \<le> coindb \<and> coindb \<le> t3 div 2 \<and> coindb \<le> shl20 (nMaxCoinsDBCache L) \<and> 0 \<le> t3 - coindb"
    unfolding coindb_def using t3_0 caps(4)
    by (intro coindb_bounds div2_le div4_le_div2) (simp_all add: pos_imp_zdiv_nonneg_iff)
  have c0d: "t3 div 4 \<le> coindb \<or> coindb = shl20 (nMaxCoinsDBCache L)"
    unfolding coindb_def
  proof (rule quarter_or_cap)
    show "t3 div 4 \<le> t3 div 2" using t3_0 by (rule div4_le_div2)
    show "(0::int) \<le> 2 ^ 23" by simp
  qed
  have t3': "(if n = 0 then t2 else t2 - filt * int n) = t3"
    by (simp add: t3_def filt_def mult.commute)
  have b: "cache_budget L txindex n total =
     \<lparr> nBlockTreeDBCache = blocktree, nTxIndexCache = tx, filter_index_cache = filt,
       nCoinDBCache = coindb, nCoinCacheUsage = t3 - coindb \<rparr>"
    unfolding cache_budget_def Let_def
    unfolding blocktree_def [symmetric]
    unfolding t1_def [symmetric]
    unfolding txcap_def [symmetric] tx_def [symmetric]
    unfolding t2_def [symmetric]
    unfolding max_cache_def [symmetric]
    unfolding filt_def [symmetric]
    unfolding t3'
    unfolding coindb_def [symmetric]
    by (rule refl)
  have e1: "total - blocktree = t1" by (simp add: t1_def)
  have e2: "t1 - tx = t2" by (simp add: t2_def)
  have e3: "t2 - int n * filt = t3" by (simp add: t3_def)
  have fits: "fits_int64 total" using tot0 by (simp add: fits_int64_def)
  have sum: "blocktree + tx + int n * filt + coindb + (t3 - coindb) = total"
    unfolding t3_def t2_def t1_def by simp
  show ?thesis
    unfolding Let_def total_def [symmetric] b CacheBudget.select_convs e1 e2 e3
    apply (intro conjI)
    subgoal by (rule tot)
    subgoal by (rule blocktree_def)
    subgoal by (simp add: tx_def txcap_def)
    subgoal by (simp add: filt_def max_cache_def)
    subgoal by (rule coindb_def)
    subgoal using c0 by simp
    subgoal by (rule c0d)
    subgoal by (rule refl)
    subgoal by (rule sum)
    subgoal using s1 by simp
    subgoal using s2 by simp
    subgoal using f0 by simp
    subgoal using c0 by simp
    subgoal using c0 by simp
    subgoal using s1 by simp
    subgoal using s2 txcap by simp
    subgoal using f0 s3 by simp
    subgoal using c0 by simp
    subgoal by (rule fits)
    done
qed

theorem cache_budget_waterfall_witness:
  "limits_ok txdb_limits \<and> nMinDbCache txdb_limits \<le> 300 \<and> 300 \<le> nMaxDbCache txdb_limits \<and>
   (let b = cache_budget txdb_limits True 1 (total_cache txdb_limits 300)
    in nBlockTreeDBCache b + nTxIndexCache b + int 1 * filter_index_cache b
         + nCoinDBCache b + nCoinCacheUsage b = total_cache txdb_limits 300
       \<and> nBlockTreeDBCache b \<le> shl20 (nMaxBlockDBCache txdb_limits)
       \<and> nTxIndexCache b \<le> shl20 (nMaxTxIndexCache txdb_limits)
       \<and> filter_index_cache b \<le> shl20 (max_filter_index_cache txdb_limits)
       \<and> nCoinDBCache b \<le> shl20 (nMaxCoinsDBCache txdb_limits))"
proof -
  have h1: "limits_ok txdb_limits" by (simp add: limits_ok_def txdb_limits_def)
  have h2: "nMinDbCache txdb_limits \<le> 300" by (simp add: txdb_limits_def)
  have h3: "300 \<le> nMaxDbCache txdb_limits" by (simp add: txdb_limits_def)
  have w: "let total = total_cache txdb_limits 300;
             b = cache_budget txdb_limits True 1 total
           in nBlockTreeDBCache b + nTxIndexCache b + int 1 * filter_index_cache b
                + nCoinDBCache b + nCoinCacheUsage b = total
          \<and> nBlockTreeDBCache b \<le> shl20 (nMaxBlockDBCache txdb_limits)
          \<and> nTxIndexCache b \<le> shl20 (nMaxTxIndexCache txdb_limits)
          \<and> filter_index_cache b \<le> shl20 (max_filter_index_cache txdb_limits)
          \<and> nCoinDBCache b \<le> shl20 (nMaxCoinsDBCache txdb_limits)"
    using cache_budget_waterfall [OF h1 h2 h3, of True 1] unfolding Let_def by blast
  show ?thesis using h1 h2 h3 w unfolding Let_def by blast
qed

text \<open>
  The claim as first stated has the index caches split one second pool of
  \<open>min (total / 8) cap\<close> evenly. The code has two pools, one after the other. At the
  default configuration (300 MiB, transaction index on, one block filter index, the limits
  of txdb.h) the transaction index gets 39059456 bytes and the block filter index
  34177024: the two index caches are not equal, and together they are larger than an
  eighth of the total, and larger than an eighth of what the block index cache left.
\<close>

theorem cache_budget_even_split_counterexample:
  "cache_budget txdb_limits True 1 (total_cache txdb_limits 300) =
     \<lparr> nBlockTreeDBCache = 2097152, nTxIndexCache = 39059456,
       filter_index_cache = 34177024, nCoinDBCache = 8388608,
       nCoinCacheUsage = 230850560 \<rparr>
   \<and> nTxIndexCache (cache_budget txdb_limits True 1 (total_cache txdb_limits 300))
       \<noteq> filter_index_cache (cache_budget txdb_limits True 1 (total_cache txdb_limits 300))
   \<and> total_cache txdb_limits 300 div 8
       < nTxIndexCache (cache_budget txdb_limits True 1 (total_cache txdb_limits 300))
         + filter_index_cache (cache_budget txdb_limits True 1 (total_cache txdb_limits 300))
   \<and> (total_cache txdb_limits 300
         - nBlockTreeDBCache (cache_budget txdb_limits True 1 (total_cache txdb_limits 300))) div 8
       < nTxIndexCache (cache_budget txdb_limits True 1 (total_cache txdb_limits 300))
         + filter_index_cache (cache_budget txdb_limits True 1 (total_cache txdb_limits 300))"
  by code_simp

section \<open>Properties of parameter interaction\<close>

lemma InterpretBool_1: "InterpretBool ''1''" 
  by (simp add: InterpretBool_def atoi64_def digit_value_def)

lemma InterpretBool_0: "\<not> InterpretBool ''0''"
  by (simp add: InterpretBool_def atoi64_def digit_value_def)

lemma args_soft_set:
  "args (soft_set c n b s st) k =
     (if k = n \<and> args st n = None then Some (if b then ''1'' else ''0'') else args st k)"
  by (simp add: soft_set_def SoftSetBoolArg_def SoftSetArg_def IsArgSet_def ForceSetArg_def)

lemma args_rule_bind:
  "args (rule_bind st) k =
     (if k = ''-listen'' \<and> args st ''-listen'' = None
         \<and> (args st ''-bind'' \<noteq> None \<or> args st ''-whitebind'' \<noteq> None)
      then Some ''1'' else args st k)"
  by (simp add: rule_bind_def guarded_def IsArgSet_def args_soft_set Let_def)

lemma args_rule_connect:
  "args (rule_connect st) k =
     (if args st ''-connect'' \<noteq> None \<and> args st k = None \<and> (k = ''-dnsseed'' \<or> k = ''-listen'')
      then Some ''0'' else args st k)"
  by (simp add: rule_connect_def guarded_def IsArgSet_def args_soft_set) blast

lemma args_rule_proxy:
  "args (rule_proxy st) k =
     (if args st ''-proxy'' \<noteq> None \<and> args st k = None
         \<and> (k = ''-listen'' \<or> k = ''-upnp'' \<or> k = ''-natpmp'' \<or> k = ''-discover'')
      then Some ''0'' else args st k)"
  by (simp add: rule_proxy_def guarded_def IsArgSet_def args_soft_set) blast

lemma args_rule_nolisten:
  "args (rule_nolisten D st) k =
     (if \<not> GetBoolArg (args st) ''-listen'' (DEFAULT_LISTEN D) \<and> args st k = None
         \<and> (k = ''-upnp'' \<or> k = ''-natpmp'' \<or> k = ''-discover'' \<or> k = ''-listenonion'')
      then Some ''0'' else args st k)"
  by (simp add: rule_nolisten_def guarded_def args_soft_set) blast

lemma args_rule_externalip:
  "args (rule_externalip st) k =
     (if args st ''-externalip'' \<noteq> None \<and> args st k = None \<and> k = ''-discover''
      then Some ''0'' else args st k)"
  by (simp add: rule_externalip_def guarded_def IsArgSet_def args_soft_set)

lemma args_rule_relay:
  "args (rule_relay D st) k = args st k \<or> (args st k = None \<and> k = ''-whitelistrelay'')"
  by (simp add: rule_relay_def guarded_def args_soft_set Let_def)

lemma args_rule_prune:
  "args (rule_prune st) k =
     (if GetArg (args st) ''-prune'' 0 > 0 \<and> args st k = None
         \<and> (k = ''-disablegovernance'' \<or> k = ''-txindex'')
      then Some (if k = ''-txindex'' then ''0'' else ''1'') else args st k)"
  by (simp add: rule_prune_def guarded_def args_soft_set) blast

lemma args_rule_checklevel:
  "args (rule_checklevel D st) k = args st k \<or> k = ''-checklevel''"
  by (simp add: rule_checklevel_def ForceSetArg_def Let_def)

lemma args_rule_masternode:
  "args (rule_masternode st) k = args st k \<or> (args st k = None \<and> k = ''-disablewallet'')"
  by (simp add: rule_masternode_def guarded_def args_soft_set IsArgSet_def)

lemma GetBoolArg_1: "m k = Some ''1'' \<Longrightarrow> GetBoolArg m k d"
  by (simp add: GetBoolArg_def InterpretBool_1)

lemma GetBoolArg_0: "m k = Some ''0'' \<Longrightarrow> \<not> GetBoolArg m k d"
  by (simp add: GetBoolArg_def InterpretBool_0)

text \<open>No rule but the forced one changes an option that is set.\<close>

lemma keep_rule_bind: "args st k = Some v \<Longrightarrow> args (rule_bind st) k = Some v"
  by (cases "k = ''-listen''") (simp_all add: args_rule_bind)

lemma keep_rule_connect: "args st k = Some v \<Longrightarrow> args (rule_connect st) k = Some v"
  by (simp add: args_rule_connect)

lemma keep_rule_proxy: "args st k = Some v \<Longrightarrow> args (rule_proxy st) k = Some v"
  by (simp add: args_rule_proxy)

lemma keep_rule_nolisten: "args st k = Some v \<Longrightarrow> args (rule_nolisten D st) k = Some v"
  by (simp add: args_rule_nolisten)

lemma keep_rule_externalip: "args st k = Some v \<Longrightarrow> args (rule_externalip st) k = Some v"
  by (simp add: args_rule_externalip)

lemma keep_rule_relay: "args st k = Some v \<Longrightarrow> args (rule_relay D st) k = Some v"
  using args_rule_relay [of D st k] by auto

lemma keep_rule_prune: "args st k = Some v \<Longrightarrow> args (rule_prune st) k = Some v"
  by (simp add: args_rule_prune)

lemma keep_rule_checklevel:
  "args st k = Some v \<Longrightarrow> k \<noteq> ''-checklevel'' \<Longrightarrow> args (rule_checklevel D st) k = Some v"
  using args_rule_checklevel [of D st k] by auto

lemma keep_rule_masternode: "args st k = Some v \<Longrightarrow> args (rule_masternode st) k = Some v"
  using args_rule_masternode [of st k] by auto

text \<open>The same for the rules that follow a given one.\<close>

lemma keep_after_prune:
  "args st k = Some v \<Longrightarrow> k \<noteq> ''-checklevel'' \<Longrightarrow>
   args ((rule_masternode \<circ> rule_checklevel D) st) k = Some v"
  by (simp add: keep_rule_checklevel keep_rule_masternode)

lemma keep_after_proxy:
  "args st k = Some v \<Longrightarrow> k \<noteq> ''-checklevel'' \<Longrightarrow>
   args ((rule_masternode \<circ> rule_checklevel D \<circ> rule_prune \<circ> rule_relay D \<circ> rule_externalip
          \<circ> rule_nolisten D) st) k = Some v"
  by (simp add: keep_rule_checklevel keep_rule_masternode keep_rule_prune keep_rule_relay
        keep_rule_externalip keep_rule_nolisten)

lemma keep_after_connect:
  "args st k = Some v \<Longrightarrow> k \<noteq> ''-checklevel'' \<Longrightarrow>
   args ((rule_masternode \<circ> rule_checklevel D \<circ> rule_prune \<circ> rule_relay D \<circ> rule_externalip
          \<circ> rule_nolisten D \<circ> rule_proxy) st) k = Some v"
  using keep_after_proxy [of "rule_proxy st" k v D] by (simp add: keep_rule_proxy)

lemma keep_after_bind:
  "args st k = Some v \<Longrightarrow> k \<noteq> ''-checklevel'' \<Longrightarrow>
   args ((rule_masternode \<circ> rule_checklevel D \<circ> rule_prune \<circ> rule_relay D \<circ> rule_externalip
          \<circ> rule_nolisten D \<circ> rule_proxy \<circ> rule_connect) st) k = Some v"
  using keep_after_connect [of "rule_connect st" k v D] by (simp add: keep_rule_connect)

lemma keep_all:
  "args st k = Some v \<Longrightarrow> k \<noteq> ''-checklevel'' \<Longrightarrow>
   args (InitParameterInteraction D st) k = Some v"
  using keep_after_bind [of "rule_bind st" k v D]
  by (simp add: keep_rule_bind InitParameterInteraction_def)

lemma InitParameterInteraction_unfold:
  "InitParameterInteraction D st =
    (rule_masternode \<circ> rule_checklevel D \<circ> rule_prune \<circ> rule_relay D \<circ> rule_externalip
          \<circ> rule_nolisten D \<circ> rule_proxy \<circ> rule_connect) (rule_bind st)"
  "InitParameterInteraction D st =
    (rule_masternode \<circ> rule_checklevel D \<circ> rule_prune \<circ> rule_relay D \<circ> rule_externalip
          \<circ> rule_nolisten D \<circ> rule_proxy) (rule_connect (rule_bind st))"
  "InitParameterInteraction D st =
    (rule_masternode \<circ> rule_checklevel D \<circ> rule_prune \<circ> rule_relay D \<circ> rule_externalip
          \<circ> rule_nolisten D) (rule_proxy (rule_connect (rule_bind st)))"
  "InitParameterInteraction D st =
    (rule_masternode \<circ> rule_checklevel D)
       (rule_prune (rule_relay D (rule_externalip (rule_nolisten D (rule_proxy (rule_connect (rule_bind st)))))))"
  by (simp_all add: InitParameterInteraction_def)

lemma bind_listen:
  assumes "IsArgSet (args st) ''-bind'' \<or> IsArgSet (args st) ''-whitebind''"
      and "\<not> IsArgSet (args st) ''-listen''"
  shows "args (InitParameterInteraction D st) ''-listen'' = Some ''1''"
proof -
  have "args (rule_bind st) ''-listen'' = Some ''1''"
    using assms by (simp add: args_rule_bind IsArgSet_def)
  then show ?thesis
    unfolding InitParameterInteraction_unfold(1) by (rule keep_after_bind) simp
qed

lemma connect_dnsseed:
  assumes "IsArgSet (args st) ''-connect''" and "\<not> IsArgSet (args st) ''-dnsseed''"
  shows "args (InitParameterInteraction D st) ''-dnsseed'' = Some ''0''"
proof -
  have "args (rule_connect (rule_bind st)) ''-dnsseed'' = Some ''0''"
    using assms by (simp add: args_rule_connect args_rule_bind IsArgSet_def)
  then show ?thesis
    unfolding InitParameterInteraction_unfold(2) by (rule keep_after_connect) simp
qed

lemma connect_listen:
  assumes "IsArgSet (args st) ''-connect''" and "\<not> IsArgSet (args st) ''-listen''"
      and "\<not> IsArgSet (args st) ''-bind''" and "\<not> IsArgSet (args st) ''-whitebind''"
  shows "args (InitParameterInteraction D st) ''-listen'' = Some ''0''"
proof -
  have "args (rule_connect (rule_bind st)) ''-listen'' = Some ''0''"
    using assms by (simp add: args_rule_connect args_rule_bind IsArgSet_def)
  then show ?thesis
    unfolding InitParameterInteraction_unfold(2) by (rule keep_after_connect) simp
qed

lemma proxy_listen:
  assumes "IsArgSet (args st) ''-proxy''" and "\<not> IsArgSet (args st) ''-listen''"
      and "\<not> IsArgSet (args st) ''-bind''" and "\<not> IsArgSet (args st) ''-whitebind''"
  shows "args (InitParameterInteraction D st) ''-listen'' = Some ''0''"
proof -
  have "args (rule_proxy (rule_connect (rule_bind st))) ''-listen'' = Some ''0''"
    using assms by (simp add: args_rule_proxy args_rule_connect args_rule_bind IsArgSet_def)
  then show ?thesis
    unfolding InitParameterInteraction_unfold(3) by (rule keep_after_proxy) simp
qed

lemma proxy_upnp:
  assumes "IsArgSet (args st) ''-proxy''" and "\<not> IsArgSet (args st) ''-upnp''"
  shows "args (InitParameterInteraction D st) ''-upnp'' = Some ''0''"
proof -
  have "args (rule_proxy (rule_connect (rule_bind st))) ''-upnp'' = Some ''0''"
    using assms by (simp add: args_rule_proxy args_rule_connect args_rule_bind IsArgSet_def)
  then show ?thesis
    unfolding InitParameterInteraction_unfold(3) by (rule keep_after_proxy) simp
qed

lemma proxy_discover:
  assumes "IsArgSet (args st) ''-proxy''" and "\<not> IsArgSet (args st) ''-discover''"
  shows "args (InitParameterInteraction D st) ''-discover'' = Some ''0''"
proof -
  have "args (rule_proxy (rule_connect (rule_bind st))) ''-discover'' = Some ''0''"
    using assms by (simp add: args_rule_proxy args_rule_connect args_rule_bind IsArgSet_def)
  then show ?thesis
    unfolding InitParameterInteraction_unfold(3) by (rule keep_after_proxy) simp
qed

text \<open>The rules before the one on -prune leave its three options alone.\<close>

lemma before_prune:
  assumes "k = ''-prune'' \<or> k = ''-txindex'' \<or> k = ''-disablegovernance''"
  shows "args (rule_relay D (rule_externalip (rule_nolisten D (rule_proxy (rule_connect (rule_bind st)))))) k
         = args st k"
proof -
  have 1: "args (rule_bind st) k = args st k" using assms by (auto simp add: args_rule_bind)
  have 2: "args (rule_connect (rule_bind st)) k = args (rule_bind st) k"
    using assms by (auto simp add: args_rule_connect)
  have 3: "args (rule_proxy (rule_connect (rule_bind st))) k = args (rule_connect (rule_bind st)) k"
    using assms by (auto simp add: args_rule_proxy)
  have 4: "args (rule_nolisten D (rule_proxy (rule_connect (rule_bind st)))) k
           = args (rule_proxy (rule_connect (rule_bind st))) k"
    using assms by (auto simp add: args_rule_nolisten)
  have 5: "args (rule_externalip (rule_nolisten D (rule_proxy (rule_connect (rule_bind st))))) k
           = args (rule_nolisten D (rule_proxy (rule_connect (rule_bind st)))) k"
    using assms by (auto simp add: args_rule_externalip)
  have 6: "args (rule_relay D (rule_externalip (rule_nolisten D (rule_proxy (rule_connect (rule_bind st)))))) k
           = args (rule_externalip (rule_nolisten D (rule_proxy (rule_connect (rule_bind st))))) k"
    using assms
      args_rule_relay [of D "rule_externalip (rule_nolisten D (rule_proxy (rule_connect (rule_bind st))))" k]
    by auto
  show ?thesis using 1 2 3 4 5 6 by simp
qed

lemma prune_rule:
  assumes "GetArg (args st) ''-prune'' 0 > 0"
  shows "\<not> IsArgSet (args st) ''-txindex'' \<Longrightarrow>
           args (InitParameterInteraction D st) ''-txindex'' = Some ''0''"
    and "\<not> IsArgSet (args st) ''-disablegovernance'' \<Longrightarrow>
           args (InitParameterInteraction D st) ''-disablegovernance'' = Some ''1''"
proof -
  let ?s6 = "rule_relay D (rule_externalip (rule_nolisten D (rule_proxy (rule_connect (rule_bind st)))))"
  have p: "GetArg (args ?s6) ''-prune'' 0 > 0"
    using assms before_prune [of "''-prune''" D st] by (simp add: GetArg_def)
  {
    assume "\<not> IsArgSet (args st) ''-txindex''"
    then have "args ?s6 ''-txindex'' = None"
      using before_prune [of "''-txindex''" D st] by (simp add: IsArgSet_def)
    then have "args (rule_prune ?s6) ''-txindex'' = Some ''0''"
      using p by (simp add: args_rule_prune)
    then show "args (InitParameterInteraction D st) ''-txindex'' = Some ''0''"
      unfolding InitParameterInteraction_unfold(4) by (rule keep_after_prune) simp
  }
  {
    assume "\<not> IsArgSet (args st) ''-disablegovernance''"
    then have "args ?s6 ''-disablegovernance'' = None"
      using before_prune [of "''-disablegovernance''" D st] by (simp add: IsArgSet_def)
    then have "args (rule_prune ?s6) ''-disablegovernance'' = Some ''1''"
      using p by (simp add: args_rule_prune)
    then show "args (InitParameterInteraction D st) ''-disablegovernance'' = Some ''1''"
      unfolding InitParameterInteraction_unfold(4) by (rule keep_after_prune) simp
  }
qed

text \<open>
  Claim C5, as amended. Parameter interaction never changes an option the user set (the
  one exception is -checklevel, which additional indexes force to 4), and applies its
  rules in the order of the source, each writing only options that are still unset: a
  bind address (-bind or -whitebind) gives listen=true; -connect gives dnsseed=false, and
  listen=false unless a bind address was given; -proxy gives upnp=false and
  discover=false, and listen=false unless a bind address was given; pruning gives
  txindex=false and disablegovernance=true.
\<close>

theorem parameter_interaction_precedence:
  "let a = args st; a' = args (InitParameterInteraction D st);
       bound = (IsArgSet a ''-bind'' \<or> IsArgSet a ''-whitebind'')
   in (\<forall>k v. a k = Some v \<and> k \<noteq> ''-checklevel'' \<longrightarrow> a' k = Some v)
    \<and> (bound \<and> \<not> IsArgSet a ''-listen'' \<longrightarrow> GetBoolArg a' ''-listen'' d)
    \<and> (IsArgSet a ''-connect'' \<and> \<not> IsArgSet a ''-dnsseed'' \<longrightarrow> \<not> GetBoolArg a' ''-dnsseed'' d)
    \<and> (IsArgSet a ''-connect'' \<and> \<not> IsArgSet a ''-listen'' \<and> \<not> bound
          \<longrightarrow> \<not> GetBoolArg a' ''-listen'' d)
    \<and> (IsArgSet a ''-proxy'' \<and> \<not> IsArgSet a ''-listen'' \<and> \<not> bound
          \<longrightarrow> \<not> GetBoolArg a' ''-listen'' d)
    \<and> (IsArgSet a ''-proxy'' \<and> \<not> IsArgSet a ''-upnp'' \<longrightarrow> \<not> GetBoolArg a' ''-upnp'' d)
    \<and> (IsArgSet a ''-proxy'' \<and> \<not> IsArgSet a ''-discover'' \<longrightarrow> \<not> GetBoolArg a' ''-discover'' d)
    \<and> (GetArg a ''-prune'' 0 > 0 \<and> \<not> IsArgSet a ''-txindex'' \<longrightarrow> \<not> GetBoolArg a' ''-txindex'' d)
    \<and> (GetArg a ''-prune'' 0 > 0 \<and> \<not> IsArgSet a ''-disablegovernance''
          \<longrightarrow> GetBoolArg a' ''-disablegovernance'' d)"
  unfolding Let_def
proof (intro conjI allI impI)
  fix k v assume "args st k = Some v \<and> k \<noteq> ''-checklevel''"
  then show "args (InitParameterInteraction D st) k = Some v" by (simp add: keep_all)
next
  assume "(IsArgSet (args st) ''-bind'' \<or> IsArgSet (args st) ''-whitebind'') \<and> \<not> IsArgSet (args st) ''-listen''"
  then show "GetBoolArg (args (InitParameterInteraction D st)) ''-listen'' d"
    by (intro GetBoolArg_1 bind_listen) simp_all
next
  assume "IsArgSet (args st) ''-connect'' \<and> \<not> IsArgSet (args st) ''-dnsseed''"
  then show "\<not> GetBoolArg (args (InitParameterInteraction D st)) ''-dnsseed'' d"
    by (intro GetBoolArg_0 connect_dnsseed) simp_all
next
  assume "IsArgSet (args st) ''-connect'' \<and> \<not> IsArgSet (args st) ''-listen'' \<and>
          \<not> (IsArgSet (args st) ''-bind'' \<or> IsArgSet (args st) ''-whitebind'')"
  then show "\<not> GetBoolArg (args (InitParameterInteraction D st)) ''-listen'' d"
    by (intro GetBoolArg_0 connect_listen) simp_all
next
  assume "IsArgSet (args st) ''-proxy'' \<and> \<not> IsArgSet (args st) ''-listen'' \<and>
          \<not> (IsArgSet (args st) ''-bind'' \<or> IsArgSet (args st) ''-whitebind'')"
  then show "\<not> GetBoolArg (args (InitParameterInteraction D st)) ''-listen'' d"
    by (intro GetBoolArg_0 proxy_listen) simp_all
next
  assume "IsArgSet (args st) ''-proxy'' \<and> \<not> IsArgSet (args st) ''-upnp''"
  then show "\<not> GetBoolArg (args (InitParameterInteraction D st)) ''-upnp'' d"
    by (intro GetBoolArg_0 proxy_upnp) simp_all
next
  assume "IsArgSet (args st) ''-proxy'' \<and> \<not> IsArgSet (args st) ''-discover''"
  then show "\<not> GetBoolArg (args (InitParameterInteraction D st)) ''-discover'' d"
    by (intro GetBoolArg_0 proxy_discover) simp_all
next
  assume "0 < GetArg (args st) ''-prune'' 0 \<and> \<not> IsArgSet (args st) ''-txindex''"
  then show "\<not> GetBoolArg (args (InitParameterInteraction D st)) ''-txindex'' d"
    by (intro GetBoolArg_0 prune_rule) simp_all
next
  assume "0 < GetArg (args st) ''-prune'' 0 \<and> \<not> IsArgSet (args st) ''-disablegovernance''"
  then show "GetBoolArg (args (InitParameterInteraction D st)) ''-disablegovernance'' d"
    by (intro GetBoolArg_1 prune_rule) simp_all
qed

theorem parameter_interaction_precedence_witness:
  "IsArgSet (args (user_config [(''-bind'', ''127.0.0.1'')])) ''-bind''
   \<and> \<not> IsArgSet (args (user_config [(''-bind'', ''127.0.0.1'')])) ''-listen''
   \<and> GetBoolArg (args (InitParameterInteraction upstream_defaults
        (user_config [(''-bind'', ''127.0.0.1'')]))) ''-listen'' False
   \<and> IsArgSet (args (user_config [(''-connect'', ''10.0.0.1''), (''-proxy'', ''127.0.0.1:9050''),
        (''-prune'', ''550'')])) ''-connect''
   \<and> IsArgSet (args (user_config [(''-connect'', ''10.0.0.1''), (''-proxy'', ''127.0.0.1:9050''),
        (''-prune'', ''550'')])) ''-proxy''
   \<and> 0 < GetArg (args (user_config [(''-connect'', ''10.0.0.1''), (''-proxy'', ''127.0.0.1:9050''),
        (''-prune'', ''550'')])) ''-prune'' 0
   \<and> args (InitParameterInteraction upstream_defaults
        (user_config [(''-connect'', ''10.0.0.1''), (''-proxy'', ''127.0.0.1:9050''),
          (''-prune'', ''550'')])) ''-connect'' = Some ''10.0.0.1''
   \<and> \<not> GetBoolArg (args (InitParameterInteraction upstream_defaults
        (user_config [(''-connect'', ''10.0.0.1''), (''-proxy'', ''127.0.0.1:9050''),
          (''-prune'', ''550'')]))) ''-listen'' True
   \<and> \<not> GetBoolArg (args (InitParameterInteraction upstream_defaults
        (user_config [(''-connect'', ''10.0.0.1''), (''-proxy'', ''127.0.0.1:9050''),
          (''-prune'', ''550'')]))) ''-dnsseed'' True
   \<and> \<not> GetBoolArg (args (InitParameterInteraction upstream_defaults
        (user_config [(''-connect'', ''10.0.0.1''), (''-proxy'', ''127.0.0.1:9050''),
          (''-prune'', ''550'')]))) ''-upnp'' True
   \<and> \<not> GetBoolArg (args (InitParameterInteraction upstream_defaults
        (user_config [(''-connect'', ''10.0.0.1''), (''-proxy'', ''127.0.0.1:9050''),
          (''-prune'', ''550'')]))) ''-discover'' True
   \<and> \<not> GetBoolArg (args (InitParameterInteraction upstream_defaults
        (user_config [(''-connect'', ''10.0.0.1''), (''-proxy'', ''127.0.0.1:9050''),
          (''-prune'', ''550'')]))) ''-txindex'' True
   \<and> GetBoolArg (args (InitParameterInteraction upstream_defaults
        (user_config [(''-connect'', ''10.0.0.1''), (''-proxy'', ''127.0.0.1:9050''),
          (''-prune'', ''550'')]))) ''-disablegovernance'' False"
proof -
  let ?A = "user_config [(''-bind'', ''127.0.0.1'')]"
  let ?B = "user_config [(''-connect'', ''10.0.0.1''), (''-proxy'', ''127.0.0.1:9050''),
        (''-prune'', ''550'')]"
  have a: "IsArgSet (args ?A) ''-bind''" "\<not> IsArgSet (args ?A) ''-listen''"
    by (simp_all add: user_config_def IsArgSet_def)
  have b: "IsArgSet (args ?B) ''-connect''" "IsArgSet (args ?B) ''-proxy''"
     "\<not> IsArgSet (args ?B) ''-listen''" "\<not> IsArgSet (args ?B) ''-bind''"
     "\<not> IsArgSet (args ?B) ''-whitebind''" "\<not> IsArgSet (args ?B) ''-dnsseed''"
     "\<not> IsArgSet (args ?B) ''-upnp''" "\<not> IsArgSet (args ?B) ''-discover''"
     "\<not> IsArgSet (args ?B) ''-txindex''" "\<not> IsArgSet (args ?B) ''-disablegovernance''"
     "args ?B ''-connect'' = Some ''10.0.0.1''"
    by (simp_all add: user_config_def IsArgSet_def)
  have p: "0 < GetArg (args ?B) ''-prune'' 0"
    by (simp add: user_config_def GetArg_def atoi64_def digit_value_def)
  have wa: "GetBoolArg (args (InitParameterInteraction upstream_defaults ?A)) ''-listen'' False"
    using parameter_interaction_precedence [of ?A upstream_defaults False] a
    unfolding Let_def by blast
  have wb1: "args (InitParameterInteraction upstream_defaults ?B) ''-connect'' = Some ''10.0.0.1''"
    using parameter_interaction_precedence [of ?B upstream_defaults True] b(11)
    unfolding Let_def by simp
  have wb: "\<not> GetBoolArg (args (InitParameterInteraction upstream_defaults ?B)) ''-listen'' True"
    "\<not> GetBoolArg (args (InitParameterInteraction upstream_defaults ?B)) ''-dnsseed'' True"
    "\<not> GetBoolArg (args (InitParameterInteraction upstream_defaults ?B)) ''-upnp'' True"
    "\<not> GetBoolArg (args (InitParameterInteraction upstream_defaults ?B)) ''-discover'' True"
    "\<not> GetBoolArg (args (InitParameterInteraction upstream_defaults ?B)) ''-txindex'' True"
    using parameter_interaction_precedence [of ?B upstream_defaults True] b p
    unfolding Let_def by blast+
  have wc: "GetBoolArg (args (InitParameterInteraction upstream_defaults ?B)) ''-disablegovernance'' False"
    using parameter_interaction_precedence [of ?B upstream_defaults False] b p
    unfolding Let_def by blast
  show ?thesis using a b(1,2) p wa wb1 wb wc by blast
qed

text \<open>
  Claim C5 as stated fails: -connect does not give listen=false when a bind address was
  given, although the user did not set -listen. The rule on -bind runs first and its
  value stays.
\<close>

theorem connect_listen_counterexample:
  "IsArgSet (args (user_config [(''-bind'', ''127.0.0.1''), (''-connect'', ''10.0.0.1'')])) ''-connect''
   \<and> \<not> IsArgSet (args (user_config [(''-bind'', ''127.0.0.1''), (''-connect'', ''10.0.0.1'')])) ''-listen''
   \<and> args (InitParameterInteraction upstream_defaults
        (user_config [(''-bind'', ''127.0.0.1''), (''-connect'', ''10.0.0.1'')])) ''-listen'' = Some ''1''
   \<and> GetBoolArg (args (InitParameterInteraction upstream_defaults
        (user_config [(''-bind'', ''127.0.0.1''), (''-connect'', ''10.0.0.1'')]))) ''-listen'' False"
  by code_simp

section \<open>Properties of the block import pipeline\<close>

lemma emit_Nil: "emit [] st = st"
  by (simp add: emit_def)

lemma emit_emit: "emit b (emit a st) = emit (a @ b) st"
  by (simp add: emit_def)

lemma emit_fields:
  "fRequestShutdown (emit es st) = fRequestShutdown st"
  "fReindex (emit es st) = fReindex st"
  "disk_reindexing (emit es st) = disk_reindexing st"
  "fImporting (emit es st) = fImporting st"
  "mempool_loaded (emit es st) = mempool_loaded st"
  "events (emit es st) = events st @ es"
  by (simp_all add: emit_def)

lemma replay_quiet:
  "\<not> fRequestShutdown st \<Longrightarrow> replay src False st = emit [LoadExternalBlockFile src] st"
  by (cases st) (simp add: replay_def emit_def)

lemma replay_flag:
  "fRequestShutdown st \<or> sig \<Longrightarrow>
   replay src sig st = (emit [LoadExternalBlockFile src] st)\<lparr> fRequestShutdown := True \<rparr>"
  by (cases st) (auto simp add: replay_def emit_def)

lemma emit_flag_commute:
  "emit es (st\<lparr> fRequestShutdown := b \<rparr>) = (emit es st)\<lparr> fRequestShutdown := b \<rparr>"
  by (simp add: emit_def)

text \<open>The loop over the block files, in closed form.\<close>

lemma reindex_loop_eq:
  "reindex_loop fs n st =
    (let pre = takeWhile is_Readable fs;
         calm = (if fRequestShutdown st then [] else takeWhile (\<lambda>f. \<not> interrupted f) pre)
     in if length calm < length pre
        then (True, (emit (reindexed n (take (length calm + 1) pre) @ [LogPrintf LogShutdownExit]) st)
                       \<lparr> fRequestShutdown := True \<rparr>)
        else (False, emit (reindexed n pre) st))"
proof (induction fs n st rule: reindex_loop.induct)
  case (1 nFile st)
  show ?case by (simp add: emit_Nil)
next
  case (2 fs nFile st)
  show ?case by (simp add: emit_Nil)
next
  case (3 fs nFile st)
  show ?case by (simp add: emit_Nil)
next
  case (4 sig fs nFile st)
  show ?case
  proof (cases "fRequestShutdown st \<or> sig")
    case True
    then have r: "replay (BlkFile nFile) sig (emit [LogPrintf (LogReindexingFile nFile)] st) =
        (emit [LogPrintf (LogReindexingFile nFile), LoadExternalBlockFile (BlkFile nFile)] st)
           \<lparr> fRequestShutdown := True \<rparr>"
      by (simp add: replay_flag emit_fields emit_emit)
    from True show ?thesis
      by (auto simp add: r Let_def emit_flag_commute emit_emit)
  next
    case False
    then have q: "\<not> fRequestShutdown st" and s: "sig = False" by simp_all
    let ?st1 = "emit [LogPrintf (LogReindexingFile nFile), LoadExternalBlockFile (BlkFile nFile)] st"
    have r: "replay (BlkFile nFile) False (emit [LogPrintf (LogReindexingFile nFile)] st) = ?st1"
      using q by (simp add: replay_quiet emit_fields emit_emit)
    have f1: "\<not> fRequestShutdown ?st1" using q by (simp add: emit_fields)
    have ih: "reindex_loop fs (Suc nFile) ?st1 =
      (let pre = takeWhile is_Readable fs;
         calm = takeWhile (\<lambda>f. \<not> interrupted f) pre
       in if length calm < length pre
        then (True, (emit (reindexed (Suc nFile) (take (length calm + 1) pre) @ [LogPrintf LogShutdownExit]) ?st1)
                       \<lparr> fRequestShutdown := True \<rparr>)
        else (False, emit (reindexed (Suc nFile) pre) ?st1))"
      using "4.IH" [OF refl refl, unfolded s r, OF f1] f1 by (simp add: Let_def)
    show ?thesis
      using q f1 ih unfolding s
      by (simp add: r Let_def emit_emit)
  qed
qed

lemma phase_reindex_eq:
  assumes "fReindex st"
  shows "phase_reindex env st =
    (let pre = takeWhile is_Readable (blk_files env);
         calm = (if fRequestShutdown st then [] else takeWhile (\<lambda>f. \<not> interrupted f) pre)
     in if length calm < length pre
        then (Some ShutdownObserved,
              (emit (reindexed 0 (take (length calm + 1) pre) @ [LogPrintf LogShutdownExit]) st)
                 \<lparr> fRequestShutdown := True \<rparr>)
        else (None,
              (emit (reindexed 0 pre
                      @ [WriteReindexing False, LogPrintf LogReindexingFinished, LoadGenesisBlock]) st)
                 \<lparr> disk_reindexing := False, fReindex := False \<rparr>))"
  using assms by (simp add: phase_reindex_def reindex_loop_eq Let_def emit_emit)

text \<open>
  Claim C6, as amended. When a reindex is requested, the pipeline goes through the block
  files in ascending order from file 0 and stops at the first file that is missing or
  cannot be opened; it replays every file before that one, unless a shutdown request is
  seen after one of them, in which case it returns at once and reindexing stays
  requested. Only when the loop has ended at such a file does it mark reindexing
  complete (on disk and in memory) and call the genesis initialisation again.
\<close>

theorem reindex_stops_at_first_unusable_file:
  assumes "fReindex st"
  shows "let pre = takeWhile is_Readable (blk_files env);
             calm = (if fRequestShutdown st then [] else takeWhile (\<lambda>f. \<not> interrupted f) pre)
         in phase_reindex env st =
           (if length calm < length pre
            then (Some ShutdownObserved,
                  (emit (reindexed 0 (take (length calm + 1) pre) @ [LogPrintf LogShutdownExit]) st)
                     \<lparr> fRequestShutdown := True \<rparr>)
            else (None,
                  (emit (reindexed 0 pre
                          @ [WriteReindexing False, LogPrintf LogReindexingFinished, LoadGenesisBlock]) st)
                     \<lparr> disk_reindexing := False, fReindex := False \<rparr>))"
  using phase_reindex_eq [OF assms, of env] by (simp add: Let_def)

theorem reindex_stops_at_first_unusable_file_witness:
  "fReindex (import_start True)
   \<and> phase_reindex (quiet_env\<lparr> blk_files := [Readable False, Readable False, Missing, Readable False] \<rparr>)
        (import_start True)
     = (None, \<lparr> fReindex = False, disk_reindexing = False, fRequestShutdown = False,
                fImporting = False, mempool_loaded = False,
                events = [LogPrintf (LogReindexingFile 0), LoadExternalBlockFile (BlkFile 0),
                          LogPrintf (LogReindexingFile 1), LoadExternalBlockFile (BlkFile 1),
                          WriteReindexing False, LogPrintf LogReindexingFinished,
                          LoadGenesisBlock] \<rparr>)
   \<and> phase_reindex (quiet_env\<lparr> blk_files := [Readable False, Readable True, Readable False] \<rparr>)
        (import_start True)
     = (Some ShutdownObserved,
         \<lparr> fReindex = True, disk_reindexing = True, fRequestShutdown = True,
           fImporting = False, mempool_loaded = False,
           events = [LogPrintf (LogReindexingFile 0), LoadExternalBlockFile (BlkFile 0),
                     LogPrintf (LogReindexingFile 1), LoadExternalBlockFile (BlkFile 1),
                     LogPrintf LogShutdownExit] \<rparr>)"
proof -
  have h: "fReindex (import_start True)" by (simp add: import_start_def)
  show ?thesis
    using h
      reindex_stops_at_first_unusable_file [OF h,
        of "quiet_env\<lparr> blk_files := [Readable False, Readable False, Missing, Readable False] \<rparr>"]
      reindex_stops_at_first_unusable_file [OF h,
        of "quiet_env\<lparr> blk_files := [Readable False, Readable True, Readable False] \<rparr>"]
    by (simp add: Let_def import_start_def quiet_env_def emit_def)
qed

text \<open>
  Claim C6 as stated fails: the loop also stops at a block file that exists and cannot be
  opened. Here blk00000.dat and blk00001.dat both exist, no file is replayed, and
  reindexing is marked complete.
\<close>

theorem reindex_unopenable_counterexample:
  "blk_files (quiet_env\<lparr> blk_files := [Unopenable, Readable False] \<rparr>) ! 0 \<noteq> Missing
   \<and> blk_files (quiet_env\<lparr> blk_files := [Unopenable, Readable False] \<rparr>) ! 1 \<noteq> Missing
   \<and> events (snd (ThreadImport (quiet_env\<lparr> blk_files := [Unopenable, Readable False] \<rparr>)
                      (import_start True)))
      = [WriteReindexing False, LogPrintf LogReindexingFinished, LoadGenesisBlock,
         ActivateBestChain, InitializeCurrentBlockTip, LogPrintf LogFillingCoinCache,
         GetListAtChainTip, LogPrintf LogFillingCoinCacheDone, AutoLockMasternodeCollaterals,
         LoadMempool, SetIsLoaded True]
   \<and> \<not> fReindex (snd (ThreadImport (quiet_env\<lparr> blk_files := [Unopenable, Readable False] \<rparr>)
                      (import_start True)))"
  by code_simp

lemma hide_warnings_fields:
  "fRequestShutdown (hide_warnings st) = fRequestShutdown st"
  "fReindex (hide_warnings st) = fReindex st"
  "disk_reindexing (hide_warnings st) = disk_reindexing st"
  "fImporting (hide_warnings st) = fImporting st"
  "mempool_loaded (hide_warnings st) = mempool_loaded st"
  unfolding hide_warnings_def by simp_all

lemma same_fields:
  assumes "hide_warnings s = hide_warnings t"
  shows "fRequestShutdown s = fRequestShutdown t" "fReindex s = fReindex t"
    "disk_reindexing s = disk_reindexing t" "fImporting s = fImporting t"
    "mempool_loaded s = mempool_loaded t"
proof -
  show "fRequestShutdown s = fRequestShutdown t"
    using arg_cong [OF assms, of fRequestShutdown] by (simp add: hide_warnings_fields)
  show "fReindex s = fReindex t"
    using arg_cong [OF assms, of fReindex] by (simp add: hide_warnings_fields)
  show "disk_reindexing s = disk_reindexing t"
    using arg_cong [OF assms, of disk_reindexing] by (simp add: hide_warnings_fields)
  show "fImporting s = fImporting t"
    using arg_cong [OF assms, of fImporting] by (simp add: hide_warnings_fields)
  show "mempool_loaded s = mempool_loaded t"
    using arg_cong [OF assms, of mempool_loaded] by (simp add: hide_warnings_fields)
qed

lemma hide_warnings_emit:
  "hide_warnings (emit es st) = emit (filter (\<lambda>e. \<not> is_open_warning e) es) (hide_warnings st)"
  unfolding hide_warnings_def emit_def by simp

lemma hide_warnings_updates:
  "hide_warnings (st\<lparr> fRequestShutdown := b \<rparr>) = (hide_warnings st)\<lparr> fRequestShutdown := b \<rparr>"
  "hide_warnings (st\<lparr> fImporting := b \<rparr>) = (hide_warnings st)\<lparr> fImporting := b \<rparr>"
  "hide_warnings (st\<lparr> fReindex := b \<rparr>) = (hide_warnings st)\<lparr> fReindex := b \<rparr>"
  "hide_warnings (st\<lparr> disk_reindexing := b \<rparr>) = (hide_warnings st)\<lparr> disk_reindexing := b \<rparr>"
  "hide_warnings (st\<lparr> mempool_loaded := b \<rparr>) = (hide_warnings st)\<lparr> mempool_loaded := b \<rparr>"
  unfolding hide_warnings_def by simp_all

lemma hide_warnings_replay:
  "hide_warnings (replay src sig st) = replay src sig (hide_warnings st)"
  unfolding replay_def hide_warnings_def emit_def by simp

lemma same_emit:
  "hide_warnings s = hide_warnings t \<Longrightarrow> hide_warnings (emit es s) = hide_warnings (emit es t)"
  by (simp add: hide_warnings_emit)

lemma same_replay:
  "hide_warnings s = hide_warnings t \<Longrightarrow>
   hide_warnings (replay src sig s) = hide_warnings (replay src sig t)"
  by (simp add: hide_warnings_replay)

lemma agreeI:
  assumes "\<And>s t. hide_warnings s = hide_warnings t \<Longrightarrow>
             fst (f s) = fst (g t) \<and> hide_warnings (snd (f s)) = hide_warnings (snd (g t))"
  shows "agree f g"
  using assms by (simp add: agree_def)

lemma agreeD:
  assumes "agree f g" "hide_warnings s = hide_warnings t"
  shows "fst (f s) = fst (g t)" "hide_warnings (snd (f s)) = hide_warnings (snd (g t))"
  using assms by (simp_all add: agree_def)

lemma agree_and_then:
  assumes "agree f f'" "agree g g'"
  shows "agree (and_then f g) (and_then f' g')"
proof (rule agreeI)
  fix s t assume st: "hide_warnings s = hide_warnings t"
  obtain x s1 where fs: "f s = (x, s1)" by (cases "f s")
  obtain y t1 where ft: "f' t = (y, t1)" by (cases "f' t")
  have xy: "x = y" and s1t1: "hide_warnings s1 = hide_warnings t1"
    using agreeD [OF assms(1) st] fs ft by simp_all
  show "fst (and_then f g s) = fst (and_then f' g' t) \<and>
        hide_warnings (snd (and_then f g s)) = hide_warnings (snd (and_then f' g' t))"
  proof (cases x)
    case None
    then show ?thesis
      using agreeD [OF assms(2) s1t1] fs ft xy by (simp add: and_then_def)
  next
    case (Some e)
    then show ?thesis using fs ft xy s1t1 by (simp add: and_then_def)
  qed
qed

lemma agree_loadblock:
  "agree (loadblock_loop fs) (loadblock_loop (filter (\<lambda>pf. is_Readable (snd pf)) fs))"
proof (rule agreeI)
  fix s t :: Globals
  assume "hide_warnings s = hide_warnings t"
  then show "fst (loadblock_loop fs s)
        = fst (loadblock_loop (filter (\<lambda>pf. is_Readable (snd pf)) fs) t)
      \<and> hide_warnings (snd (loadblock_loop fs s))
        = hide_warnings (snd (loadblock_loop (filter (\<lambda>pf. is_Readable (snd pf)) fs) t))"
  proof (induction fs arbitrary: s t)
    case Nil
    then show ?case by simp
  next
    case (Cons pf fs)
    obtain p f where pf: "pf = (p, f)" by (cases pf)
    show ?case
    proof (cases f)
      case Missing
      have "hide_warnings (emit [LogPrintf (WarnBlocksFile p)] s) = hide_warnings t"
        using Cons.prems by (simp add: hide_warnings_emit emit_Nil)
      from Cons.IH [OF this] show ?thesis using pf Missing by simp
    next
      case Unopenable
      have "hide_warnings (emit [LogPrintf (WarnBlocksFile p)] s) = hide_warnings t"
        using Cons.prems by (simp add: hide_warnings_emit emit_Nil)
      from Cons.IH [OF this] show ?thesis using pf Unopenable by simp
    next
      case (Readable sig)
      let ?s1 = "replay (LoadBlock p) sig (emit [LogPrintf (LogImportingFile p)] s)"
      let ?t1 = "replay (LoadBlock p) sig (emit [LogPrintf (LogImportingFile p)] t)"
      have 1: "hide_warnings ?s1 = hide_warnings ?t1"
        using Cons.prems by (intro same_replay same_emit)
      have fl: "fRequestShutdown ?s1 = fRequestShutdown ?t1" using 1 by (rule same_fields)
      show ?thesis
      proof (cases "fRequestShutdown ?s1")
        case True
        then show ?thesis using pf Readable fl 1 by (simp add: Let_def hide_warnings_emit)
      next
        case False
        then show ?thesis using pf Readable fl Cons.IH [OF 1] by (simp add: Let_def)
      qed
    qed
  qed
qed

lemma agree_bootstrap:
  "agree (phase_bootstrap env) (phase_bootstrap (without_unopenable env))"
proof (rule agreeI)
  fix s t :: Globals
  assume st: "hide_warnings s = hide_warnings t"
  show "fst (phase_bootstrap env s) = fst (phase_bootstrap (without_unopenable env) t) \<and>
        hide_warnings (snd (phase_bootstrap env s))
          = hide_warnings (snd (phase_bootstrap (without_unopenable env) t))"
  proof (cases "bootstrap env")
    case Missing
    then show ?thesis using st by (simp add: phase_bootstrap_def without_unopenable_def)
  next
    case Unopenable
    then show ?thesis using st
      by (simp add: phase_bootstrap_def without_unopenable_def hide_warnings_emit emit_Nil)
  next
    case (Readable sig)
    then show ?thesis using st
      by (simp add: phase_bootstrap_def without_unopenable_def Let_def hide_warnings_emit hide_warnings_replay)
  qed
qed

lemma agree_reindex_loop:
  assumes "hide_warnings s = hide_warnings t"
  shows "fst (reindex_loop fs n s) = fst (reindex_loop fs n t) \<and>
         hide_warnings (snd (reindex_loop fs n s)) = hide_warnings (snd (reindex_loop fs n t))"
  using assms same_fields(1) [OF assms]
  by (simp add: reindex_loop_eq Let_def hide_warnings_emit hide_warnings_updates)

lemma agree_reindex:
  "agree (phase_reindex env) (phase_reindex (without_unopenable env))"
proof (rule agreeI)
  fix s t :: Globals
  assume st: "hide_warnings s = hide_warnings t"
  have b: "blk_files (without_unopenable env) = blk_files env"
    by (simp add: without_unopenable_def)
  obtain x s1 where 1: "reindex_loop (blk_files env) 0 s = (x, s1)"
    by (cases "reindex_loop (blk_files env) 0 s")
  obtain y t1 where 2: "reindex_loop (blk_files env) 0 t = (y, t1)"
    by (cases "reindex_loop (blk_files env) 0 t")
  have 3: "x = y" "hide_warnings s1 = hide_warnings t1"
    using agree_reindex_loop [OF st, of "blk_files env" 0] 1 2 by simp_all
  show "fst (phase_reindex env s) = fst (phase_reindex (without_unopenable env) t) \<and>
        hide_warnings (snd (phase_reindex env s))
          = hide_warnings (snd (phase_reindex (without_unopenable env) t))"
    using st same_fields(2) [OF st] 1 2 3
    by (cases y) (simp_all add: phase_reindex_def b hide_warnings_emit hide_warnings_updates)
qed

lemma agree_activate:
  "agree (phase_activate env) (phase_activate (without_unopenable env))"
  by (rule agreeI)
     (simp add: phase_activate_def without_unopenable_def Let_def hide_warnings_emit hide_warnings_updates)

lemma agree_warmup:
  "agree (phase_warmup env) (phase_warmup (without_unopenable env))"
proof (rule agreeI)
  fix s t :: Globals
  assume st: "hide_warnings s = hide_warnings t"
  have e: "fMasternodeMode (without_unopenable env) = fMasternodeMode env"
    "activeMasternodeManager (without_unopenable env) = activeMasternodeManager env"
    "persistmempool (without_unopenable env) = persistmempool env"
    "late_shutdown (without_unopenable env) = late_shutdown env"
    by (simp_all add: without_unopenable_def)
  show "fst (phase_warmup env s) = fst (phase_warmup (without_unopenable env) t) \<and>
        hide_warnings (snd (phase_warmup env s))
          = hide_warnings (snd (phase_warmup (without_unopenable env) t))"
    using st same_fields(1) [OF st]
    by (simp add: phase_warmup_def e Let_def hide_warnings_emit hide_warnings_updates emit_fields)
qed

lemma agree_ThreadImport:
  "agree (ThreadImport env) (ThreadImport (without_unopenable env))"
proof (rule agreeI)
  fix s t :: Globals
  assume st: "hide_warnings s = hide_warnings t"
  let ?f = "and_then (import_sources env) (and_then (phase_activate env) (phase_warmup env))"
  let ?g = "and_then (import_sources (without_unopenable env))
              (and_then (phase_activate (without_unopenable env)) (phase_warmup (without_unopenable env)))"
  have v: "vImportFiles (without_unopenable env)
             = filter (\<lambda>pf. is_Readable (snd pf)) (vImportFiles env)"
    by (simp add: without_unopenable_def)
  have a: "agree ?f ?g"
    unfolding import_sources_def v
    by (intro agree_and_then agree_reindex agree_bootstrap agree_loadblock agree_activate agree_warmup)
  have i: "hide_warnings (s\<lparr> fImporting := True \<rparr>) = hide_warnings (t\<lparr> fImporting := True \<rparr>)"
    using st by (simp add: hide_warnings_updates)
  obtain x s1 where 1: "?f (s\<lparr> fImporting := True \<rparr>) = (x, s1)"
    by (cases "?f (s\<lparr> fImporting := True \<rparr>)")
  obtain y t1 where 2: "?g (t\<lparr> fImporting := True \<rparr>) = (y, t1)"
    by (cases "?g (t\<lparr> fImporting := True \<rparr>)")
  have 3: "x = y" "hide_warnings s1 = hide_warnings t1"
    using agreeD [OF a i] 1 2 by simp_all
  show "fst (ThreadImport env s) = fst (ThreadImport (without_unopenable env) t) \<and>
        hide_warnings (snd (ThreadImport env s))
          = hide_warnings (snd (ThreadImport (without_unopenable env) t))"
    using 1 2 3 by (simp add: ThreadImport_def hide_warnings_updates)
qed

lemma loadblock_append:
  "loadblock_loop (xs @ ys) = and_then (loadblock_loop xs) (loadblock_loop ys)"
proof
  fix st show "loadblock_loop (xs @ ys) st = and_then (loadblock_loop xs) (loadblock_loop ys) st"
    by (induction xs st rule: loadblock_loop.induct) (simp_all add: and_then_def Let_def)
qed

subsection \<open>What the pipeline does to the reindexing marker\<close>

lemma and_then_assoc: "and_then (and_then f g) h = and_then f (and_then g h)"
  by (rule ext) (simp add: and_then_def split: prod.splits option.splits)

lemma keeps_markerI:
  assumes "\<And>st. disk_reindexing (snd (f st)) = disk_reindexing st"
      and "\<And>st. fReindex (snd (f st)) = fReindex st"
      and "\<And>st. \<exists>es. events (snd (f st)) = events st @ es \<and> WriteReindexing False \<notin> set es"
  shows "keeps_marker f"
  using assms unfolding keeps_marker_def by blast

lemma keeps_markerD:
  assumes "keeps_marker f"
  shows "disk_reindexing (snd (f st)) = disk_reindexing st"
    and "fReindex (snd (f st)) = fReindex st"
    and "\<exists>es. events (snd (f st)) = events st @ es \<and> WriteReindexing False \<notin> set es"
  using assms unfolding keeps_marker_def by blast+

lemma keeps_marker_and_then:
  assumes "keeps_marker f" "keeps_marker g"
  shows "keeps_marker (and_then f g)"
proof (rule keeps_markerI)
  fix st
  obtain x s1 where f: "f st = (x, s1)" by (cases "f st")
  have 1: "disk_reindexing s1 = disk_reindexing st" "fReindex s1 = fReindex st"
    using keeps_markerD(1,2) [OF assms(1), of st] f by simp_all
  obtain es where 2: "events s1 = events st @ es" "WriteReindexing False \<notin> set es"
    using keeps_markerD(3) [OF assms(1), of st] f by auto
  obtain es' where 3: "events (snd (g s1)) = events s1 @ es'" "WriteReindexing False \<notin> set es'"
    using keeps_markerD(3) [OF assms(2), of s1] by auto
  show "disk_reindexing (snd (and_then f g st)) = disk_reindexing st"
    using f 1 keeps_markerD(1) [OF assms(2), of s1]
    by (cases x) (simp_all add: and_then_def)
  show "fReindex (snd (and_then f g st)) = fReindex st"
    using f 1 keeps_markerD(2) [OF assms(2), of s1]
    by (cases x) (simp_all add: and_then_def)
  show "\<exists>es. events (snd (and_then f g st)) = events st @ es \<and> WriteReindexing False \<notin> set es"
  proof (cases x)
    case None
    have "events (snd (g s1)) = events st @ (es @ es')" using 2 3 by simp
    moreover have "WriteReindexing False \<notin> set (es @ es')" using 2 3 by simp
    ultimately show ?thesis using f None unfolding and_then_def by (simp del: append_assoc)
  next
    case (Some e)
    then show ?thesis using f 2 unfolding and_then_def by simp
  qed
qed

lemma keeps_marker_emit:
  assumes "WriteReindexing False \<notin> set es"
  shows "\<exists>es'. events (emit es st) = events st @ es' \<and> WriteReindexing False \<notin> set es'"
  using assms by (simp add: emit_fields)

lemma keeps_marker_bootstrap: "keeps_marker (phase_bootstrap env)"
proof (rule keeps_markerI)
  fix st
  show "disk_reindexing (snd (phase_bootstrap env st)) = disk_reindexing st"
    by (simp add: phase_bootstrap_def Let_def emit_def replay_def split: Openness.splits)
  show "fReindex (snd (phase_bootstrap env st)) = fReindex st"
    by (simp add: phase_bootstrap_def Let_def emit_def replay_def split: Openness.splits)
  show "\<exists>es. events (snd (phase_bootstrap env st)) = events st @ es \<and> WriteReindexing False \<notin> set es"
  proof (cases "bootstrap env")
    case Missing
    then show ?thesis by (simp add: phase_bootstrap_def)
  next
    case Unopenable
    then show ?thesis by (simp add: phase_bootstrap_def emit_def)
  next
    case (Readable sig)
    have "events (snd (phase_bootstrap env st)) = events st
            @ [LogPrintf LogImportingBootstrap, LoadExternalBlockFile Bootstrap, RenameOver]"
      using Readable by (simp add: phase_bootstrap_def Let_def emit_def replay_def)
    then show ?thesis by simp
  qed
qed

lemma keeps_marker_activate: "keeps_marker (phase_activate env)"
proof (rule keeps_markerI)
  fix st
  show "disk_reindexing (snd (phase_activate env st)) = disk_reindexing st"
    by (simp add: phase_activate_def Let_def emit_def)
  show "fReindex (snd (phase_activate env st)) = fReindex st"
    by (simp add: phase_activate_def Let_def emit_def)
  have "events (snd (phase_activate env st)) = events st @
          (if \<not> activate_ok env then [ActivateBestChain, LogPrintf LogFailedConnect, StartShutdown]
           else if stopafterblockimport env
           then [ActivateBestChain, LogPrintf LogStopAfterImport, StartShutdown]
           else [ActivateBestChain])"
    by (simp add: phase_activate_def Let_def emit_def)
  then show "\<exists>es. events (snd (phase_activate env st)) = events st @ es \<and> WriteReindexing False \<notin> set es"
    by simp
qed

lemma keeps_marker_warmup: "keeps_marker (phase_warmup env)"
proof (rule keeps_markerI)
  fix st
  show "disk_reindexing (snd (phase_warmup env st)) = disk_reindexing st"
    by (simp add: phase_warmup_def Let_def emit_def)
  show "fReindex (snd (phase_warmup env st)) = fReindex st"
    by (simp add: phase_warmup_def Let_def emit_def)
  have "events (snd (phase_warmup env st)) = events st @
          [InitializeCurrentBlockTip, LogPrintf LogFillingCoinCache, GetListAtChainTip,
           LogPrintf LogFillingCoinCacheDone]
          @ (if fMasternodeMode env \<and> \<not> activeMasternodeManager env then []
             else (if fMasternodeMode env then [ActiveMasternodeInit] else [])
                  @ [AutoLockMasternodeCollaterals]
                  @ (if persistmempool env then [LoadMempool] else [])
                  @ [SetIsLoaded (\<not> (fRequestShutdown st \<or> late_shutdown env))])"
    by (simp add: phase_warmup_def Let_def emit_def)
  then show "\<exists>es. events (snd (phase_warmup env st)) = events st @ es \<and> WriteReindexing False \<notin> set es"
    by simp
qed

lemma loadblock_loop_keeps:
  "disk_reindexing (snd (loadblock_loop fs st)) = disk_reindexing st
   \<and> fReindex (snd (loadblock_loop fs st)) = fReindex st
   \<and> (\<exists>es. events (snd (loadblock_loop fs st)) = events st @ es \<and> WriteReindexing False \<notin> set es)"
proof (induction fs arbitrary: st)
  case Nil
  show ?case by simp
next
  case (Cons pf fs)
  obtain p f where pf: "pf = (p, f)" by (cases pf)
  have warn: ?case if u: "\<not> is_Readable f"
  proof -
    let ?s = "emit [LogPrintf (WarnBlocksFile p)] st"
    have l: "loadblock_loop (pf # fs) st = loadblock_loop fs ?s"
      using u pf by (cases f) simp_all
    obtain es where es: "events (snd (loadblock_loop fs ?s)) = events ?s @ es"
        "WriteReindexing False \<notin> set es"
      using Cons.IH [of ?s] by auto
    have "events (snd (loadblock_loop fs ?s)) = events st @ (LogPrintf (WarnBlocksFile p) # es)"
      using es by (simp add: emit_fields)
    moreover have "WriteReindexing False \<notin> set (LogPrintf (WarnBlocksFile p) # es)"
      using es by simp
    ultimately have "\<exists>es. events (snd (loadblock_loop fs ?s)) = events st @ es
                       \<and> WriteReindexing False \<notin> set es" by blast
    then show ?thesis unfolding l using Cons.IH [of ?s] by (simp add: emit_fields)
  qed
  show ?case
  proof (cases f)
    case Missing
    then show ?thesis using warn by simp
  next
    case Unopenable
    then show ?thesis using warn by simp
  next
    case (Readable sig)
    let ?s = "replay (LoadBlock p) sig (emit [LogPrintf (LogImportingFile p)] st)"
    have s: "disk_reindexing ?s = disk_reindexing st" "fReindex ?s = fReindex st"
       "events ?s = events st @ [LogPrintf (LogImportingFile p), LoadExternalBlockFile (LoadBlock p)]"
      by (simp_all add: replay_def emit_def)
    show ?thesis
    proof (cases "fRequestShutdown ?s")
      case True
      then have l: "loadblock_loop (pf # fs) st
                      = (Some ShutdownObserved, emit [LogPrintf LogShutdownExit] ?s)"
        using pf Readable by (simp add: Let_def)
      have "events (emit [LogPrintf LogShutdownExit] ?s) = events st
              @ [LogPrintf (LogImportingFile p), LoadExternalBlockFile (LoadBlock p),
                 LogPrintf LogShutdownExit]"
        using s by (simp add: emit_fields)
      then show ?thesis unfolding l using s by (simp add: emit_fields)
    next
      case False
      then have l: "loadblock_loop (pf # fs) st = loadblock_loop fs ?s"
        using pf Readable by (simp add: Let_def)
      obtain es where es: "events (snd (loadblock_loop fs ?s)) = events ?s @ es"
          "WriteReindexing False \<notin> set es"
        using Cons.IH [of ?s] by auto
      have "events (snd (loadblock_loop fs ?s)) = events st
              @ (LogPrintf (LogImportingFile p) # LoadExternalBlockFile (LoadBlock p) # es)"
        using es s by simp
      moreover have "WriteReindexing False
              \<notin> set (LogPrintf (LogImportingFile p) # LoadExternalBlockFile (LoadBlock p) # es)"
        using es by simp
      ultimately have "\<exists>es. events (snd (loadblock_loop fs ?s)) = events st @ es
                       \<and> WriteReindexing False \<notin> set es" by blast
      then show ?thesis unfolding l using Cons.IH [of ?s] s by simp
    qed
  qed
qed

lemma keeps_marker_loadblock: "keeps_marker (loadblock_loop fs)"
  by (rule keeps_markerI) (simp_all add: loadblock_loop_keeps)


lemma keeps_marker_tail:
  "keeps_marker (and_then (loadblock_loop fs) (and_then (phase_activate env) (phase_warmup env)))"
  by (intro keeps_marker_and_then keeps_marker_loadblock keeps_marker_activate keeps_marker_warmup)

lemma ThreadImport_unfold:
  "ThreadImport env st =
     leave (and_then (phase_reindex env)
             (and_then (and_then (phase_bootstrap env) (loadblock_loop (vImportFiles env)))
                (and_then (phase_activate env) (phase_warmup env)))
             (st\<lparr> fImporting := True \<rparr>))"
  unfolding ThreadImport_def import_sources_def and_then_assoc leave_def
  by (simp split: prod.splits)


lemma new_events_append:
  "events s = events st @ es \<Longrightarrow> new_events st s = es"
  unfolding new_events_def by simp


subsection \<open>Sources that cannot be opened\<close>

lemma appendsI: "(\<And>st. \<exists>es. events (snd (f st)) = events st @ es) \<Longrightarrow> appends f"
  unfolding appends_def by blast

lemma appendsD: "appends f \<Longrightarrow> \<exists>es. events (snd (f st)) = events st @ es"
  unfolding appends_def by blast

lemma keeps_marker_appends: "keeps_marker f \<Longrightarrow> appends f"
  unfolding keeps_marker_def appends_def by blast

lemma appends_and_then:
  assumes "appends f" "appends g"
  shows "appends (and_then f g)"
proof (rule appendsI)
  fix st
  obtain x s1 where f: "f st = (x, s1)" by (cases "f st")
  obtain es where 1: "events s1 = events st @ es" using appendsD [OF assms(1), of st] f by auto
  obtain es' where 2: "events (snd (g s1)) = events s1 @ es'" using appendsD [OF assms(2), of s1] by auto
  show "\<exists>es. events (snd (and_then f g st)) = events st @ es"
    using f 1 2 by (cases x) (simp_all add: and_then_def)
qed

lemma appends_reindex: "appends (phase_reindex env)"
proof (rule appendsI)
  fix st
  show "\<exists>es. events (snd (phase_reindex env st)) = events st @ es"
  proof (cases "fReindex st")
    case True
    show ?thesis unfolding phase_reindex_eq [OF True] Let_def by (simp add: emit_fields)
  next
    case False
    then show ?thesis by (simp add: phase_reindex_def)
  qed
qed

lemma and_then_None: "f st = (None, s) \<Longrightarrow> and_then f g st = g s"
  by (simp add: and_then_def)

text \<open>
  Claim C7, as amended. When the pipeline gets to a source that cannot be opened, it logs
  the warning and goes on with the remaining sources: for bootstrap.dat, after the
  reindex phase, ThreadImport is the warning followed by the -loadblock files,
  ActivateBestChain and the later steps; for a -loadblock file, after the phases and files
  before it, ThreadImport is the warning followed by the files after it,
  ActivateBestChain and the later steps. In both cases the warning is among the events
  of the run. Such a source never changes how the pipeline ends: ThreadImport leaves the
  same way, in the same state up to the warnings, as it does without these sources.
\<close>

theorem unopenable_source_is_skipped:
  "(bootstrap env = Unopenable \<and> phase_reindex env (st\<lparr> fImporting := True \<rparr>) = (None, s) \<longrightarrow>
      ThreadImport env st =
        leave (and_then (loadblock_loop (vImportFiles env))
                 (and_then (phase_activate env) (phase_warmup env))
                 (emit [LogPrintf WarnBootstrap] s))
      \<and> LogPrintf WarnBootstrap \<in> set (new_events st (snd (ThreadImport env st))))
   \<and> (vImportFiles env = xs @ (p, f) # ys \<and> \<not> is_Readable f
       \<and> and_then (phase_reindex env) (and_then (phase_bootstrap env) (loadblock_loop xs))
            (st\<lparr> fImporting := True \<rparr>) = (None, s') \<longrightarrow>
      ThreadImport env st =
        leave (and_then (loadblock_loop ys)
                 (and_then (phase_activate env) (phase_warmup env))
                 (emit [LogPrintf (WarnBlocksFile p)] s'))
      \<and> LogPrintf (WarnBlocksFile p) \<in> set (new_events st (snd (ThreadImport env st))))
   \<and> fst (ThreadImport env st) = fst (ThreadImport (without_unopenable env) st)
   \<and> hide_warnings (snd (ThreadImport env st))
        = hide_warnings (snd (ThreadImport (without_unopenable env) st))"
proof (intro conjI impI)
  let ?AW = "and_then (phase_activate env) (phase_warmup env)"
  let ?st = "st\<lparr> fImporting := True \<rparr>"
  assume a: "bootstrap env = Unopenable \<and> phase_reindex env ?st = (None, s)"
  let ?T = "and_then (loadblock_loop (vImportFiles env)) ?AW"
  let ?w = "emit [LogPrintf WarnBootstrap] s"
  have b: "phase_bootstrap env s = (None, ?w)" using a by (simp add: phase_bootstrap_def)
  have "and_then (and_then (phase_bootstrap env) (loadblock_loop (vImportFiles env))) ?AW s = ?T ?w"
    unfolding and_then_assoc using b by (rule and_then_None)
  then show t: "ThreadImport env st = leave (?T ?w)"
    unfolding ThreadImport_unfold using a by (simp add: and_then_None)
  obtain es0 where 0: "events s = events ?st @ es0"
    using appendsD [OF appends_reindex, of env ?st] a by auto
  obtain es where 1: "events (snd (?T ?w)) = events ?w @ es"
    using keeps_markerD(3) [OF keeps_marker_tail, of "vImportFiles env" env ?w] by auto
  have "events (snd (leave (?T ?w))) = events st @ (es0 @ LogPrintf WarnBootstrap # es)"
    using 0 1 by (simp add: leave_def emit_fields)
  then have "new_events st (snd (leave (?T ?w))) = es0 @ LogPrintf WarnBootstrap # es"
    by (rule new_events_append)
  then show "LogPrintf WarnBootstrap \<in> set (new_events st (snd (ThreadImport env st)))"
    unfolding t by simp
next
  let ?AW = "and_then (phase_activate env) (phase_warmup env)"
  let ?st = "st\<lparr> fImporting := True \<rparr>"
  let ?P = "and_then (phase_reindex env) (and_then (phase_bootstrap env) (loadblock_loop xs))"
  assume a: "vImportFiles env = xs @ (p, f) # ys \<and> \<not> is_Readable f \<and> ?P ?st = (None, s')"
  let ?T = "and_then (loadblock_loop ys) ?AW"
  let ?w = "emit [LogPrintf (WarnBlocksFile p)] s'"
  have l: "loadblock_loop ((p, f) # ys) s' = loadblock_loop ys ?w"
    using a by (cases f) simp_all
  have c: "and_then (loadblock_loop ((p, f) # ys)) ?AW s' = ?T ?w"
    unfolding and_then_def l ..
  have u: "and_then (phase_reindex env)
             (and_then (and_then (phase_bootstrap env) (loadblock_loop (vImportFiles env))) ?AW)
           = and_then ?P (and_then (loadblock_loop ((p, f) # ys)) ?AW)"
    using a by (simp add: loadblock_append and_then_assoc)
  show t: "ThreadImport env st = leave (?T ?w)"
    unfolding ThreadImport_unfold u using a c by (simp add: and_then_None)
  have ap: "appends ?P"
    by (intro appends_and_then appends_reindex keeps_marker_appends keeps_marker_bootstrap
          keeps_marker_loadblock)
  obtain es0 where 0: "events s' = events ?st @ es0"
    using appendsD [OF ap, of ?st] a by auto
  obtain es where 1: "events (snd (?T ?w)) = events ?w @ es"
    using keeps_markerD(3) [OF keeps_marker_tail, of ys env ?w] by auto
  have "events (snd (leave (?T ?w))) = events st @ (es0 @ LogPrintf (WarnBlocksFile p) # es)"
    using 0 1 by (simp add: leave_def emit_fields)
  then have "new_events st (snd (leave (?T ?w))) = es0 @ LogPrintf (WarnBlocksFile p) # es"
    by (rule new_events_append)
  then show "LogPrintf (WarnBlocksFile p) \<in> set (new_events st (snd (ThreadImport env st)))"
    unfolding t by simp
next
  show "fst (ThreadImport env st) = fst (ThreadImport (without_unopenable env) st)"
    using agreeD(1) [OF agree_ThreadImport refl] .
next
  show "hide_warnings (snd (ThreadImport env st))
        = hide_warnings (snd (ThreadImport (without_unopenable env) st))"
    using agreeD(2) [OF agree_ThreadImport refl] .
qed

theorem unopenable_source_is_skipped_witness:
  "bootstrap (quiet_env\<lparr> bootstrap := Unopenable,
       vImportFiles := [(''a.dat'', Readable False), (''b.dat'', Unopenable), (''c.dat'', Readable False)] \<rparr>)
     = Unopenable
   \<and> \<not> is_Readable Unopenable
   \<and> ThreadImport (quiet_env\<lparr> bootstrap := Unopenable,
       vImportFiles := [(''a.dat'', Readable False), (''b.dat'', Unopenable), (''c.dat'', Readable False)] \<rparr>)
        (import_start False)
      = (None, (import_start False)\<lparr> mempool_loaded := True, events :=
          [LogPrintf WarnBootstrap,
           LogPrintf (LogImportingFile ''a.dat''), LoadExternalBlockFile (LoadBlock ''a.dat''),
           LogPrintf (WarnBlocksFile ''b.dat''),
           LogPrintf (LogImportingFile ''c.dat''), LoadExternalBlockFile (LoadBlock ''c.dat''),
           ActivateBestChain, InitializeCurrentBlockTip, LogPrintf LogFillingCoinCache,
           GetListAtChainTip, LogPrintf LogFillingCoinCacheDone, AutoLockMasternodeCollaterals,
           LoadMempool, SetIsLoaded True] \<rparr>)
   \<and> LogPrintf WarnBootstrap \<in> set (new_events (import_start False)
        (snd (ThreadImport (quiet_env\<lparr> bootstrap := Unopenable,
           vImportFiles := [(''a.dat'', Readable False), (''b.dat'', Unopenable), (''c.dat'', Readable False)] \<rparr>)
          (import_start False))))
   \<and> LogPrintf (WarnBlocksFile ''b.dat'') \<in> set (new_events (import_start False)
        (snd (ThreadImport (quiet_env\<lparr> bootstrap := Unopenable,
           vImportFiles := [(''a.dat'', Readable False), (''b.dat'', Unopenable), (''c.dat'', Readable False)] \<rparr>)
          (import_start False))))"
proof -
  let ?env = "quiet_env\<lparr> bootstrap := Unopenable,
       vImportFiles := [(''a.dat'', Readable False), (''b.dat'', Unopenable), (''c.dat'', Readable False)] \<rparr>"
  let ?st = "import_start False"
  let ?s = "?st\<lparr> fImporting := True \<rparr>"
  let ?s' = "?st\<lparr> fImporting := True, events := [LogPrintf WarnBootstrap,
           LogPrintf (LogImportingFile ''a.dat''), LoadExternalBlockFile (LoadBlock ''a.dat'')] \<rparr>"
  have h1: "bootstrap ?env = Unopenable" by simp
  have h2: "\<not> is_Readable Unopenable" by simp
  have h3: "phase_reindex ?env ?s = (None, ?s)"
    by (simp add: phase_reindex_def import_start_def)
  have h4: "vImportFiles ?env = [(''a.dat'', Readable False)] @ (''b.dat'', Unopenable) # [(''c.dat'', Readable False)]"
    by simp
  have h5: "and_then (phase_reindex ?env)
              (and_then (phase_bootstrap ?env) (loadblock_loop [(''a.dat'', Readable False)])) ?s
            = (None, ?s')"
    by code_simp
  note t = unopenable_source_is_skipped [where env = ?env and st = ?st and s = ?s
      and xs = "[(''a.dat'', Readable False)]" and p = "''b.dat''" and f = Unopenable
      and ys = "[(''c.dat'', Readable False)]" and s' = ?s']
  have a: "ThreadImport ?env ?st =
        leave (and_then (loadblock_loop [(''c.dat'', Readable False)])
                 (and_then (phase_activate ?env) (phase_warmup ?env))
                 (emit [LogPrintf (WarnBlocksFile ''b.dat'')] ?s'))"
    using t h2 h4 h5 by blast
  have b: "LogPrintf WarnBootstrap \<in> set (new_events ?st (snd (ThreadImport ?env ?st)))"
    using t h1 h3 by blast
  have c: "LogPrintf (WarnBlocksFile ''b.dat'') \<in> set (new_events ?st (snd (ThreadImport ?env ?st)))"
    using t h2 h4 h5 by blast
  have d: "leave (and_then (loadblock_loop [(''c.dat'', Readable False)])
                 (and_then (phase_activate ?env) (phase_warmup ?env))
                 (emit [LogPrintf (WarnBlocksFile ''b.dat'')] ?s'))
      = (None, ?st\<lparr> mempool_loaded := True, events :=
          [LogPrintf WarnBootstrap,
           LogPrintf (LogImportingFile ''a.dat''), LoadExternalBlockFile (LoadBlock ''a.dat''),
           LogPrintf (WarnBlocksFile ''b.dat''),
           LogPrintf (LogImportingFile ''c.dat''), LoadExternalBlockFile (LoadBlock ''c.dat''),
           ActivateBestChain, InitializeCurrentBlockTip, LogPrintf LogFillingCoinCache,
           GetListAtChainTip, LogPrintf LogFillingCoinCacheDone, AutoLockMasternodeCollaterals,
           LoadMempool, SetIsLoaded True] \<rparr>)"
    by code_simp
  show ?thesis using h1 h2 a [unfolded d] b c by blast
qed

text \<open>
  The claim as first stated does not hold of every source that cannot be opened. With
  -loadblock=a.dat -loadblock=b.dat, where a shutdown request is seen after a.dat and
  b.dat cannot be opened, ThreadImport returns after a.dat: b.dat is not tried and no
  warning is logged for it.
\<close>

theorem unopenable_source_counterexample:
  "snd ([(''a.dat'', Readable True), (''b.dat'', Unopenable)] ! 1) = Unopenable
   \<and> ThreadImport (quiet_env\<lparr> vImportFiles := [(''a.dat'', Readable True), (''b.dat'', Unopenable)] \<rparr>)
        (import_start False)
      = (Some ShutdownObserved, (import_start False)\<lparr> fRequestShutdown := True, events :=
          [LogPrintf (LogImportingFile ''a.dat''), LoadExternalBlockFile (LoadBlock ''a.dat''),
           LogPrintf LogShutdownExit] \<rparr>)
   \<and> LogPrintf (WarnBlocksFile ''b.dat'') \<notin> set (events (snd
        (ThreadImport (quiet_env\<lparr> vImportFiles := [(''a.dat'', Readable True), (''b.dat'', Unopenable)] \<rparr>)
           (import_start False))))"
  by code_simp

subsection \<open>ActivateBestChain after the sources\<close>

text \<open>
  Claim C8. When the import sources are done without the function having left (no
  shutdown request seen after a file, no failed rename), ThreadImport calls
  ActivateBestChain next. If that fails it logs the failure, calls StartShutdown and
  returns: none of the later steps runs. When the function left during the sources,
  ActivateBestChain is not called.
\<close>

theorem activate_best_chain_failure_shuts_down:
  "case import_sources env (st\<lparr> fImporting := True \<rparr>) of
     (Some x, s) \<Rightarrow> ThreadImport env st = (Some x, s\<lparr> fImporting := False \<rparr>)
   | (None, s) \<Rightarrow>
       (if activate_ok env
        then take (Suc (length (events s))) (events (snd (ThreadImport env st)))
               = events s @ [ActivateBestChain]
           \<and> fst (ThreadImport env st) \<noteq> Some ActivateFailed
        else ThreadImport env st =
               (Some ActivateFailed,
                (emit [ActivateBestChain, LogPrintf LogFailedConnect, StartShutdown] s)
                   \<lparr> fRequestShutdown := True, fImporting := False \<rparr>))"
proof (cases "import_sources env (st\<lparr> fImporting := True \<rparr>)")
  case (Pair x s)
  show ?thesis
  proof (cases x)
    case (Some e)
    then show ?thesis using Pair by (simp add: ThreadImport_def and_then_def)
  next
    case None
    show ?thesis
    proof (cases "activate_ok env")
      case False
      then show ?thesis using Pair None
        by (simp add: ThreadImport_def and_then_def phase_activate_def Let_def emit_emit)
    next
      case True
      show ?thesis
      proof (cases "stopafterblockimport env")
        case True
        then show ?thesis using Pair None \<open>activate_ok env\<close>
          by (simp add: ThreadImport_def and_then_def phase_activate_def Let_def emit_def)
      next
        case False
        then show ?thesis using Pair None \<open>activate_ok env\<close>
          by (simp add: ThreadImport_def and_then_def phase_activate_def phase_warmup_def
                Let_def emit_def)
      qed
    qed
  qed
qed

theorem activate_best_chain_failure_shuts_down_witness:
  "import_sources (quiet_env\<lparr> vImportFiles := [(''a.dat'', Readable False)], activate_ok := False \<rparr>)
       ((import_start False)\<lparr> fImporting := True \<rparr>)
     = (None, (import_start False)\<lparr> fImporting := True, events :=
          [LogPrintf (LogImportingFile ''a.dat''), LoadExternalBlockFile (LoadBlock ''a.dat'')] \<rparr>)
   \<and> ThreadImport (quiet_env\<lparr> vImportFiles := [(''a.dat'', Readable False)], activate_ok := False \<rparr>)
       (import_start False)
     = (Some ActivateFailed, (import_start False)\<lparr> fRequestShutdown := True, events :=
          [LogPrintf (LogImportingFile ''a.dat''), LoadExternalBlockFile (LoadBlock ''a.dat''),
           ActivateBestChain, LogPrintf LogFailedConnect, StartShutdown] \<rparr>)"
proof -
  let ?env = "quiet_env\<lparr> vImportFiles := [(''a.dat'', Readable False)], activate_ok := False \<rparr>"
  have s: "import_sources ?env ((import_start False)\<lparr> fImporting := True \<rparr>)
     = (None, (import_start False)\<lparr> fImporting := True, events :=
          [LogPrintf (LogImportingFile ''a.dat''), LoadExternalBlockFile (LoadBlock ''a.dat'')] \<rparr>)"
    by (simp add: import_sources_def and_then_def phase_reindex_def phase_bootstrap_def
          quiet_env_def import_start_def emit_def replay_def Let_def)
  have n: "\<not> activate_ok ?env" by (simp add: quiet_env_def)
  show ?thesis
    using activate_best_chain_failure_shuts_down [of ?env "import_start False"] n
    unfolding s by (simp add: emit_def import_start_def)
qed

section \<open>Properties of the chain state load\<close>

lemma arrives_False: "arrives False st = st"
  unfolding arrives_def by simp

lemma arrives_fields:
  "fRequestShutdown (arrives sig st) = (fRequestShutdown st \<or> sig)"
  "fReindex (arrives sig st) = fReindex st"
  "disk_reindexing (arrives sig st) = disk_reindexing st"
  "events (arrives sig st) = events st"
  unfolding arrives_def by simp_all

lemma questions_emit:
  "questions (emit es st) = questions st + length (filter is_question es)"
  unfolding questions_def emit_def by simp

lemma attempts_emit:
  "attempts (emit es st) = attempts st + length (filter (\<lambda>e. e = MakeChainState) es)"
  unfolding attempts_def emit_def by simp

lemma count_updates:
  "questions (st\<lparr> fRequestShutdown := b \<rparr>) = questions st"
  "questions (st\<lparr> fReindex := b \<rparr>) = questions st"
  "questions (st\<lparr> disk_reindexing := b \<rparr>) = questions st"
  "attempts (st\<lparr> fRequestShutdown := b \<rparr>) = attempts st"
  "attempts (st\<lparr> fReindex := b \<rparr>) = attempts st"
  "attempts (st\<lparr> disk_reindexing := b \<rparr>) = attempts st"
  "questions (arrives sig st) = questions st"
  "attempts (arrives sig st) = attempts st"
  unfolding questions_def attempts_def arrives_def by simp_all

text \<open>Each phase of a pass: what it counts, and what it leaves of the reindexing marker.\<close>

lemma open_stores_counts:
  "questions (snd (open_stores cfg env fReset st)) = questions st"
  "attempts (snd (open_stores cfg env fReset st)) = attempts st + 1"
  unfolding open_stores_def Let_def
  by (simp_all add: questions_emit attempts_emit count_updates)

lemma open_stores_Some:
  "fst (open_stores cfg env fReset st) = Some s \<Longrightarrow> s = snd (open_stores cfg env fReset st)"
  unfolding open_stores_def Let_def by (simp split: if_splits)

lemma load_block_index_counts:
  "questions (snd (load_block_index cfg env st)) = questions st"
  "attempts (snd (load_block_index cfg env st)) = attempts st"
  unfolding load_block_index_def Let_def
  by (simp_all add: questions_emit attempts_emit count_updates)

lemma load_chainstate_counts:
  "questions (snd (load_chainstate cfg env fReset st)) = questions st"
  "attempts (snd (load_chainstate cfg env fReset st)) = attempts st"
  unfolding load_chainstate_def Let_def
  by (simp_all add: questions_emit attempts_emit count_updates)

lemma LoadAttempt_counts:
  "questions (snd (LoadAttempt cfg env fReset st)) = questions st"
  "attempts (snd (LoadAttempt cfg env fReset st)) = attempts st + 1"
proof -
  obtain o1 s1 where 1: "open_stores cfg env fReset st = (o1, s1)"
    by (cases "open_stores cfg env fReset st")
  obtain r2 s2 where 2: "load_block_index cfg env s1 = (r2, s2)"
    by (cases "load_block_index cfg env s1")
  obtain r3 s3 where 3: "load_chainstate cfg env fReset s2 = (r3, s3)"
    by (cases "load_chainstate cfg env fReset s2")
  have c1: "questions s1 = questions st" "attempts s1 = attempts st + 1"
    using open_stores_counts [of cfg env fReset st] 1 by simp_all
  have c2: "questions s2 = questions s1" "attempts s2 = attempts s1"
    using load_block_index_counts [of cfg env s1] 2 by simp_all
  have c3: "questions s3 = questions s2" "attempts s3 = attempts s2"
    using load_chainstate_counts [of cfg env fReset s2] 3 by simp_all
  show "questions (snd (LoadAttempt cfg env fReset st)) = questions st"
    using 1 2 3 c1 c2 c3 unfolding LoadAttempt_def
    by (simp split: option.splits sum.splits)
  show "attempts (snd (LoadAttempt cfg env fReset st)) = attempts st + 1"
    using 1 2 3 c1 c2 c3 unfolding LoadAttempt_def
    by (simp split: option.splits sum.splits)
qed

text \<open>One pass through the loop, by the way its body ends.\<close>

lemma load_loop_head:
  assumes "fRequestShutdown st \<or> sig_at_head (envs i)"
  shows "load_loop cfg envs i st = (ShutdownExit, arrives (sig_at_head (envs i)) st)"
  using assms by (subst load_loop.simps) (simp add: Let_def arrives_fields)

lemma load_loop_Returned:
  assumes "\<not> fRequestShutdown st" "\<not> sig_at_head (envs i)"
      and "LoadAttempt cfg (envs i) (fReindex st) st = (Returned e, sa)"
  shows "load_loop cfg envs i st = (InitError e, sa)"
  using assms by (subst load_loop.simps) (simp add: Let_def arrives_False)

lemma load_loop_Loaded:
  assumes "\<not> fRequestShutdown st" "\<not> sig_at_head (envs i)"
      and "LoadAttempt cfg (envs i) (fReindex st) st = (Loaded, sa)"
  shows "load_loop cfg envs i st =
           (if fRequestShutdown sa \<or> sig_after (envs i)
            then (ShutdownExit, arrives (sig_after (envs i)) sa)
            else (Proceed, sa))"
  using assms by (subst load_loop.simps) (auto simp add: Let_def arrives_False arrives_fields)

lemma load_loop_Broke:
  assumes "\<not> fRequestShutdown st" "\<not> sig_at_head (envs i)"
      and "LoadAttempt cfg (envs i) (fReindex st) st = (Broke e, sa)"
  shows "load_loop cfg envs i st =
           (if fRequestShutdown sa \<or> sig_after (envs i)
            then (ShutdownExit, arrives (sig_after (envs i)) sa)
            else if fReindex st then (InitError (ErrLoad e), sa)
            else if user_accepts (envs i)
            then load_loop cfg envs (i + 1)
                   ((emit [ThreadSafeQuestion e, AbortShutdown] sa)
                      \<lparr> fReindex := True, fRequestShutdown := False \<rparr>)
            else (RebuildDeclined, emit [ThreadSafeQuestion e] sa))"
  using assms
  by (subst load_loop.simps) (auto simp add: Let_def arrives_False arrives_fields emit_emit)

text \<open>With a reindex already requested, the loop makes one pass and asks nothing.\<close>

lemma load_loop_reindex_counts:
  assumes "fReindex st"
  shows "questions (snd (load_loop cfg envs i st)) = questions st
       \<and> attempts (snd (load_loop cfg envs i st)) \<le> attempts st + 1"
proof (cases "fRequestShutdown st \<or> sig_at_head (envs i)")
  case True
  then show ?thesis by (simp add: load_loop_head count_updates)
next
  case False
  then have h: "\<not> fRequestShutdown st" "\<not> sig_at_head (envs i)" by simp_all
  obtain r s1 where a: "LoadAttempt cfg (envs i) (fReindex st) st = (r, s1)"
    by (cases "LoadAttempt cfg (envs i) (fReindex st) st")
  have c: "questions s1 = questions st" "attempts s1 = attempts st + 1"
    using LoadAttempt_counts [of cfg "envs i" "fReindex st" st] a by simp_all
  show ?thesis
  proof (cases r)
    case Loaded
    then show ?thesis using load_loop_Loaded [where envs=envs and i=i and st=st and cfg=cfg and sa=s1] h a c by (simp add: count_updates)
  next
    case (Broke e)
    then show ?thesis using load_loop_Broke [where envs=envs and i=i and st=st and cfg=cfg and sa=s1 and e=e] h a c assms
      by (simp add: count_updates)
  next
    case (Returned e)
    then show ?thesis using load_loop_Returned [where envs=envs and i=i and st=st and cfg=cfg and sa=s1 and e=e] h a c by simp
  qed
qed

lemma load_loop_counts:
  "questions st \<le> questions (snd (load_loop cfg envs i st))
   \<and> questions (snd (load_loop cfg envs i st)) \<le> questions st + 1
   \<and> attempts (snd (load_loop cfg envs i st))
        \<le> attempts st + 1 + (questions (snd (load_loop cfg envs i st)) - questions st)
   \<and> (fReindex st \<longrightarrow> questions (snd (load_loop cfg envs i st)) = questions st)"
proof (cases "fReindex st")
  case True
  then show ?thesis using load_loop_reindex_counts [where st=st and cfg=cfg and envs=envs and i=i] by simp
next
  case nr: False
  show ?thesis
  proof (cases "fRequestShutdown st \<or> sig_at_head (envs i)")
    case True
    then show ?thesis using nr by (simp add: load_loop_head count_updates)
  next
    case False
    then have h: "\<not> fRequestShutdown st" "\<not> sig_at_head (envs i)" by simp_all
    obtain r s1 where a: "LoadAttempt cfg (envs i) (fReindex st) st = (r, s1)"
      by (cases "LoadAttempt cfg (envs i) (fReindex st) st")
    have c: "questions s1 = questions st" "attempts s1 = attempts st + 1"
      using LoadAttempt_counts [of cfg "envs i" "fReindex st" st] a by simp_all
    show ?thesis
    proof (cases r)
      case Loaded
      then show ?thesis using load_loop_Loaded [where envs=envs and i=i and st=st and cfg=cfg and sa=s1] h a c nr by (simp add: count_updates)
    next
      case (Returned e)
      then show ?thesis using load_loop_Returned [where envs=envs and i=i and st=st and cfg=cfg and sa=s1 and e=e] h a c nr by simp
    next
      case (Broke e)
      let ?s2 = "(emit [ThreadSafeQuestion e, AbortShutdown] s1)
                      \<lparr> fReindex := True, fRequestShutdown := False \<rparr>"
      have r2: "fReindex ?s2" by simp
      have c2: "questions ?s2 = questions st + 1" "attempts ?s2 = attempts st + 1"
        using c by (simp_all add: count_updates questions_emit attempts_emit)
      have ih: "questions (snd (load_loop cfg envs (i + 1) ?s2)) = questions st + 1"
         "attempts (snd (load_loop cfg envs (i + 1) ?s2)) \<le> attempts st + 2"
        using load_loop_reindex_counts [where st="?s2" and cfg=cfg and envs=envs and i="i + 1"] r2 c2 by simp_all
      show ?thesis
        using load_loop_Broke [where envs=envs and i=i and st=st and cfg=cfg and sa=s1 and e=e] h Broke a c nr ih
        by (simp add: count_updates questions_emit attempts_emit)
    qed
  qed
qed

subsection \<open>The rebuild question\<close>

text \<open>
  Claim C4, as amended. The load loop asks the user at most once, and only when the
  failed pass was not a reindex; it makes a second pass only after that question was
  accepted, so nothing else in the load is retried. When a pass ends with a load error:
  if a shutdown request is pending after the pass, no question is asked and startup
  ends; otherwise, if the pass was a reindex the error is returned through InitError
  with no question; otherwise the user is asked once, declining ends startup, and
  accepting sets fReindex and runs the loop again, whose pass is then a reindex. So when
  the retry fails again, no shutdown being requested, its error is returned and the user
  has still been asked exactly once. A pass that ends in one of the direct InitError
  returns (lines 1999 to 2012) ends startup with that error and no question.
\<close>

theorem reindex_retry_offered_once:
  "questions (snd (load_loop cfg envs i st)) \<le> questions st + 1
   \<and> attempts (snd (load_loop cfg envs i st))
        \<le> attempts st + 1 + (questions (snd (load_loop cfg envs i st)) - questions st)
   \<and> (fReindex st \<longrightarrow> questions (snd (load_loop cfg envs i st)) = questions st)
   \<and> (\<not> fRequestShutdown st \<and> \<not> sig_at_head (envs i)
        \<and> LoadAttempt cfg (envs i) (fReindex st) st = (Broke e, s1) \<longrightarrow>
        load_loop cfg envs i st =
          (if fRequestShutdown s1 \<or> sig_after (envs i)
           then (ShutdownExit, arrives (sig_after (envs i)) s1)
           else if fReindex st then (InitError (ErrLoad e), s1)
           else if user_accepts (envs i)
           then load_loop cfg envs (i + 1)
                  ((emit [ThreadSafeQuestion e, AbortShutdown] s1)
                     \<lparr> fReindex := True, fRequestShutdown := False \<rparr>)
           else (RebuildDeclined, emit [ThreadSafeQuestion e] s1)))
   \<and> (\<not> fRequestShutdown st \<and> \<not> sig_at_head (envs i)
        \<and> LoadAttempt cfg (envs i) (fReindex st) st = (Returned r, s1) \<longrightarrow>
        load_loop cfg envs i st = (InitError r, s1))
   \<and> (\<not> fRequestShutdown st \<and> \<not> sig_at_head (envs i) \<and> \<not> fReindex st
        \<and> LoadAttempt cfg (envs i) False st = (Broke e, s1)
        \<and> \<not> fRequestShutdown s1 \<and> \<not> sig_after (envs i) \<and> user_accepts (envs i)
        \<and> \<not> sig_at_head (envs (i + 1))
        \<and> LoadAttempt cfg (envs (i + 1)) True
             ((emit [ThreadSafeQuestion e, AbortShutdown] s1)
                \<lparr> fReindex := True, fRequestShutdown := False \<rparr>) = (Broke e2, s2)
        \<and> \<not> fRequestShutdown s2 \<and> \<not> sig_after (envs (i + 1)) \<longrightarrow>
        load_loop cfg envs i st = (InitError (ErrLoad e2), s2)
        \<and> questions s2 = questions st + 1)"
proof (intro conjI impI)
  show "questions (snd (load_loop cfg envs i st)) \<le> questions st + 1"
    using load_loop_counts [where cfg=cfg and envs=envs and i=i and st=st] by simp
  show "attempts (snd (load_loop cfg envs i st))
        \<le> attempts st + 1 + (questions (snd (load_loop cfg envs i st)) - questions st)"
    using load_loop_counts [where cfg=cfg and envs=envs and i=i and st=st] by blast
  show "questions (snd (load_loop cfg envs i st)) = questions st" if "fReindex st"
    using that load_loop_counts [where cfg=cfg and envs=envs and i=i and st=st] by simp
next
  assume a: "\<not> fRequestShutdown st \<and> \<not> sig_at_head (envs i)
        \<and> LoadAttempt cfg (envs i) (fReindex st) st = (Broke e, s1)"
  show "load_loop cfg envs i st =
          (if fRequestShutdown s1 \<or> sig_after (envs i)
           then (ShutdownExit, arrives (sig_after (envs i)) s1)
           else if fReindex st then (InitError (ErrLoad e), s1)
           else if user_accepts (envs i)
           then load_loop cfg envs (i + 1)
                  ((emit [ThreadSafeQuestion e, AbortShutdown] s1)
                     \<lparr> fReindex := True, fRequestShutdown := False \<rparr>)
           else (RebuildDeclined, emit [ThreadSafeQuestion e] s1))"
    using a by (intro load_loop_Broke) simp_all
next
  assume a: "\<not> fRequestShutdown st \<and> \<not> sig_at_head (envs i)
        \<and> LoadAttempt cfg (envs i) (fReindex st) st = (Returned r, s1)"
  show "load_loop cfg envs i st = (InitError r, s1)"
    using a by (intro load_loop_Returned) simp_all
next
  let ?r = "(emit [ThreadSafeQuestion e, AbortShutdown] s1)
                \<lparr> fReindex := True, fRequestShutdown := False \<rparr>"
  assume a: "\<not> fRequestShutdown st \<and> \<not> sig_at_head (envs i) \<and> \<not> fReindex st
        \<and> LoadAttempt cfg (envs i) False st = (Broke e, s1)
        \<and> \<not> fRequestShutdown s1 \<and> \<not> sig_after (envs i) \<and> user_accepts (envs i)
        \<and> \<not> sig_at_head (envs (i + 1))
        \<and> LoadAttempt cfg (envs (i + 1)) True ?r = (Broke e2, s2)
        \<and> \<not> fRequestShutdown s2 \<and> \<not> sig_after (envs (i + 1))"
  have 1: "load_loop cfg envs i st = load_loop cfg envs (i + 1) ?r"
    using a load_loop_Broke [where envs=envs and i=i and st=st and cfg=cfg and sa=s1 and e=e]
    by simp
  have 2: "load_loop cfg envs (i + 1) ?r = (InitError (ErrLoad e2), s2)"
    using a load_loop_Broke [where envs=envs and i="i + 1" and st="?r" and cfg=cfg and sa=s2 and e=e2]
    by simp
  have q1: "questions s1 = questions st"
    using a LoadAttempt_counts(1) [of cfg "envs i" False st] by simp
  have q2: "questions s2 = questions ?r"
    using a LoadAttempt_counts(1) [of cfg "envs (i + 1)" True ?r] by simp
  have q3: "questions ?r = questions s1 + 1"
    by (simp add: count_updates questions_emit)
  show "load_loop cfg envs i st = (InitError (ErrLoad e2), s2)" using 1 2 by simp
  show "questions s2 = questions st + 1" using q1 q2 q3 by simp
qed

theorem reindex_retry_offered_once_witness:
  "\<not> fRequestShutdown load_start \<and> \<not> sig_at_head (rebuild_failing 0) \<and> \<not> fReindex load_start
   \<and> fst (LoadAttempt plain_config (rebuild_failing 0) False load_start) = Broke ErrCorruptedBlockDB
   \<and> user_accepts (rebuild_failing 0)
   \<and> fst (load_loop plain_config rebuild_failing 0 load_start) = InitError (ErrLoad ErrLoadingBlockDB)
   \<and> questions (snd (load_loop plain_config rebuild_failing 0 load_start)) = questions load_start + 1"
proof -
  let ?s1 = "\<lparr> fReindex = False, disk_reindexing = False, fRequestShutdown = False,
     fImporting = False, mempool_loaded = False,
     events = [MakeChainState, OpenBlockTreeDB False, OpenEvoDB False, InitLLMQSystem False,
               LoadBlockIndex, LoadGenesisBlock, InitCoinsDB False, VerifyDB] \<rparr>"
  let ?r = "(emit [ThreadSafeQuestion ErrCorruptedBlockDB, AbortShutdown] ?s1)
                \<lparr> fReindex := True, fRequestShutdown := False \<rparr>"
  let ?s2 = "\<lparr> fReindex = True, disk_reindexing = True, fRequestShutdown = False,
     fImporting = False, mempool_loaded = False,
     events = [MakeChainState, OpenBlockTreeDB False, OpenEvoDB False, InitLLMQSystem False,
               LoadBlockIndex, LoadGenesisBlock, InitCoinsDB False, VerifyDB,
               ThreadSafeQuestion ErrCorruptedBlockDB, AbortShutdown,
               MakeChainState, OpenBlockTreeDB True, OpenEvoDB True, InitLLMQSystem True,
               WriteReindexing True, LoadBlockIndex] \<rparr>"
  have a1: "LoadAttempt plain_config (rebuild_failing 0) False load_start
              = (Broke ErrCorruptedBlockDB, ?s1)"
    by code_simp
  have a2: "LoadAttempt plain_config (rebuild_failing (0 + 1)) True ?r = (Broke ErrLoadingBlockDB, ?s2)"
    by code_simp
  have f: "\<not> fRequestShutdown ?s1" "\<not> fRequestShutdown ?s2" by simp_all
  have h: "\<not> fRequestShutdown load_start" "\<not> fReindex load_start"
     "\<not> sig_at_head (rebuild_failing 0)" "\<not> sig_after (rebuild_failing 0)"
     "user_accepts (rebuild_failing 0)" "\<not> sig_at_head (rebuild_failing (0 + 1))"
     "\<not> sig_after (rebuild_failing (0 + 1))"
    by (simp_all add: load_start_def rebuild_failing_def corrupted_pass_def fresh_pass_def good_pass_def)
  have "load_loop plain_config rebuild_failing 0 load_start = (InitError (ErrLoad ErrLoadingBlockDB), ?s2)
        \<and> questions ?s2 = questions load_start + 1"
    using reindex_retry_offered_once [where cfg=plain_config and envs=rebuild_failing and i=0
        and st=load_start and e=ErrCorruptedBlockDB and ?s1.0="?s1" and ?e2.0=ErrLoadingBlockDB
        and ?s2.0="?s2"] a1 f a2 h
    by blast
  then show ?thesis using h a1 by simp
qed

text \<open>
  The claim as first stated does not hold when a shutdown request is pending after the
  failed pass: the database is found corrupted by a pass that was not a reindex, the
  request has arrived by line 2143, and the loop ends without having asked anything.
\<close>

theorem reindex_retry_counterexample:
  "\<not> fReindex load_start
   \<and> fst (LoadAttempt plain_config (shutdown_pending 0) (fReindex load_start) load_start)
       = Broke ErrCorruptedBlockDB
   \<and> fst (load_loop plain_config shutdown_pending 0 load_start) = ShutdownExit
   \<and> questions (snd (load_loop plain_config shutdown_pending 0 load_start)) = 0"
  by code_simp

subsection \<open>Persisted flags that differ from the requested ones\<close>

lemma open_stores_flag:
  "fRequestShutdown (snd (open_stores cfg env fReset st)) = fRequestShutdown st"
  unfolding open_stores_def Let_def by (simp add: emit_fields)

lemma open_stores_NoThrow:
  "throws env = NoThrow \<Longrightarrow> fst (open_stores cfg env fReset st) \<noteq> None"
  unfolding open_stores_def Let_def by simp

lemma open_stores_wipe:
  "fst (open_stores cfg env fReset st) \<noteq> None \<Longrightarrow>
   OpenBlockTreeDB fReset \<in> set (events (snd (open_stores cfg env fReset st)))"
  unfolding open_stores_def Let_def by (simp add: emit_fields split: if_splits)

lemma load_block_index_events:
  "x \<in> set (events st) \<Longrightarrow> x \<in> set (events (snd (load_block_index cfg env st)))"
  unfolding load_block_index_def Let_def by (simp add: emit_fields arrives_fields)

lemma load_chainstate_events:
  "x \<in> set (events st) \<Longrightarrow> x \<in> set (events (snd (load_chainstate cfg env fReset st)))"
  unfolding load_chainstate_def Let_def by (simp add: emit_fields)

text \<open>With a mismatch, the checks after LoadBlockIndex end the body, and not with fLoaded.\<close>

lemma load_block_index_mismatch:
  assumes "flag_mismatch cfg env"
  shows "\<exists>r. fst (load_block_index cfg env st) = Inl r \<and> r \<noteq> Loaded"
  using assms unfolding load_block_index_def flag_mismatch_def Let_def by auto

lemma LoadAttempt_mismatch:
  assumes "flag_mismatch cfg env"
  shows "fst (LoadAttempt cfg env fReset st) \<noteq> Loaded"
proof -
  obtain o1 s1 where 1: "open_stores cfg env fReset st = (o1, s1)"
    by (cases "open_stores cfg env fReset st")
  obtain r2 s2 where 2: "load_block_index cfg env s1 = (r2, s2)"
    by (cases "load_block_index cfg env s1")
  obtain r where 3: "r2 = Inl r" "r \<noteq> Loaded"
    using load_block_index_mismatch [OF assms, of s1] 2 by auto
  show ?thesis using 1 2 3 unfolding LoadAttempt_def by (simp split: option.splits)
qed

lemma load_block_index_rebuild:
  assumes "flag_mismatch cfg env" "reaches_flag_check cfg env st"
  shows "load_block_index cfg env st
           = (Inl (Broke (if fAddressIndex env \<noteq> addressindex cfg then ErrRebuildAddressIndex
                          else if fTimestampIndex env \<noteq> timestampindex cfg then ErrRebuildTimestampIndex
                          else if fSpentIndex env \<noteq> spentindex cfg then ErrRebuildSpentIndex
                          else ErrRebuildUnpruned)),
              (arrives (sig_during_load env) (emit [LoadBlockIndex] st))
                 \<lparr> fReindex := loaded_fReindex env \<rparr>)"
  using assms
  unfolding load_block_index_def flag_mismatch_def reaches_flag_check_def Let_def
  by (simp add: arrives_False) blast

lemma LoadAttempt_rebuild:
  assumes "flag_mismatch cfg env" "reaches_flag_check cfg env st"
  shows "fst (LoadAttempt cfg env fReset st)
           = Broke (if fAddressIndex env \<noteq> addressindex cfg then ErrRebuildAddressIndex
                    else if fTimestampIndex env \<noteq> timestampindex cfg then ErrRebuildTimestampIndex
                    else if fSpentIndex env \<noteq> spentindex cfg then ErrRebuildSpentIndex
                    else ErrRebuildUnpruned)"
    and "fRequestShutdown (snd (LoadAttempt cfg env fReset st)) = sig_during_load env"
proof -
  obtain o1 s1 where 1: "open_stores cfg env fReset st = (o1, s1)"
    by (cases "open_stores cfg env fReset st")
  have n: "throws env = NoThrow" "\<not> fRequestShutdown st"
    using assms(2) by (simp_all add: reaches_flag_check_def)
  have "o1 \<noteq> None" using open_stores_NoThrow [OF n(1), of cfg fReset st] 1 by simp
  then obtain x where o: "o1 = Some x" by blast
  have f: "\<not> fRequestShutdown s1" using open_stores_flag [of cfg env fReset st] 1 n by simp
  have r: "reaches_flag_check cfg env s1"
    using assms(2) f by (simp add: reaches_flag_check_def)
  note 2 = load_block_index_rebuild [OF assms(1) r]
  show "fst (LoadAttempt cfg env fReset st)
           = Broke (if fAddressIndex env \<noteq> addressindex cfg then ErrRebuildAddressIndex
                    else if fTimestampIndex env \<noteq> timestampindex cfg then ErrRebuildTimestampIndex
                    else if fSpentIndex env \<noteq> spentindex cfg then ErrRebuildSpentIndex
                    else ErrRebuildUnpruned)"
    unfolding LoadAttempt_def 1 o by (simp add: 2)
  show "fRequestShutdown (snd (LoadAttempt cfg env fReset st)) = sig_during_load env"
    using f unfolding LoadAttempt_def 1 o
    by (simp add: 2 arrives_fields emit_fields)
qed

lemma rebuild_required_first:
  "rebuild_required (if a then ErrRebuildAddressIndex
                     else if b then ErrRebuildTimestampIndex
                     else if c then ErrRebuildSpentIndex
                     else ErrRebuildUnpruned)"
  by (simp add: rebuild_required_def)

lemma LoadAttempt_Loaded_wiped:
  assumes "LoadAttempt cfg env fReset st = (Loaded, s)"
  shows "OpenBlockTreeDB fReset \<in> set (events s)"
proof -
  obtain o1 s1 where 1: "open_stores cfg env fReset st = (o1, s1)"
    by (cases "open_stores cfg env fReset st")
  obtain r2 s2 where 2: "load_block_index cfg env s1 = (r2, s2)"
    by (cases "load_block_index cfg env s1")
  obtain r3 s3 where 3: "load_chainstate cfg env fReset s2 = (r3, s3)"
    by (cases "load_chainstate cfg env fReset s2")
  have o: "o1 \<noteq> None" using assms 1 unfolding LoadAttempt_def by (auto split: option.splits)
  have w: "OpenBlockTreeDB fReset \<in> set (events s1)"
    using open_stores_wipe [of cfg env fReset st] 1 o by simp
  have e2: "OpenBlockTreeDB fReset \<in> set (events s2)"
    using load_block_index_events [OF w, of cfg env] 2 by simp
  have e3: "OpenBlockTreeDB fReset \<in> set (events s3)"
    using load_chainstate_events [OF e2, of cfg env fReset] 3 by simp
  have "s = s3 \<or> s = s2"
    using assms 1 2 3 o unfolding LoadAttempt_def by (auto split: option.splits sum.splits)
  then show ?thesis using e2 e3 by auto
qed

text \<open>When a reindex is requested, the loop goes on only if its one pass loaded.\<close>

lemma load_loop_reindex_Proceed:
  assumes "fReindex st" "fst (load_loop cfg envs i st) = Proceed"
  shows "LoadAttempt cfg (envs i) True st = (Loaded, snd (load_loop cfg envs i st))"
proof (cases "fRequestShutdown st \<or> sig_at_head (envs i)")
  case True
  then show ?thesis using assms(2) by (simp add: load_loop_head)
next
  case False
  then have h: "\<not> fRequestShutdown st" "\<not> sig_at_head (envs i)" by simp_all
  obtain r s1 where a: "LoadAttempt cfg (envs i) (fReindex st) st = (r, s1)"
    by (cases "LoadAttempt cfg (envs i) (fReindex st) st")
  show ?thesis
  proof (cases r)
    case Loaded
    then show ?thesis
      using load_loop_Loaded [where envs=envs and i=i and st=st and cfg=cfg and sa=s1] h a assms
      by (simp split: if_splits)
  next
    case (Broke e)
    then show ?thesis
      using load_loop_Broke [where envs=envs and i=i and st=st and cfg=cfg and sa=s1 and e=e] h a assms
      by (simp split: if_splits)
  next
    case (Returned e)
    then show ?thesis
      using load_loop_Returned [where envs=envs and i=i and st=st and cfg=cfg and sa=s1 and e=e] h a assms
      by simp
  qed
qed

lemma load_loop_Proceed:
  assumes "fst (load_loop cfg envs i st) = Proceed"
  shows "\<not> flag_mismatch cfg (envs i) \<or>
        (\<not> fReindex st \<and> user_accepts (envs i) \<and> \<not> flag_mismatch cfg (envs (i + 1)) \<and>
         OpenBlockTreeDB True \<in> set (events (snd (load_loop cfg envs i st))))"
proof (cases "fRequestShutdown st \<or> sig_at_head (envs i)")
  case True
  then show ?thesis using assms by (simp add: load_loop_head)
next
  case False
  then have h: "\<not> fRequestShutdown st" "\<not> sig_at_head (envs i)" by simp_all
  obtain r s1 where a: "LoadAttempt cfg (envs i) (fReindex st) st = (r, s1)"
    by (cases "LoadAttempt cfg (envs i) (fReindex st) st")
  show ?thesis
  proof (cases r)
    case Loaded
    then have "\<not> flag_mismatch cfg (envs i)"
      using LoadAttempt_mismatch [of cfg "envs i" "fReindex st" st] a by auto
    then show ?thesis by simp
  next
    case (Returned e)
    then show ?thesis
      using load_loop_Returned [where envs=envs and i=i and st=st and cfg=cfg and sa=s1 and e=e] h a assms
      by simp
  next
    case (Broke e)
    let ?r = "(emit [ThreadSafeQuestion e, AbortShutdown] s1)
                      \<lparr> fReindex := True, fRequestShutdown := False \<rparr>"
    have b: "load_loop cfg envs i st =
           (if fRequestShutdown s1 \<or> sig_after (envs i)
            then (ShutdownExit, arrives (sig_after (envs i)) s1)
            else if fReindex st then (InitError (ErrLoad e), s1)
            else if user_accepts (envs i) then load_loop cfg envs (i + 1) ?r
            else (RebuildDeclined, emit [ThreadSafeQuestion e] s1))"
      using load_loop_Broke [where envs=envs and i=i and st=st and cfg=cfg and sa=s1 and e=e] h a Broke
      by simp
    have c: "\<not> fReindex st" "user_accepts (envs i)"
       "load_loop cfg envs i st = load_loop cfg envs (i + 1) ?r"
      using assms b by (auto split: if_splits)
    have p: "fst (load_loop cfg envs (i + 1) ?r) = Proceed" using assms c(3) by simp
    have r: "fReindex ?r" by simp
    have l: "LoadAttempt cfg (envs (i + 1)) True ?r = (Loaded, snd (load_loop cfg envs (i + 1) ?r))"
      using load_loop_reindex_Proceed [where st="?r" and cfg=cfg and envs=envs and i="i + 1"] r p
      by blast
    have m: "\<not> flag_mismatch cfg (envs (i + 1))"
      using LoadAttempt_mismatch [of cfg "envs (i + 1)" True ?r] l by auto
    have w: "OpenBlockTreeDB True \<in> set (events (snd (load_loop cfg envs (i + 1) ?r)))"
      using LoadAttempt_Loaded_wiped [OF l] .
    show ?thesis using c m w by simp
  qed
qed

text \<open>
  Claim C2, as amended. A pass of the load in which a persisted flag (address index,
  timestamp index, spent index) differs from the requested one, or in which blocks were
  pruned and pruning is now off, never ends loaded. When the pass gets as far as the
  comparison it ends with the rebuild-required error of the first check that fails, in
  the order address index, timestamp index, spent index, pruning. Startup then ends if
  a shutdown request has arrived; otherwise it returns that error if the pass was a
  reindex, ends if the user declines the rebuild, and runs the load again as a reindex if
  the user accepts. Startup goes on past the load only if the pass that loaded had no
  mismatch; after a mismatch that is only possible through the rebuild the user accepted,
  which opens the block tree store wiped.
\<close>

theorem flag_mismatch_requires_rebuild:
  "let env = envs i;
       e = (if fAddressIndex env \<noteq> addressindex cfg then ErrRebuildAddressIndex
            else if fTimestampIndex env \<noteq> timestampindex cfg then ErrRebuildTimestampIndex
            else if fSpentIndex env \<noteq> spentindex cfg then ErrRebuildSpentIndex
            else ErrRebuildUnpruned);
       s1 = snd (LoadAttempt cfg env (fReindex st) st)
   in (flag_mismatch cfg env \<longrightarrow> fst (LoadAttempt cfg env fReset st) \<noteq> Loaded)
    \<and> (flag_mismatch cfg env \<and> reaches_flag_check cfg env st \<longrightarrow>
         fst (LoadAttempt cfg env fReset st) = Broke e \<and> rebuild_required e)
    \<and> (flag_mismatch cfg env \<and> reaches_flag_check cfg env st \<and> \<not> sig_at_head env \<longrightarrow>
         load_loop cfg envs i st =
           (if sig_during_load env \<or> sig_after env
            then (ShutdownExit, arrives (sig_after env) s1)
            else if fReindex st then (InitError (ErrLoad e), s1)
            else if user_accepts env
            then load_loop cfg envs (i + 1)
                   ((emit [ThreadSafeQuestion e, AbortShutdown] s1)
                      \<lparr> fReindex := True, fRequestShutdown := False \<rparr>)
            else (RebuildDeclined, emit [ThreadSafeQuestion e] s1)))
    \<and> (fst (load_loop cfg envs i st) = Proceed \<longrightarrow>
         \<not> flag_mismatch cfg env \<or>
         (\<not> fReindex st \<and> user_accepts env \<and> \<not> flag_mismatch cfg (envs (i + 1)) \<and>
          OpenBlockTreeDB True \<in> set (events (snd (load_loop cfg envs i st)))))"
proof -
  define env where "env = envs i"
  define e where "e = (if fAddressIndex env \<noteq> addressindex cfg then ErrRebuildAddressIndex
            else if fTimestampIndex env \<noteq> timestampindex cfg then ErrRebuildTimestampIndex
            else if fSpentIndex env \<noteq> spentindex cfg then ErrRebuildSpentIndex
            else ErrRebuildUnpruned)"
  define s1 where "s1 = snd (LoadAttempt cfg env (fReindex st) st)"
  have 1: "fst (LoadAttempt cfg env fReset st) \<noteq> Loaded" if "flag_mismatch cfg env"
    using that by (rule LoadAttempt_mismatch)
  have 2: "fst (LoadAttempt cfg env fReset st) = Broke e \<and> rebuild_required e"
    if "flag_mismatch cfg env \<and> reaches_flag_check cfg env st"
    using that LoadAttempt_rebuild(1) [of cfg env st fReset] rebuild_required_first
    unfolding e_def by simp
  have 3: "load_loop cfg envs i st =
           (if sig_during_load env \<or> sig_after env
            then (ShutdownExit, arrives (sig_after env) s1)
            else if fReindex st then (InitError (ErrLoad e), s1)
            else if user_accepts env
            then load_loop cfg envs (i + 1)
                   ((emit [ThreadSafeQuestion e, AbortShutdown] s1)
                      \<lparr> fReindex := True, fRequestShutdown := False \<rparr>)
            else (RebuildDeclined, emit [ThreadSafeQuestion e] s1))"
    if a: "flag_mismatch cfg env \<and> reaches_flag_check cfg env st \<and> \<not> sig_at_head env"
  proof -
    have b: "fst (LoadAttempt cfg env (fReindex st) st) = Broke e"
      using a LoadAttempt_rebuild(1) [of cfg env st "fReindex st"] unfolding e_def by simp
    have c: "fRequestShutdown s1 = sig_during_load env"
      using a LoadAttempt_rebuild(2) [of cfg env st "fReindex st"] unfolding s1_def by simp
    have d: "LoadAttempt cfg (envs i) (fReindex st) st = (Broke e, s1)"
      using b unfolding s1_def env_def by (simp add: prod_eq_iff)
    have h: "\<not> fRequestShutdown st" "\<not> sig_at_head (envs i)"
      using a by (simp_all add: reaches_flag_check_def env_def)
    show ?thesis
      using load_loop_Broke [where envs=envs and i=i and st=st and cfg=cfg and sa=s1 and e=e,
          OF h d] c
      unfolding env_def by simp
  qed
  have 4: "\<not> flag_mismatch cfg env \<or>
         (\<not> fReindex st \<and> user_accepts env \<and> \<not> flag_mismatch cfg (envs (i + 1)) \<and>
          OpenBlockTreeDB True \<in> set (events (snd (load_loop cfg envs i st))))"
    if "fst (load_loop cfg envs i st) = Proceed"
    using that unfolding env_def by (rule load_loop_Proceed)
  show ?thesis
    unfolding Let_def env_def [symmetric] e_def [symmetric] s1_def [symmetric]
    using 1 2 3 4 by blast
qed

theorem flag_mismatch_requires_rebuild_witness:
  "flag_mismatch plain_config (rebuild_accepted 0)
   \<and> reaches_flag_check plain_config (rebuild_accepted 0) load_start
   \<and> \<not> sig_at_head (rebuild_accepted 0)
   \<and> fst (LoadAttempt plain_config (rebuild_accepted 0) False load_start) = Broke ErrRebuildAddressIndex
   \<and> rebuild_required ErrRebuildAddressIndex
   \<and> load_loop plain_config rebuild_accepted 0 load_start
       = load_loop plain_config rebuild_accepted (0 + 1)
           ((emit [ThreadSafeQuestion ErrRebuildAddressIndex, AbortShutdown]
               (snd (LoadAttempt plain_config (rebuild_accepted 0) (fReindex load_start) load_start)))
              \<lparr> fReindex := True, fRequestShutdown := False \<rparr>)
   \<and> fst (load_loop plain_config rebuild_accepted 0 load_start) = Proceed
   \<and> OpenBlockTreeDB True \<in> set (events (snd (load_loop plain_config rebuild_accepted 0 load_start)))"
proof -
  have m: "flag_mismatch plain_config (rebuild_accepted 0)" by code_simp
  have r: "reaches_flag_check plain_config (rebuild_accepted 0) load_start" by code_simp
  have h: "\<not> sig_at_head (rebuild_accepted 0)" by code_simp
  have p: "fst (load_loop plain_config rebuild_accepted 0 load_start) = Proceed" by code_simp
  have v: "fAddressIndex (rebuild_accepted 0) \<noteq> addressindex plain_config"
     "\<not> sig_during_load (rebuild_accepted 0)" "\<not> sig_after (rebuild_accepted 0)"
     "\<not> fReindex load_start" "user_accepts (rebuild_accepted 0)"
    by (simp_all add: rebuild_accepted_def mismatch_pass_def good_pass_def plain_config_def
          load_start_def)
  note t = flag_mismatch_requires_rebuild [where cfg=plain_config and fReset=False
      and st=load_start and envs=rebuild_accepted and i=0, unfolded Let_def]
  have 1: "fst (LoadAttempt plain_config (rebuild_accepted 0) False load_start) = Broke ErrRebuildAddressIndex"
     "rebuild_required ErrRebuildAddressIndex"
    using t m r v(1) by simp_all
  have 2: "load_loop plain_config rebuild_accepted 0 load_start
       = load_loop plain_config rebuild_accepted (0 + 1)
           ((emit [ThreadSafeQuestion ErrRebuildAddressIndex, AbortShutdown]
               (snd (LoadAttempt plain_config (rebuild_accepted 0) (fReindex load_start) load_start)))
              \<lparr> fReindex := True, fRequestShutdown := False \<rparr>)"
    using t m r h v by simp
  have 3: "OpenBlockTreeDB True \<in> set (events (snd (load_loop plain_config rebuild_accepted 0 load_start)))"
    using t m p by blast
  show ?thesis using m r h p 1 2 3 by blast
qed

text \<open>
  Claim C2 as stated fails: with a changed -addressindex, a user who accepts the rebuild
  question and a rebuild that loads, startup does not fail but goes on.
\<close>

theorem flag_mismatch_rebuild_counterexample:
  "flag_mismatch plain_config (rebuild_accepted 0)
   \<and> fst (load_loop plain_config rebuild_accepted 0 load_start) = Proceed"
  by code_simp

subsection \<open>The reindexing marker\<close>



lemma open_stores_None:
  "(fst (open_stores cfg env fReset st) = None)
     = (throws env = ThrowOpenBlockTree \<or> throws env = ThrowOpenEvoDB)"
  unfolding open_stores_def Let_def by simp














section \<open>Properties of the teardown\<close>

lemma dumped_append: "dumped (xs @ ys) = dumped xs @ dumped ys"
  by (induction xs rule: dumped.induct) simp_all

lemma dumped_ClientFlush: "dumped (map ClientFlush xs) = []"
  by (induction xs) simp_all

lemma dumped_ClientStop: "dumped (map ClientStop xs) = []"
  by (induction xs) simp_all

lemma dumped_FilterIndexStop: "dumped (map FilterIndexStop xs) = []"
  by (induction xs) simp_all

lemma leaves_snapshotsI:
  assumes "\<And>st. \<exists>cs. calls (f st) = calls st @ cs \<and> dumped cs = []"
      and "\<And>st. snapshots (f st) = snapshots st"
      and "\<And>st. mmetaman (f st) = mmetaman st" "\<And>st. netfulfilledman (f st) = netfulfilledman st"
      and "\<And>st. sporkManager (f st) = sporkManager st" "\<And>st. governance (f st) = governance st"
  shows "leaves_snapshots f"
  unfolding leaves_snapshots_def using assms by blast

lemma leaves_snapshotsD:
  assumes "leaves_snapshots f"
  shows "\<exists>cs. calls (f st) = calls st @ cs \<and> dumped cs = []"
    and "snapshots (f st) = snapshots st"
    and "mmetaman (f st) = mmetaman st" "netfulfilledman (f st) = netfulfilledman st"
    and "sporkManager (f st) = sporkManager st" "governance (f st) = governance st"
  using assms unfolding leaves_snapshots_def by blast+

lemma leaves_snapshots_comp:
  assumes "leaves_snapshots f" "leaves_snapshots g"
  shows "leaves_snapshots (\<lambda>st. g (f st))"
proof (rule leaves_snapshotsI)
  fix st
  obtain cs where 1: "calls (f st) = calls st @ cs" "dumped cs = []"
    using leaves_snapshotsD(1) [OF assms(1), of st] by blast
  obtain ds where 2: "calls (g (f st)) = calls (f st) @ ds" "dumped ds = []"
    using leaves_snapshotsD(1) [OF assms(2), of "f st"] by blast
  have "calls (g (f st)) = calls st @ (cs @ ds) \<and> dumped (cs @ ds) = []"
    using 1 2 by (simp add: dumped_append)
  then show "\<exists>cs. calls (g (f st)) = calls st @ cs \<and> dumped cs = []" by blast
qed (simp_all add: leaves_snapshotsD(2-6) [OF assms(1)] leaves_snapshotsD(2-6) [OF assms(2)])

lemma leaves_snapshots_call: "dumped cs = [] \<Longrightarrow> leaves_snapshots (call cs)"
  by (rule leaves_snapshotsI) (simp_all add: call_def)




lemma leaves_snapshots_stop_services: "leaves_snapshots (stop_services env)"
  by (rule leaves_snapshotsI) (simp_all add: stop_services_def Let_def call_def)

lemma leaves_snapshots_stop_network: "leaves_snapshots stop_network"
  by (rule leaves_snapshotsI)
     (simp_all add: stop_network_def Let_def call_def dumped_append dumped_ClientFlush
        dumped_FilterIndexStop)

lemma leaves_snapshots_reset_network: "leaves_snapshots (reset_network env)"
  by (rule leaves_snapshotsI)
     (simp_all add: reset_network_def Let_def call_def reset_def)

lemma leaves_snapshots_flush_and_destroy: "leaves_snapshots (flush_and_destroy env)"
  by (rule leaves_snapshotsI)
     (simp_all add: flush_and_destroy_def Let_def call_def reset_def dumped_ClientStop)

lemma leaves_snapshots_unregister_interfaces: "leaves_snapshots (unregister_interfaces env)"
  by (rule leaves_snapshotsI)
     (simp_all add: unregister_interfaces_def Let_def call_def reset_def)

lemma leaves_snapshots_remove_pid: "leaves_snapshots (remove_pid_and_unregister env)"
  by (rule leaves_snapshotsI)
     (simp_all add: remove_pid_and_unregister_def Let_def call_def)

lemma new_calls_append: "calls s = calls st @ cs \<Longrightarrow> new_calls st s = cs"
  unfolding new_calls_def by simp

text \<open>The part of PrepareShutdown before the persistence step, and the part after it.\<close>

lemma leaves_snapshots_before:
  "leaves_snapshots (\<lambda>st. stop_network (stop_services env (call [Printed LogInProgress] st)))"
proof -
  have 1: "leaves_snapshots (call [Printed LogInProgress])"
    by (rule leaves_snapshots_call) simp
  have 2: "leaves_snapshots (\<lambda>st. stop_services env (call [Printed LogInProgress] st))"
    using 1 leaves_snapshots_stop_services by (rule leaves_snapshots_comp)
  show ?thesis using 2 leaves_snapshots_stop_network by (rule leaves_snapshots_comp)
qed

lemma leaves_snapshots_after:
  "leaves_snapshots (\<lambda>st. remove_pid_and_unregister env
      (unregister_interfaces env (flush_and_destroy env (reset_network env st))))"
proof -
  have 1: "leaves_snapshots (\<lambda>st. flush_and_destroy env (reset_network env st))"
    using leaves_snapshots_reset_network leaves_snapshots_flush_and_destroy
    by (rule leaves_snapshots_comp)
  have 2: "leaves_snapshots (\<lambda>st. unregister_interfaces env
             (flush_and_destroy env (reset_network env st)))"
    using 1 leaves_snapshots_unregister_interfaces by (rule leaves_snapshots_comp)
  show ?thesis using 2 leaves_snapshots_remove_pid by (rule leaves_snapshots_comp)
qed

lemma dump_caches_calls:
  "calls (dump_caches env st) =
     calls st @ map Dump ([''mncache.dat'', ''netfulfilled.dat'', ''sporks.dat'']
                          @ (if fDisableGovernance env then [] else [''governance.dat'']))"
  by (simp add: dump_caches_def flatdb_Dump_def call_def Let_def)

lemma dump_caches_snapshots:
  "snapshots (dump_caches env st) =
     (if fDisableGovernance env
      then (snapshots st)(''mncache.dat'' \<mapsto> mmetaman st, ''netfulfilled.dat'' \<mapsto> netfulfilledman st,
             ''sporks.dat'' \<mapsto> sporkManager st)
      else (snapshots st)(''mncache.dat'' \<mapsto> mmetaman st, ''netfulfilled.dat'' \<mapsto> netfulfilledman st,
             ''sporks.dat'' \<mapsto> sporkManager st, ''governance.dat'' \<mapsto> governance st))"
  by (simp add: dump_caches_def flatdb_Dump_def call_def Let_def)

lemma PrepareShutdown_unfold:
  "PrepareShutdown env st =
     (if \<not> lockShutdown env then call [Printed LogInProgress] st
      else remove_pid_and_unregister env
             (unregister_interfaces env (flush_and_destroy env (reset_network env
                (if RPCIsInWarmup env
                 then stop_network (stop_services env (call [Printed LogInProgress] st))
                 else dump_caches env
                        (stop_network (stop_services env (call [Printed LogInProgress] st))))))))"
  by (simp add: PrepareShutdown_def Let_def)

text \<open>
  Claim C9. When PrepareShutdown runs the teardown (the call has taken cs_Shutdown, so
  that the persistence step is reached), the snapshot files of the caches are written if
  and only if RPCIsInWarmup answered false: then mncache.dat, netfulfilled.dat and
  sporks.dat are written, in this order, and governance.dat after them unless governance
  is disabled, and each file holds the contents of its cache. When RPC was still in
  warmup, no snapshot file is written and the files on disk are as they were. No other
  step of the teardown writes a snapshot file. A call that does not get cs_Shutdown logs
  its first line and does nothing else.
\<close>

theorem caches_persisted_unless_warmup:
  "(lockShutdown env \<longrightarrow>
      dumped (new_calls st (PrepareShutdown env st)) =
        (if RPCIsInWarmup env then []
         else [''mncache.dat'', ''netfulfilled.dat'', ''sporks.dat'']
              @ (if fDisableGovernance env then [] else [''governance.dat'']))
      \<and> snapshots (PrepareShutdown env st) =
        (if RPCIsInWarmup env then snapshots st
         else if fDisableGovernance env
         then (snapshots st)(''mncache.dat'' \<mapsto> mmetaman st,
                ''netfulfilled.dat'' \<mapsto> netfulfilledman st, ''sporks.dat'' \<mapsto> sporkManager st)
         else (snapshots st)(''mncache.dat'' \<mapsto> mmetaman st,
                ''netfulfilled.dat'' \<mapsto> netfulfilledman st, ''sporks.dat'' \<mapsto> sporkManager st,
                ''governance.dat'' \<mapsto> governance st)))
   \<and> (\<not> lockShutdown env \<longrightarrow> PrepareShutdown env st = call [Printed LogInProgress] st)"
proof (intro conjI impI)
  let ?B = "\<lambda>st. stop_network (stop_services env (call [Printed LogInProgress] st))"
  let ?A = "\<lambda>st. remove_pid_and_unregister env
      (unregister_interfaces env (flush_and_destroy env (reset_network env st)))"
  let ?names = "[''mncache.dat'', ''netfulfilled.dat'', ''sporks.dat'']
                 @ (if fDisableGovernance env then [] else [''governance.dat''])"
  assume lock: "lockShutdown env"
  obtain bs where b: "calls (?B st) = calls st @ bs" "dumped bs = []"
    using leaves_snapshotsD(1) [OF leaves_snapshots_before [of env], of st] by blast
  note bv = leaves_snapshotsD(2-6) [OF leaves_snapshots_before [of env], of st]
  have dn: "dumped (map Dump ?names) = ?names" by simp
  show "dumped (new_calls st (PrepareShutdown env st)) = (if RPCIsInWarmup env then [] else ?names)"
  proof (cases "RPCIsInWarmup env")
    case True
    obtain as where a: "calls (?A (?B st)) = calls (?B st) @ as" "dumped as = []"
      using leaves_snapshotsD(1) [OF leaves_snapshots_after, of env "?B st"] by blast
    have "calls (PrepareShutdown env st) = calls st @ (bs @ as)"
      unfolding PrepareShutdown_unfold using lock True a(1) b(1) by simp
    then have "new_calls st (PrepareShutdown env st) = bs @ as" by (rule new_calls_append)
    then show ?thesis using True a(2) b(2) by (simp add: dumped_append)
  next
    case False
    let ?D = "dump_caches env (?B st)"
    obtain as where a: "calls (?A ?D) = calls ?D @ as" "dumped as = []"
      using leaves_snapshotsD(1) [OF leaves_snapshots_after, of env ?D] by blast
    have "calls (PrepareShutdown env st) = calls st @ (bs @ map Dump ?names @ as)"
      unfolding PrepareShutdown_unfold using lock False a(1) b(1)
      by (simp add: dump_caches_calls)
    then have "new_calls st (PrepareShutdown env st) = bs @ map Dump ?names @ as"
      by (rule new_calls_append)
    then have "dumped (new_calls st (PrepareShutdown env st)) = ?names"
      using a(2) b(2) dn by (simp only: dumped_append append_Nil append_Nil2)
    then show ?thesis using False by simp
  qed
  show "snapshots (PrepareShutdown env st) =
        (if RPCIsInWarmup env then snapshots st
         else if fDisableGovernance env
         then (snapshots st)(''mncache.dat'' \<mapsto> mmetaman st,
                ''netfulfilled.dat'' \<mapsto> netfulfilledman st, ''sporks.dat'' \<mapsto> sporkManager st)
         else (snapshots st)(''mncache.dat'' \<mapsto> mmetaman st,
                ''netfulfilled.dat'' \<mapsto> netfulfilledman st, ''sporks.dat'' \<mapsto> sporkManager st,
                ''governance.dat'' \<mapsto> governance st))"
    unfolding PrepareShutdown_unfold using lock
    by (simp add: leaves_snapshotsD(2) [OF leaves_snapshots_after] dump_caches_snapshots bv)
next
  assume "\<not> lockShutdown env"
  then show "PrepareShutdown env st = call [Printed LogInProgress] st"
    by (simp add: PrepareShutdown_unfold)
qed

text \<open>
  A node that is fully started: a teardown after warmup writes the four files from the
  caches; the same teardown with RPC still in warmup writes none of them; a call that
  does not get the lock does nothing.
\<close>

theorem caches_persisted_unless_warmup_witness:
  "lockShutdown plain_teardown
   \<and> dumped (new_calls started_node (PrepareShutdown plain_teardown started_node))
       = [''mncache.dat'', ''netfulfilled.dat'', ''sporks.dat'', ''governance.dat'']
   \<and> snapshots (PrepareShutdown plain_teardown started_node) ''mncache.dat'' = Some 11
   \<and> snapshots (PrepareShutdown plain_teardown started_node) ''netfulfilled.dat'' = Some 12
   \<and> snapshots (PrepareShutdown plain_teardown started_node) ''sporks.dat'' = Some 13
   \<and> snapshots (PrepareShutdown plain_teardown started_node) ''governance.dat'' = Some 14
   \<and> lockShutdown (plain_teardown\<lparr> RPCIsInWarmup := True \<rparr>)
   \<and> dumped (new_calls started_node
         (PrepareShutdown (plain_teardown\<lparr> RPCIsInWarmup := True \<rparr>) started_node)) = []
   \<and> snapshots (PrepareShutdown (plain_teardown\<lparr> RPCIsInWarmup := True \<rparr>) started_node)
       = snapshots started_node
   \<and> \<not> lockShutdown (plain_teardown\<lparr> lockShutdown := False \<rparr>)
   \<and> PrepareShutdown (plain_teardown\<lparr> lockShutdown := False \<rparr>) started_node
       = call [Printed LogInProgress] started_node"
proof -
  have h: "lockShutdown plain_teardown" "\<not> RPCIsInWarmup plain_teardown"
     "\<not> fDisableGovernance plain_teardown"
     "lockShutdown (plain_teardown\<lparr> RPCIsInWarmup := True \<rparr>)"
     "RPCIsInWarmup (plain_teardown\<lparr> RPCIsInWarmup := True \<rparr>)"
     "\<not> lockShutdown (plain_teardown\<lparr> lockShutdown := False \<rparr>)"
    by (simp_all add: plain_teardown_def)
  have c: "mmetaman started_node = 11" "netfulfilledman started_node = 12"
     "sporkManager started_node = 13" "governance started_node = 14"
    by (simp_all add: started_node_def)
  note t1 = caches_persisted_unless_warmup [where env = plain_teardown and st = started_node,
      THEN conjunct1, rule_format, OF h(1)]
  note t2 = caches_persisted_unless_warmup
      [where env = "plain_teardown\<lparr> RPCIsInWarmup := True \<rparr>" and st = started_node,
       THEN conjunct1, rule_format, OF h(4)]
  note t3 = caches_persisted_unless_warmup
      [where env = "plain_teardown\<lparr> lockShutdown := False \<rparr>" and st = started_node,
       THEN conjunct2, rule_format, OF h(6)]
  have 1: "dumped (new_calls started_node (PrepareShutdown plain_teardown started_node))
       = [''mncache.dat'', ''netfulfilled.dat'', ''sporks.dat'', ''governance.dat'']"
    using t1 [THEN conjunct1] h(2,3) by simp
  have s: "snapshots (PrepareShutdown plain_teardown started_node)
       = (snapshots started_node)(''mncache.dat'' \<mapsto> 11, ''netfulfilled.dat'' \<mapsto> 12,
            ''sporks.dat'' \<mapsto> 13, ''governance.dat'' \<mapsto> 14)"
    using t1 [THEN conjunct2] h(2,3) c by simp
  have 2: "snapshots (PrepareShutdown plain_teardown started_node) ''mncache.dat'' = Some 11"
     "snapshots (PrepareShutdown plain_teardown started_node) ''netfulfilled.dat'' = Some 12"
     "snapshots (PrepareShutdown plain_teardown started_node) ''sporks.dat'' = Some 13"
     "snapshots (PrepareShutdown plain_teardown started_node) ''governance.dat'' = Some 14"
    unfolding s by simp_all
  have 3: "dumped (new_calls started_node
         (PrepareShutdown (plain_teardown\<lparr> RPCIsInWarmup := True \<rparr>) started_node)) = []"
    using t2 [THEN conjunct1] h(5) by simp
  have 4: "snapshots (PrepareShutdown (plain_teardown\<lparr> RPCIsInWarmup := True \<rparr>) started_node)
       = snapshots started_node"
    using t2 [THEN conjunct2] h(5) by simp
  show ?thesis using h(1,4,6) 1 2 3 4 t3 by blast
qed

subsection \<open>A second call of PrepareShutdown\<close>






lemma settled_reset: "settled (reset p st) = (settled st)\<lparr> live := live (settled st) - {p} \<rparr>"
  by (simp add: settled_def reset_def call_def)





































end
